(* ===== verification/Tote_Prelude.thy ===== *)
theory Tote_Prelude
  imports Main "HOL-Library.Sublist" "HOL-Library.State_Monad"
begin

text \<open>
  The vocabulary the component theories share: Go errors and results, the functions of Go's
  \<open>strings\<close> package that the program calls, decimal formatting, the state monad in which
  effectful methods are written, and the two predicates (\<open>state_rel\<close> and its instances in
  theory \<open>World\<close>) through which effects are reasoned about. Go strings are byte sequences;
  Isabelle's \<^typ>\<open>string\<close> is a list of 8-bit characters, so \<^const>\<open>length\<close> is Go's \<open>len\<close>.
\<close>

named_theorems go_strings \<open>unfolding and evaluation of the string functions\<close>
named_theorems rel_intros \<open>effect bounds of the primitive actions and of the methods\<close>

section \<open>Errors and results\<close>

text \<open>
  A Go \<open>error\<close> is its message together with the classes the program tests for with
  \<open>client.IgnoreNotFound\<close>, \<open>errors.IsForbidden\<close> and \<open>errdefs.IsAlreadyExists\<close>. Wrapping with
  \<open>%w\<close> keeps the class (these tests unwrap); formatting with \<open>%v\<close> or \<open>%s\<close> loses it.
\<close>

datatype errkind = KNotFound | KForbidden | KAlreadyExists | KOther

datatype err = Err (ekind: errkind) (emsg: string)

type_synonym 'a result = "err + 'a"

definition errorf :: "string \<Rightarrow> err" where
  "errorf msg = Err KOther msg"

definition wrapf :: "string \<Rightarrow> err \<Rightarrow> err" where
  "wrapf msg e = Err (ekind e) (msg @ '': '' @ emsg e)"

lemma errorf_sel [simp]: "ekind (errorf m) = KOther" "emsg (errorf m) = m"
  by (simp_all add: errorf_def)

lemma wrapf_sel [simp]: "ekind (wrapf m e) = ekind e" "emsg (wrapf m e) = m @ '': '' @ emsg e"
  by (simp_all add: wrapf_def)

definition is_ok :: "'a result \<Rightarrow> bool" where
  "is_ok r = (case r of Inl _ \<Rightarrow> False | Inr _ \<Rightarrow> True)"

lemma is_ok_simps [simp]: "\<not> is_ok (Inl e)" "is_ok (Inr x)"
  by (simp_all add: is_ok_def)

section \<open>Go maps\<close>

text \<open>Indexing a Go map with string values by a missing key gives the zero value.\<close>

definition go_lookup :: "(string \<rightharpoonup> string) \<Rightarrow> string \<Rightarrow> string" where
  "go_lookup m k = (case m k of None \<Rightarrow> '''' | Some v \<Rightarrow> v)"

lemma go_lookup_simps [simp]:
  "go_lookup Map.empty k = ''''"
  "go_lookup (m(k \<mapsto> v)) j = (if j = k then v else go_lookup m j)"
  by (simp_all add: go_lookup_def)

lemma go_lookup_eq_iff: "v \<noteq> '''' \<Longrightarrow> go_lookup m k = v \<longleftrightarrow> m k = Some v"
  by (simp add: go_lookup_def split: option.splits)

section \<open>The strings package\<close>

text \<open>\<open>strings.HasPrefix s p\<close> and \<open>strings.HasSuffix s p\<close> are the library's \<^const>\<open>prefix\<close>
  and \<^const>\<open>suffix\<close> with the arguments swapped. An index of \<open>-1\<close> is \<^const>\<open>None\<close>.\<close>

definition HasPrefix :: "string \<Rightarrow> string \<Rightarrow> bool" where
  [go_strings]: "HasPrefix s p = prefix p s"

definition HasSuffix :: "string \<Rightarrow> string \<Rightarrow> bool" where
  [go_strings]: "HasSuffix s p = suffix p s"

fun str_Index :: "string \<Rightarrow> string \<Rightarrow> nat option" where
  "str_Index [] sub = (if sub = [] then Some 0 else None)"
| "str_Index (c # cs) sub =
     (if prefix sub (c # cs) then Some 0 else map_option Suc (str_Index cs sub))"

fun str_LastIndex :: "string \<Rightarrow> string \<Rightarrow> nat option" where
  "str_LastIndex [] sub = (if sub = [] then Some 0 else None)"
| "str_LastIndex (c # cs) sub =
     (case str_LastIndex cs sub of
        Some i \<Rightarrow> Some (Suc i)
      | None \<Rightarrow> (if prefix sub (c # cs) then Some 0 else None))"

definition str_Contains :: "string \<Rightarrow> string \<Rightarrow> bool" where
  [go_strings]: "str_Contains s sub = (str_Index s sub \<noteq> None)"

definition ContainsAny :: "string \<Rightarrow> string \<Rightarrow> bool" where
  [go_strings]: "ContainsAny s chars = list_ex (\<lambda>c. c \<in> set chars) s"

text \<open>\<open>strings.SplitN(s, sep, 2)\<close> for a non-empty separator.\<close>

definition SplitN2 :: "string \<Rightarrow> string \<Rightarrow> string list" where
  [go_strings]: "SplitN2 s sep =
     (case str_Index s sep of
        None \<Rightarrow> [s]
      | Some i \<Rightarrow> [take i s, drop (i + length sep) s])"

text \<open>\<open>strings.Split(s, c)\<close> for a one-byte separator.\<close>

fun SplitChar :: "string \<Rightarrow> char \<Rightarrow> string list" where
  "SplitChar [] c = [[]]"
| "SplitChar (x # xs) c =
     (if x = c then [] # SplitChar xs c
      else (case SplitChar xs c of [] \<Rightarrow> [[x]] | p # ps \<Rightarrow> (x # p) # ps))"

fun Join :: "string list \<Rightarrow> string \<Rightarrow> string" where
  "Join [] sep = []"
| "Join [x] sep = x"
| "Join (x # y # zs) sep = x @ sep @ Join (y # zs) sep"

lemma str_Index_Some:
  "str_Index s sub = Some i \<Longrightarrow> i \<le> length s \<and> prefix sub (drop i s)"
  by (induction s sub arbitrary: i rule: str_Index.induct) (auto split: if_splits)

lemma str_Index_None: "str_Index s sub = None \<longleftrightarrow> \<not> sublist sub s"
  by (induction s sub rule: str_Index.induct) (auto simp: sublist_Cons_right)

lemma str_Index_first:
  "str_Index s sub = Some i \<Longrightarrow> j < i \<Longrightarrow> \<not> prefix sub (drop j s)"
proof (induction s sub arbitrary: i j rule: str_Index.induct)
  case (2 c cs sub)
  then show ?case by (cases j) (auto split: if_splits)
qed (auto split: if_splits)

lemma str_Contains_iff: "str_Contains s sub \<longleftrightarrow> sublist sub s"
  by (simp add: str_Contains_def str_Index_None)

lemma str_LastIndex_Some:
  "str_LastIndex s sub = Some i \<Longrightarrow> i \<le> length s \<and> prefix sub (drop i s)"
  by (induction s sub arbitrary: i rule: str_LastIndex.induct) (auto split: option.splits if_splits)

lemma str_LastIndex_None: "str_LastIndex s sub = None \<longleftrightarrow> \<not> sublist sub s"
  by (induction s sub rule: str_LastIndex.induct) (auto simp: sublist_Cons_right split: option.splits)

text \<open>For a one-byte pattern the last occurrence is followed by text free of it.\<close>

lemma str_LastIndex_char_None: "str_LastIndex s [c] = None \<longleftrightarrow> c \<notin> set s"
  by (induction s) (auto split: option.splits)

lemma str_LastIndex_char:
  "str_LastIndex s [c] = Some i \<longleftrightarrow> i < length s \<and> s ! i = c \<and> c \<notin> set (drop (Suc i) s)"
proof (induction s arbitrary: i)
  case (Cons x s)
  show ?case
  proof (cases "str_LastIndex s [c]")
    case None
    then have "c \<notin> set s" using str_LastIndex_char_None[of s c] by simp
    then show ?thesis using None
      by (cases i) (auto dest: nth_mem)
  next
    case (Some j)
    then have "c \<in> set s" using str_LastIndex_char_None[of s c] by simp
    with Some show ?thesis using Cons.IH[of "i - 1"] by (cases i) simp_all
  qed
qed simp

lemma str_LastIndex_char_split:
  "str_LastIndex s [c] = Some i \<Longrightarrow> s = take i s @ c # drop (Suc i) s \<and> c \<notin> set (drop (Suc i) s)"
  using id_take_nth_drop[of i s] by (simp add: str_LastIndex_char)

lemma str_LastIndex_char_append:
  "c \<notin> set t \<Longrightarrow> str_LastIndex (s @ c # t) [c] = Some (length s)"
  by (simp add: str_LastIndex_char)

lemma str_Index_char_None: "str_Index s [c] = None \<longleftrightarrow> c \<notin> set s"
  by (induction s) auto

lemma str_Index_char_append:
  "c \<notin> set s \<Longrightarrow> str_Index (s @ c # t) [c] = Some (length s)"
  by (induction s) auto

lemma str_Contains_char [simp]: "str_Contains s [c] \<longleftrightarrow> c \<in> set s"
  by (simp add: str_Contains_def str_Index_char_None)

lemma str_Index_char_split:
  "str_Index s [c] = Some i \<Longrightarrow> s = take i s @ c # drop (Suc i) s \<and> c \<notin> set (take i s)"
  by (induction s arbitrary: i) (auto split: if_splits)

lemma SplitN2_char_in: "c \<notin> set xs \<Longrightarrow> SplitN2 (xs @ c # ys) [c] = [xs, ys]"
  by (simp add: SplitN2_def str_Index_char_append)

lemma SplitN2_char_notin: "c \<notin> set s \<Longrightarrow> SplitN2 s [c] = [s]"
  by (simp add: SplitN2_def str_Index_char_None[THEN iffD2])

lemma SplitChar_nonempty [simp]: "SplitChar s c \<noteq> []"
  by (cases s) (auto split: list.splits)

lemma Join_SplitChar: "Join (SplitChar s c) [c] = s"
proof (induction s)
  case (Cons x s)
  show ?case
  proof (cases "SplitChar s c")
    case (Cons p ps)
    with \<open>Join (SplitChar s c) [c] = s\<close> show ?thesis
      by (cases ps) auto
  qed simp
qed simp

section \<open>Decimal formatting\<close>

text \<open>The \<open>%d\<close> verb.\<close>

fun fmt_nat :: "nat \<Rightarrow> string" where
  "fmt_nat n = (if n < 10 then [char_of (48 + n)] else fmt_nat (n div 10) @ [char_of (48 + n mod 10)])"

declare fmt_nat.simps [simp del]

definition fmt_int :: "int \<Rightarrow> string" where
  "fmt_int i = (if i < 0 then ''-'' @ fmt_nat (nat (- i)) else fmt_nat (nat i))"

lemma fmt_nat_nonempty [simp]: "fmt_nat n \<noteq> []"
  by (subst fmt_nat.simps) simp

lemma fmt_int_nonempty [simp]: "fmt_int i \<noteq> []"
  by (simp add: fmt_int_def)

end
