(* ===== verification/Kube_Types.thy ===== *)
theory Kube_Types
  imports Tote_Prelude
begin

text \<open>
  The data the program works on: the fields of the Kubernetes objects it reads, writes or clears
  (\<open>k8s.io/api\<close>), the \<open>SalvageRecord\<close> custom resource (\<open>api/v1alpha1/types.go\<close>) and the messages of
  the agent protocol (\<open>api/v1/agent.pb.go\<close>). A field that the program only ever resets has the
  type \<open>opaque\<close>, whose \<^const>\<open>None\<close> is Go's zero value (\<open>nil\<close>, an empty struct or an empty string).
\<close>

type_synonym opaque = "string option"

section \<open>Kubernetes objects\<close>

record OwnerReference =
  owner_Kind :: string
  owner_Name :: string

record ObjectMeta =
  meta_Name :: string
  meta_Namespace :: string
  meta_Annotations :: "string \<rightharpoonup> string"
  meta_Labels :: "string \<rightharpoonup> string"
  meta_OwnerReferences :: "OwnerReference list"
  meta_ManagedFields :: opaque

record Container =
  ctr_Name :: string
  ctr_Image :: string
  ctr_Command :: opaque
  ctr_Args :: opaque
  ctr_Env :: opaque
  ctr_EnvFrom :: opaque
  ctr_VolumeMounts :: opaque
  ctr_Ports :: opaque
  ctr_Resources :: opaque
  ctr_LivenessProbe :: opaque
  ctr_ReadinessProbe :: opaque
  ctr_StartupProbe :: opaque
  ctr_SecurityContext :: opaque
  ctr_ImagePullPolicy :: opaque
  ctr_TerminationMessagePath :: opaque
  ctr_TerminationMessagePolicy :: opaque

record WaitingState =
  waiting_Reason :: string
  waiting_Message :: string

record ContainerStatus =
  cs_Name :: string
  cs_Waiting :: "WaitingState option"
  cs_Running :: opaque
  cs_Terminated :: opaque
  cs_Ready :: bool
  cs_RestartCount :: int
  cs_ContainerID :: string
  cs_Started :: opaque
  cs_LastTerminationState :: opaque

record Pod =
  pod_Meta :: ObjectMeta
  pod_NodeName :: string
  pod_Containers :: "Container list"
  pod_InitContainers :: "Container list"
  pod_Volumes :: opaque
  pod_SecurityContext :: opaque
  pod_ServiceAccountName :: opaque
  pod_SchedulerName :: opaque
  pod_DNSPolicy :: opaque
  pod_RestartPolicy :: opaque
  pod_TerminationGracePeriodSeconds :: opaque
  pod_ContainerStatuses :: "ContainerStatus list"
  pod_InitContainerStatuses :: "ContainerStatus list"
  pod_Conditions :: opaque
  pod_PodIPs :: opaque
  pod_HostIP :: opaque
  pod_PodIP :: string
  pod_StartTime :: opaque

abbreviation pod_Name :: "Pod \<Rightarrow> string" where
  "pod_Name p \<equiv> meta_Name (pod_Meta p)"

abbreviation pod_Namespace :: "Pod \<Rightarrow> string" where
  "pod_Namespace p \<equiv> meta_Namespace (pod_Meta p)"

abbreviation pod_Annotations :: "Pod \<Rightarrow> string \<rightharpoonup> string" where
  "pod_Annotations p \<equiv> meta_Annotations (pod_Meta p)"

abbreviation pod_OwnerReferences :: "Pod \<Rightarrow> OwnerReference list" where
  "pod_OwnerReferences p \<equiv> meta_OwnerReferences (pod_Meta p)"

text \<open>Zero values, from which the examples build theirs.\<close>

definition blank_meta :: ObjectMeta where
  "blank_meta = \<lparr>meta_Name = '''', meta_Namespace = '''', meta_Annotations = Map.empty, meta_Labels = Map.empty,
     meta_OwnerReferences = [], meta_ManagedFields = None\<rparr>"

definition blank_pod :: Pod where
  "blank_pod = \<lparr>pod_Meta = blank_meta, pod_NodeName = '''', pod_Containers = [], pod_InitContainers = [],
     pod_Volumes = None, pod_SecurityContext = None, pod_ServiceAccountName = None, pod_SchedulerName = None,
     pod_DNSPolicy = None, pod_RestartPolicy = None, pod_TerminationGracePeriodSeconds = None,
     pod_ContainerStatuses = [], pod_InitContainerStatuses = [], pod_Conditions = None, pod_PodIPs = None,
     pod_HostIP = None, pod_PodIP = '''', pod_StartTime = None\<rparr>"

text \<open>A node and the image names of each entry of its \<open>Status.Images\<close>.\<close>

record Node =
  node_Name :: string
  node_Images :: "string list list"

text \<open>A Secret is its \<open>Data\<close> map.\<close>

type_synonym Secret = "string \<rightharpoonup> string"

section \<open>The SalvageRecord resource\<close>

record SalvageRecordSpec =
  PodName :: string
  Digest :: string
  ImageRef :: string
  SourceNode :: string
  TargetNode :: string

record SalvageRecordStatus =
  Phase :: string
  CompletedAt :: string
  StatusError :: string

record SalvageRecord =
  rec_Name :: string
  rec_Namespace :: string
  rec_Spec :: SalvageRecordSpec
  rec_Status :: SalvageRecordStatus

section \<open>Messages of the agent protocol\<close>

record PrepareExportRequest =
  pe_SessionToken :: string
  pe_Digest :: string

record ExportImageRequest =
  ei_SessionToken :: string

record ImportFromRequest =
  if_SessionToken :: string
  if_Digest :: string
  if_SourceEndpoint :: string

record ImportFromResponse =
  ifr_Success :: bool
  ifr_Error :: string

record ResolveTagRequest =
  rt_ImageRef :: string

record RemoveImageRequest =
  rm_ImageRef :: string

record PushImageRequest =
  pi_Digest :: string
  pi_TargetRef :: string
  pi_RegistryUsername :: string
  pi_RegistryPassword :: string
  pi_Insecure :: bool

record PushImageResponse =
  pir_Success :: bool
  pir_Error :: string

text \<open>The unary calls the controller makes on an agent.\<close>

datatype agent_call =
    CallPrepareExport PrepareExportRequest
  | CallImportFrom ImportFromRequest
  | CallResolveTag ResolveTagRequest
  | CallRemoveImage RemoveImageRequest
  | CallPushImage PushImageRequest

end
