(* ===== verification/Session.thy ===== *)
theory Session
  imports Tote_Prelude
begin

text \<open>
  \<open>internal/session/session.go\<close>: the in-memory store of transfer authorisations, used by the
  controller's orchestrator and by every agent. Each method holds the mutex for its whole body,
  so a method is one atomic step and any concurrent use is some sequence of steps
  (\<open>store_op\<close>, \<open>run_ops\<close>). \<open>time.Now()\<close> and \<open>uuid.New().String()\<close> are arguments; times and
  durations are integers counting nanoseconds. The interface \<open>token_store\<close> is what the agent
  server and the orchestrator rely on: which tokens a store accepts at which time. It is
  interpreted on the methods of \<open>Store\<close>.
\<close>

section \<open>Data and methods\<close>

record Session =
  sess_Token :: string
  sess_Digest :: string
  sess_SourceNode :: string
  sess_TargetNode :: string
  sess_ExpiresAt :: int

record Store =
  store_sessions :: "string \<rightharpoonup> Session"

definition NewStore :: Store where
  "NewStore = \<lparr>store_sessions = Map.empty\<rparr>"

definition Create :: "string \<Rightarrow> int \<Rightarrow> string \<Rightarrow> string \<Rightarrow> string \<Rightarrow> int \<Rightarrow> Store \<Rightarrow> Session \<times> Store" where
  "Create uuid now digest sourceNode targetNode ttl s =
     (let sess = \<lparr>sess_Token = uuid, sess_Digest = digest, sess_SourceNode = sourceNode,
                  sess_TargetNode = targetNode, sess_ExpiresAt = now + ttl\<rparr>
      in (sess, s\<lparr>store_sessions := (store_sessions s)(sess_Token sess \<mapsto> sess)\<rparr>))"

definition Register :: "int \<Rightarrow> string \<Rightarrow> string \<Rightarrow> int \<Rightarrow> Store \<Rightarrow> Session \<times> Store" where
  "Register now token digest ttl s =
     (let sess = \<lparr>sess_Token = token, sess_Digest = digest, sess_SourceNode = '''',
                  sess_TargetNode = '''', sess_ExpiresAt = now + ttl\<rparr>
      in (sess, s\<lparr>store_sessions := (store_sessions s)(token \<mapsto> sess)\<rparr>))"

text \<open>\<open>(Session{}, false)\<close> is \<^const>\<open>None\<close>: callers look at the session only when \<open>ok\<close> is true.\<close>

definition Validate :: "int \<Rightarrow> string \<Rightarrow> Store \<Rightarrow> Session option \<times> Store" where
  "Validate now token s =
     (case store_sessions s token of
        None \<Rightarrow> (None, s)
      | Some sess \<Rightarrow>
          (if now > sess_ExpiresAt sess
           then (None, s\<lparr>store_sessions := (store_sessions s)(token := None)\<rparr>)
           else (Some sess, s)))"

definition Delete :: "string \<Rightarrow> Store \<Rightarrow> Store" where
  "Delete token s = s\<lparr>store_sessions := (store_sessions s)(token := None)\<rparr>"

definition Cleanup :: "int \<Rightarrow> Store \<Rightarrow> Store" where
  "Cleanup now s =
     s\<lparr>store_sessions := (\<lambda>token. case store_sessions s token of
          None \<Rightarrow> None
        | Some sess \<Rightarrow> if now > sess_ExpiresAt sess then None else Some sess)\<rparr>"

definition Len :: "Store \<Rightarrow> nat" where
  "Len s = card (dom (store_sessions s))"

text \<open>One atomic step of the store at time \<open>now\<close>, and a run of timed steps.\<close>

datatype store_op =
    OpCreate string string string string int
  | OpRegister string string int
  | OpValidate string
  | OpDelete string
  | OpCleanup

fun step_op :: "int \<Rightarrow> store_op \<Rightarrow> Store \<Rightarrow> Store" where
  "step_op now (OpCreate uuid d src tgt ttl) s = snd (Create uuid now d src tgt ttl s)"
| "step_op now (OpRegister tok d ttl) s = snd (Register now tok d ttl s)"
| "step_op now (OpValidate tok) s = snd (Validate now tok s)"
| "step_op now (OpDelete tok) s = Delete tok s"
| "step_op now OpCleanup s = Cleanup now s"

fun run_ops :: "(int \<times> store_op) list \<Rightarrow> Store \<Rightarrow> Store" where
  "run_ops [] s = s"
| "run_ops ((now, x) # xs) s = run_ops xs (step_op now x s)"

text \<open>The token a step may authorise or revoke.\<close>

fun op_token :: "store_op \<Rightarrow> string option" where
  "op_token (OpCreate uuid d src tgt ttl) = Some uuid"
| "op_token (OpRegister tok d ttl) = Some tok"
| "op_token (OpDelete tok) = Some tok"
| "op_token _ = None"

section \<open>Specification: the tokens a store accepts at a time\<close>

definition valid_at :: "Store \<Rightarrow> int \<Rightarrow> string \<rightharpoonup> Session" where
  "valid_at s t tok =
     (case store_sessions s tok of
        None \<Rightarrow> None
      | Some sess \<Rightarrow> if t > sess_ExpiresAt sess then None else Some sess)"

text \<open>Every session is filed under its own token, in a finite table.\<close>

definition store_wf :: "Store \<Rightarrow> bool" where
  "store_wf s \<longleftrightarrow> finite (dom (store_sessions s)) \<and>
     (\<forall>tok sess. store_sessions s tok = Some sess \<longrightarrow> sess_Token sess = tok)"

lemmas session_defs = Create_def Register_def Validate_def Delete_def Cleanup_def Let_def

lemma store_wf_NewStore: "store_wf NewStore"
  by (simp add: store_wf_def NewStore_def)

lemma Cleanup_sessions: "store_sessions (Cleanup now s) = valid_at s now"
  by (rule ext) (simp add: Cleanup_def valid_at_def)

lemma valid_at_sub: "valid_at s t \<subseteq>\<^sub>m store_sessions s"
  by (auto simp: map_le_def valid_at_def split: option.splits if_splits)

lemma store_wf_step: "store_wf s \<Longrightarrow> store_wf (step_op now x s)"
proof (cases x)
  case OpCleanup
  assume wf: "store_wf s"
  have "dom (store_sessions (Cleanup now s)) \<subseteq> dom (store_sessions s)"
    unfolding Cleanup_sessions by (rule map_le_implies_dom_le[OF valid_at_sub])
  with wf OpCleanup show ?thesis
    by (auto simp: store_wf_def Cleanup_def intro: finite_subset split: option.splits if_splits)
qed (auto simp: store_wf_def session_defs split: option.splits)

section \<open>The interface\<close>

text \<open>
  A token store is characterised by the tokens it accepts at a time. Validation answers that
  question and changes no answer at a later time; registering and deleting change one token;
  acceptance only shrinks as time passes.
\<close>

locale token_store =
  fixes register :: "int \<Rightarrow> string \<Rightarrow> string \<Rightarrow> int \<Rightarrow> 's \<Rightarrow> Session \<times> 's"
    and validate :: "int \<Rightarrow> string \<Rightarrow> 's \<Rightarrow> Session option \<times> 's"
    and delete :: "string \<Rightarrow> 's \<Rightarrow> 's"
    and accepts :: "'s \<Rightarrow> int \<Rightarrow> string \<rightharpoonup> Session"
  assumes validate_accepts: "fst (validate now tok s) = accepts s now tok"
    and validate_later: "now \<le> t \<Longrightarrow> accepts (snd (validate now tok s)) t = accepts s t"
    and register_accepts:
      "accepts (snd (register now tok d ttl s)) t =
         (accepts s t)(tok := if t \<le> now + ttl then Some (fst (register now tok d ttl s)) else None)"
    and register_digest: "sess_Digest (fst (register now tok d ttl s)) = d"
    and delete_accepts: "accepts (delete tok s) t = (accepts s t)(tok := None)"
    and accepts_mono: "t \<le> t' \<Longrightarrow> accepts s t' tok = Some x \<Longrightarrow> accepts s t tok = Some x"
begin

lemma validate_idem:
  "now \<le> t \<Longrightarrow> fst (validate t tok (snd (validate now tok' s))) = fst (validate t tok s)"
  by (simp add: validate_accepts validate_later)

lemma register_validate:
  assumes "t \<le> now + ttl"
  shows "\<exists>x. fst (validate t tok (snd (register now tok d ttl s))) = Some x \<and> sess_Digest x = d"
  using assms by (simp add: validate_accepts register_accepts register_digest)

lemma register_other:
  "tok' \<noteq> tok \<Longrightarrow> fst (validate t tok' (snd (register now tok d ttl s))) = fst (validate t tok' s)"
  by (simp add: validate_accepts register_accepts)

lemma deleted_rejected: "fst (validate t tok (delete tok s)) = None"
  by (simp add: validate_accepts delete_accepts)

lemma expired_stays_rejected:
  assumes "fst (validate t tok s) = None" and "t \<le> t'"
  shows "fst (validate t' tok s) = None"
  using assms accepts_mono[of t t' s tok] by (cases "accepts s t' tok") (auto simp: validate_accepts)

end

lemma Validate_result: "fst (Validate now tok s) = valid_at s now tok"
  by (simp add: Validate_def valid_at_def split: option.splits)

lemma Validate_later: "now \<le> t \<Longrightarrow> valid_at (snd (Validate now tok s)) t = valid_at s t"
  by (rule ext) (auto simp: Validate_def valid_at_def split: option.splits)

interpretation st: token_store Register Validate Delete valid_at
  by unfold_locales
     (auto simp: Validate_result Validate_later valid_at_def Register_def Delete_def Let_def
        intro!: ext split: option.splits if_splits)

section \<open>Properties\<close>

lemma step_op_other:
  assumes "op_token x \<noteq> Some tok" and "now \<le> t"
  shows "valid_at (step_op now x s) t tok = valid_at s t tok"
proof (cases x)
  case (OpValidate tok')
  then show ?thesis using assms(2) by (simp add: Validate_later)
next
  case OpCleanup
  then show ?thesis using assms(2) by (auto simp: valid_at_def Cleanup_def split: option.splits)
qed (use assms in \<open>auto simp: valid_at_def session_defs\<close>)

lemma run_ops_other:
  assumes "\<forall>(now, x) \<in> set xs. op_token x \<noteq> Some tok \<and> now \<le> t"
  shows "valid_at (run_ops xs s) t tok = valid_at s t tok"
  using assms
proof (induction xs arbitrary: s)
  case (Cons nx xs)
  obtain now x where "nx = (now, x)" by fastforce
  with Cons show ?case by (simp add: step_op_other)
qed simp

lemma run_ops_wf: "store_wf s \<Longrightarrow> store_wf (run_ops xs s)"
  by (induction xs s rule: run_ops.induct) (auto intro: store_wf_step)

text \<open>C30: a token registered for a digest with a TTL is accepted, and bound to that digest, at every
  time up to its expiry, whatever other callers do to the store in between (create, register and
  delete other tokens, validate any token, clean up expired sessions).\<close>

theorem registered_token_stays_valid:
  assumes "\<forall>(u, x) \<in> set xs. op_token x \<noteq> Some tok \<and> u \<le> t"
    and "t \<le> now + ttl"
  shows "\<exists>sess. fst (Validate t tok (run_ops xs (snd (Register now tok d ttl s)))) = Some sess
           \<and> sess_Digest sess = d"
proof -
  have "valid_at (run_ops xs (snd (Register now tok d ttl s))) t tok
        = valid_at (snd (Register now tok d ttl s)) t tok"
    by (rule run_ops_other[OF assms(1)])
  with assms(2) show ?thesis
    using st.register_validate[OF assms(2), of tok d s] by (simp add: Validate_result)
qed

theorem registered_token_stays_valid_witness:
  "\<exists>sess. fst (Validate 9 ''t'' (run_ops [(3, OpDelete ''u''), (5, OpValidate ''t''), (8, OpCleanup)]
       (snd (Register 0 ''t'' ''sha256:a'' 10 NewStore)))) = Some sess
     \<and> sess_Digest sess = ''sha256:a''"
  by (rule registered_token_stays_valid) simp_all

text \<open>C31: a token that is deleted or whose lifetime has passed is rejected from then on, until some
  caller creates or registers it again: neither validation nor cleanup nor the passing of time
  revives it.\<close>

theorem dead_token_stays_rejected:
  assumes "fst (Validate td tok s) = None" and "td \<le> t"
    and "\<forall>(u, y) \<in> set ys. op_token y \<noteq> Some tok \<and> u \<le> t"
  shows "fst (Validate t tok (run_ops ys s)) = None"
proof -
  have "fst (Validate t tok s) = None"
    by (rule st.expired_stays_rejected[OF assms(1,2)])
  then show ?thesis by (simp only: Validate_result run_ops_other[OF assms(3)])
qed

theorem dead_token_stays_rejected_witness:
  "fst (Validate 7 ''t'' (run_ops [(4, OpCleanup), (6, OpValidate ''t'')]
      (Delete ''t'' (snd (Register 0 ''t'' ''sha256:a'' 10 NewStore))))) = None"
  by (rule dead_token_stays_rejected[where t = 7 and td = 3])
     (simp_all add: Validate_def Delete_def Register_def NewStore_def Let_def)

text \<open>Every store reached from \<open>NewStore\<close> by any sequence of calls files each session under its
  own token in a finite table, and a cleanup then keeps exactly the sessions that are still valid,
  so that \<open>Len\<close> counts them and never grows by cleaning.\<close>

theorem reachable_store_cleanup:
  "store_wf (run_ops xs NewStore)
   \<and> store_sessions (Cleanup now (run_ops xs NewStore)) = valid_at (run_ops xs NewStore) now
   \<and> Len (Cleanup now (run_ops xs NewStore)) \<le> Len (run_ops xs NewStore)"
proof -
  let ?s = "run_ops xs NewStore"
  have wf: "store_wf ?s" by (rule run_ops_wf[OF store_wf_NewStore])
  then have "Len (Cleanup now ?s) \<le> Len ?s"
    unfolding Len_def Cleanup_sessions
    by (intro card_mono map_le_implies_dom_le[OF valid_at_sub]) (simp add: store_wf_def)
  with wf show ?thesis by (simp add: Cleanup_sessions)
qed

end
