(* ===== verification/Metrics.thy ===== *)
theory Metrics
  imports Tote_Prelude
begin

text \<open>
  \<open>internal/metrics/metrics.go\<close>. A Prometheus counter is the number of its increments, a histogram
  the list of observed durations (nanoseconds, oldest first), the counter vector one number per
  label value. Registration with the Prometheus registry is not modelled.
\<close>

record Counters =
  DetectedFailures :: nat
  SalvageableImages :: nat
  NotActionable :: nat
  CorruptImages :: nat
  SalvageAttempts :: nat
  SalvageSuccesses :: nat
  SalvageFailures :: nat
  PushAttempts :: nat
  PushSuccesses :: nat
  PushFailures :: nat
  SalvageDuration :: "int list"
  PushDuration :: "int list"
  RegistryResolveTotal :: "string \<Rightarrow> nat"
  RegistryResolveDur :: "int list"

definition NewCounters :: Counters where
  "NewCounters = \<lparr>DetectedFailures = 0, SalvageableImages = 0, NotActionable = 0, CorruptImages = 0,
     SalvageAttempts = 0, SalvageSuccesses = 0, SalvageFailures = 0,
     PushAttempts = 0, PushSuccesses = 0, PushFailures = 0,
     SalvageDuration = [], PushDuration = [], RegistryResolveTotal = (\<lambda>_. 0), RegistryResolveDur = []\<rparr>"

definition RecordDetected :: "Counters \<Rightarrow> Counters" where
  "RecordDetected c = c\<lparr>DetectedFailures := Suc (DetectedFailures c)\<rparr>"

definition RecordSalvageable :: "Counters \<Rightarrow> Counters" where
  "RecordSalvageable c = c\<lparr>SalvageableImages := Suc (SalvageableImages c)\<rparr>"

definition RecordNotActionable :: "Counters \<Rightarrow> Counters" where
  "RecordNotActionable c = c\<lparr>NotActionable := Suc (NotActionable c)\<rparr>"

definition RecordCorruptImage :: "Counters \<Rightarrow> Counters" where
  "RecordCorruptImage c = c\<lparr>CorruptImages := Suc (CorruptImages c)\<rparr>"

definition RecordSalvageAttempt :: "Counters \<Rightarrow> Counters" where
  "RecordSalvageAttempt c = c\<lparr>SalvageAttempts := Suc (SalvageAttempts c)\<rparr>"

definition RecordSalvageSuccess :: "Counters \<Rightarrow> Counters" where
  "RecordSalvageSuccess c = c\<lparr>SalvageSuccesses := Suc (SalvageSuccesses c)\<rparr>"

definition RecordSalvageFailure :: "Counters \<Rightarrow> Counters" where
  "RecordSalvageFailure c = c\<lparr>SalvageFailures := Suc (SalvageFailures c)\<rparr>"

definition RecordPushAttempt :: "Counters \<Rightarrow> Counters" where
  "RecordPushAttempt c = c\<lparr>PushAttempts := Suc (PushAttempts c)\<rparr>"

definition RecordPushSuccess :: "Counters \<Rightarrow> Counters" where
  "RecordPushSuccess c = c\<lparr>PushSuccesses := Suc (PushSuccesses c)\<rparr>"

definition RecordPushFailure :: "Counters \<Rightarrow> Counters" where
  "RecordPushFailure c = c\<lparr>PushFailures := Suc (PushFailures c)\<rparr>"

definition RecordSalvageDuration :: "int \<Rightarrow> Counters \<Rightarrow> Counters" where
  "RecordSalvageDuration d c = c\<lparr>SalvageDuration := SalvageDuration c @ [d]\<rparr>"

definition RecordPushDuration :: "int \<Rightarrow> Counters \<Rightarrow> Counters" where
  "RecordPushDuration d c = c\<lparr>PushDuration := PushDuration c @ [d]\<rparr>"

definition RecordRegistryResolve :: "string \<Rightarrow> Counters \<Rightarrow> Counters" where
  "RecordRegistryResolve res c =
     c\<lparr>RegistryResolveTotal := (RegistryResolveTotal c)(res := Suc (RegistryResolveTotal c res))\<rparr>"

definition RecordRegistryResolveDuration :: "int \<Rightarrow> Counters \<Rightarrow> Counters" where
  "RecordRegistryResolveDuration d c = c\<lparr>RegistryResolveDur := RegistryResolveDur c @ [d]\<rparr>"

lemmas record_metric_defs =
  RecordDetected_def RecordSalvageable_def RecordNotActionable_def RecordCorruptImage_def
  RecordSalvageAttempt_def RecordSalvageSuccess_def RecordSalvageFailure_def
  RecordPushAttempt_def RecordPushSuccess_def RecordPushFailure_def
  RecordSalvageDuration_def RecordPushDuration_def
  RecordRegistryResolve_def RecordRegistryResolveDuration_def

end
