(* ===== verification/Base64.thy ===== *)
theory Base64
  imports Tote_Prelude
begin

text \<open>
  Go's \<open>base64.StdEncoding.DecodeString\<close>, as \<open>internal/registry/secret.go\<close> uses it: quanta of four
  characters, line breaks ignored, mandatory padding, and the input offset in the error. The
  encoder is here as the specification of what a \<open>dockerconfigjson\<close> holds in its auth field.
\<close>

definition b64_alphabet :: string where
  "b64_alphabet = ''ABCDEFGHIJKLMNOPQRSTUVWXYZabcdefghijklmnopqrstuvwxyz0123456789+/''"

fun char_index :: "char \<Rightarrow> string \<Rightarrow> nat option" where
  "char_index c [] = None"
| "char_index c (x # xs) = (if x = c then Some 0 else map_option Suc (char_index c xs))"

definition b64_value :: "char \<Rightarrow> nat option" where
  "b64_value c = char_index c b64_alphabet"

definition b64_newline :: "char \<Rightarrow> bool" where
  "b64_newline c \<longleftrightarrow> c = CHR 0x0A \<or> c = CHR 0x0D"

definition CorruptInputError :: "nat \<Rightarrow> err" where
  "CorruptInputError n = errorf (''illegal base64 data at input byte '' @ fmt_nat n)"

text \<open>The bytes of a quantum of two, three or four values.\<close>

fun b64_quantum :: "nat list \<Rightarrow> string" where
  "b64_quantum [a, b] = [char_of (a * 4 + b div 16)]"
| "b64_quantum [a, b, c] = [char_of (a * 4 + b div 16), char_of (b mod 16 * 16 + c div 4)]"
| "b64_quantum [a, b, c, d] =
     [char_of (a * 4 + b div 16), char_of (b mod 16 * 16 + c div 4), char_of (c mod 4 * 64 + d)]"
| "b64_quantum _ = []"

text \<open>After the padding only line breaks may follow.\<close>

definition b64_finish :: "string \<Rightarrow> nat \<Rightarrow> nat list \<Rightarrow> string \<Rightarrow> string result" where
  "b64_finish cs si dbuf out =
     (let rest = dropWhile b64_newline cs
      in if rest \<noteq> [] then Inl (CorruptInputError (si + (length cs - length rest)))
         else Inr (out @ b64_quantum dbuf))"

fun b64_decode :: "string \<Rightarrow> nat \<Rightarrow> nat list \<Rightarrow> string \<Rightarrow> string result" where
  "b64_decode [] si dbuf out =
     (if dbuf = [] then Inr out else Inl (CorruptInputError (si - length dbuf)))"
| "b64_decode (c # cs) si dbuf out =
     (case b64_value c of
        Some v \<Rightarrow>
          (if length dbuf = 3 then b64_decode cs (Suc si) [] (out @ b64_quantum (dbuf @ [v]))
           else b64_decode cs (Suc si) (dbuf @ [v]) out)
      | None \<Rightarrow>
          if b64_newline c then b64_decode cs (Suc si) dbuf out
          else if c \<noteq> CHR ''='' then Inl (CorruptInputError si)
          else if length dbuf \<le> 1 then Inl (CorruptInputError si)
          else if length dbuf = 2 then
            (let rest = dropWhile b64_newline cs; si' = Suc si + (length cs - length rest)
             in case rest of
                  [] \<Rightarrow> Inl (CorruptInputError si')
                | p # cs' \<Rightarrow>
                    if p \<noteq> CHR ''='' then Inl (CorruptInputError (si' - 1))
                    else b64_finish cs' (Suc si') dbuf out)
          else b64_finish cs (Suc si) dbuf out)"

definition DecodeString :: "string \<Rightarrow> string result" where
  "DecodeString s = b64_decode s 0 [] []"

section \<open>The encoder as specification\<close>

definition b64_char :: "nat \<Rightarrow> char" where
  "b64_char v = b64_alphabet ! v"

fun EncodeToString :: "string \<Rightarrow> string" where
  "EncodeToString [] = []"
| "EncodeToString [x] =
     (let a = of_char x :: nat in [b64_char (a div 4), b64_char (a mod 4 * 16), CHR ''='', CHR ''='']) "
| "EncodeToString [x, y] =
     (let a = of_char x :: nat; b = of_char y :: nat
      in [b64_char (a div 4), b64_char (a mod 4 * 16 + b div 16), b64_char (b mod 16 * 4), CHR ''=''])"
| "EncodeToString (x # y # z # rest) =
     (let a = of_char x :: nat; b = of_char y :: nat; c = of_char z :: nat
      in [b64_char (a div 4), b64_char (a mod 4 * 16 + b div 16), b64_char (b mod 16 * 4 + c div 64), b64_char (c mod 64)]
         @ EncodeToString rest)"

lemma b64_value_char_all: "\<forall>v < 64. b64_value (b64_char v) = Some v"
proof -
  have "list_all (\<lambda>v. b64_value (b64_char v) = Some v) [0..<64]" by code_simp
  then show ?thesis by (simp add: list_all_iff)
qed

lemma b64_value_char [simp]: "v < 64 \<Longrightarrow> b64_value (b64_char v) = Some v"
  using b64_value_char_all by blast

lemma b64_value_pad [simp]: "b64_value (CHR ''='') = None" "\<not> b64_newline (CHR ''='')"
  by (code_simp, simp add: b64_newline_def)

lemma of_char_lt: "(of_char c :: nat) < 256"
  by (metis nat_of_char_less_256)

lemma quantum_bounds:
  fixes a b c :: nat
  assumes "a < 256" "b < 256" "c < 256"
  shows "a div 4 < 64" "a mod 4 * 16 < 64" "a mod 4 * 16 + b div 16 < 64" "b mod 16 * 4 < 64"
    "b mod 16 * 4 + c div 64 < 64" "c mod 64 < 64"
proof -
  show "a mod 4 * 16 + b div 16 < 64"
    using assms by (auto simp: div_less_iff_less_mult intro: add_le_less_mono[of "a mod 4 * 16" 48, simplified])
qed (use assms in \<open>auto\<close>)

lemma join_digits: "(k :: nat) < n \<Longrightarrow> (m * n + k) div n = m" "k < n \<Longrightarrow> (m * n + k) mod n = k"
  by simp_all

lemma quantum_values:
  fixes a b c :: nat
  assumes "a < 256" "b < 256" "c < 256"
  shows "a div 4 * 4 + (a mod 4 * 16 + b div 16) div 16 = a"
    "(a mod 4 * 16 + b div 16) mod 16 * 16 + (b mod 16 * 4 + c div 64) div 4 = b"
    "(b mod 16 * 4 + c div 64) mod 4 * 64 + c mod 64 = c"
proof -
  have "b div 16 < 16" "c div 64 < 4" using assms by (simp_all add: div_less_iff_less_mult)
  note j = join_digits[OF this(1), of "a mod 4"] join_digits[OF this(2), of "b mod 16"]
  show "a div 4 * 4 + (a mod 4 * 16 + b div 16) div 16 = a"
    "(a mod 4 * 16 + b div 16) mod 16 * 16 + (b mod 16 * 4 + c div 64) div 4 = b"
    "(b mod 16 * 4 + c div 64) mod 4 * 64 + c mod 64 = c"
    using j by simp_all
qed

lemma b64_decode_encode: "b64_decode (EncodeToString s) si [] out = Inr (out @ s)"
proof (induction s arbitrary: si out rule: EncodeToString.induct)
  case (2 x)
  note lt = of_char_lt[of x]
  show ?case
    using quantum_bounds[OF lt lt lt] quantum_values[OF lt, of 0 0]
    by (simp add: Let_def b64_finish_def)
next
  case (3 x y)
  note lt = of_char_lt[of x] of_char_lt[of y]
  show ?case
    using quantum_bounds[OF lt lt(2)] quantum_values[OF lt, of 0]
    by (simp add: Let_def b64_finish_def)
next
  case (4 x y z rest)
  note lt = of_char_lt[of x] of_char_lt[of y] of_char_lt[of z]
  show ?case
    using quantum_bounds[OF lt] quantum_values[OF lt] "4.IH"
    by (simp add: Let_def)
qed simp

lemma DecodeString_EncodeToString: "DecodeString (EncodeToString s) = Inr s"
  by (simp add: DecodeString_def b64_decode_encode)

lemma b64_char_ascii: "v < 64 \<Longrightarrow> (of_char (b64_char v) :: nat) < 128"
proof -
  assume "v < 64"
  moreover have "length b64_alphabet = 64" by (simp add: b64_alphabet_def)
  ultimately have "b64_char v \<in> set b64_alphabet" by (simp add: b64_char_def)
  moreover have "list_all (\<lambda>c. (of_char c :: nat) < 128) b64_alphabet" by (simp add: b64_alphabet_def)
  ultimately show ?thesis by (auto simp only: list_all_iff)
qed

lemma EncodeToString_ascii: "list_all (\<lambda>c. (of_char c :: nat) < 128) (EncodeToString s)"
proof (induction s rule: EncodeToString.induct)
  case (4 x y z rest)
  note lt = of_char_lt[of x] of_char_lt[of y] of_char_lt[of z]
  show ?case using quantum_bounds[OF lt] "4.IH" by (simp add: Let_def b64_char_ascii)
next
  case (3 x y)
  note lt = of_char_lt[of x] of_char_lt[of y]
  show ?case using quantum_bounds[OF lt lt(2)] by (simp add: Let_def b64_char_ascii)
next
  case (2 x)
  note lt = of_char_lt[of x]
  show ?case using quantum_bounds[OF lt lt lt] by (simp add: Let_def b64_char_ascii)
qed simp

end
