(* ===== verification/Agent_Store.thy ===== *)
theory Agent_Store
  imports Tote_Prelude "HOL-Library.AList"
begin

text \<open>
  \<open>internal/agent/containerd.go\<close> and \<open>internal/agent/fake.go\<close>: the image store of a node. The Go
  interface \<open>ImageStore\<close> is a record of methods over the store's state; every method returns its
  result and the new state. \<open>FakeImageStore\<close>, \<open>FailingImageStore\<close> and \<open>ContainerdStore\<close> are its three
  implementations; the last one takes the containerd client, which is not part of the repository,
  as an argument. An \<open>io.Writer\<close> is the list of writes made to it, an \<open>io.Reader\<close> the bytes up to the
  end of the stream together with whether the reader was read to that end. The interface
  \<open>image_store\<close> states what the agent server relies on and is interpreted on the fake store and on
  the failing store; the containerd store satisfies it under the named hypothesis \<open>containerd_ok\<close>.
\<close>

type_synonym bytes = string

section \<open>The ImageStore interface\<close>

record 'i ImageStore =
  st_List :: "'i \<Rightarrow> string list result \<times> 'i"
  st_Has :: "string \<Rightarrow> 'i \<Rightarrow> bool result \<times> 'i"
  st_Size :: "string \<Rightarrow> 'i \<Rightarrow> int result \<times> 'i"
  st_ResolveTag :: "string \<Rightarrow> 'i \<Rightarrow> string result \<times> 'i"
  st_Export :: "string \<Rightarrow> 'i \<Rightarrow> (bytes list \<times> unit result) \<times> 'i"
  st_Import :: "bytes \<Rightarrow> 'i \<Rightarrow> (string result \<times> bool) \<times> 'i"
  st_Remove :: "string \<Rightarrow> 'i \<Rightarrow> unit result \<times> 'i"

section \<open>FakeImageStore\<close>

record FakeImageStore =
  fk_images :: "(string \<times> bytes) list"
  fk_tags :: "string \<rightharpoonup> string"

text \<open>The Go map \<open>images\<close> is ranged over by \<open>List\<close> in an unspecified order, so it is a list of
  key-value pairs; assignment replaces the pair of the key, \<open>delete\<close> removes it.\<close>

definition map_set :: "'k \<Rightarrow> 'v \<Rightarrow> ('k \<times> 'v) list \<Rightarrow> ('k \<times> 'v) list" where
  "map_set k v m = filter (\<lambda>kv. fst kv \<noteq> k) m @ [(k, v)]"

definition map_del :: "'k \<Rightarrow> ('k \<times> 'v) list \<Rightarrow> ('k \<times> 'v) list" where
  "map_del k m = filter (\<lambda>kv. fst kv \<noteq> k) m"

definition NewFakeImageStore :: FakeImageStore where
  "NewFakeImageStore = \<lparr>fk_images = [], fk_tags = Map.empty\<rparr>"

definition AddImage :: "string \<Rightarrow> bytes \<Rightarrow> FakeImageStore \<Rightarrow> FakeImageStore" where
  "AddImage digest data f = f\<lparr>fk_images := map_set digest data (fk_images f)\<rparr>"

definition AddTag :: "string \<Rightarrow> string \<Rightarrow> FakeImageStore \<Rightarrow> FakeImageStore" where
  "AddTag imageRef digest f = f\<lparr>fk_tags := (fk_tags f)(imageRef \<mapsto> digest)\<rparr>"

definition fake_List :: "FakeImageStore \<Rightarrow> string list result \<times> FakeImageStore" where
  "fake_List f = (Inr (map fst (fk_images f)), f)"

definition fake_Has :: "string \<Rightarrow> FakeImageStore \<Rightarrow> bool result \<times> FakeImageStore" where
  "fake_Has digest f = (Inr (map_of (fk_images f) digest \<noteq> None), f)"

definition fake_Size :: "string \<Rightarrow> FakeImageStore \<Rightarrow> int result \<times> FakeImageStore" where
  "fake_Size digest f =
     (case map_of (fk_images f) digest of
        None \<Rightarrow> (Inl (errorf (''image '' @ digest @ '' not found'')), f)
      | Some data \<Rightarrow> (Inr (int (length data)), f))"

definition fake_ResolveTag :: "string \<Rightarrow> FakeImageStore \<Rightarrow> string result \<times> FakeImageStore" where
  "fake_ResolveTag imageRef f =
     (case fk_tags f imageRef of None \<Rightarrow> (Inr '''', f) | Some d \<Rightarrow> (Inr d, f))"

definition fake_Remove :: "string \<Rightarrow> FakeImageStore \<Rightarrow> unit result \<times> FakeImageStore" where
  "fake_Remove imageRef f =
     (if fk_tags f imageRef \<noteq> None then (Inr (), f\<lparr>fk_tags := (fk_tags f)(imageRef := None)\<rparr>)
      else if map_of (fk_images f) imageRef \<noteq> None
           then (Inr (), f\<lparr>fk_images := map_del imageRef (fk_images f)\<rparr>)
      else (Inl (errorf (''image '' @ imageRef @ '' not found'')), f))"

definition fake_Export :: "string \<Rightarrow> FakeImageStore \<Rightarrow> (bytes list \<times> unit result) \<times> FakeImageStore" where
  "fake_Export digest f =
     (case map_of (fk_images f) digest of
        None \<Rightarrow> (([], Inl (errorf (''image '' @ digest @ '' not found''))), f)
      | Some data \<Rightarrow> (([data], Inr ()), f))"

definition fake_digest :: "bytes \<Rightarrow> string" where
  "fake_digest data = ''sha256:fake-'' @ fmt_nat (length data)"

definition fake_Import :: "bytes \<Rightarrow> FakeImageStore \<Rightarrow> (string result \<times> bool) \<times> FakeImageStore" where
  "fake_Import data f =
     (let digest = fake_digest data
      in ((Inr digest, True), f\<lparr>fk_images := map_set digest data (fk_images f)\<rparr>))"

definition FakeStore :: "FakeImageStore ImageStore" where
  "FakeStore = \<lparr>st_List = fake_List, st_Has = fake_Has, st_Size = fake_Size,
     st_ResolveTag = fake_ResolveTag, st_Export = fake_Export, st_Import = fake_Import,
     st_Remove = fake_Remove\<rparr>"

section \<open>FailingImageStore\<close>

text \<open>The state is the error every method returns.\<close>

definition FailingStore :: "err ImageStore" where
  "FailingStore = \<lparr>st_List = (\<lambda>e. (Inl e, e)), st_Has = (\<lambda>_ e. (Inl e, e)),
     st_Size = (\<lambda>_ e. (Inl e, e)), st_ResolveTag = (\<lambda>_ e. (Inl e, e)),
     st_Export = (\<lambda>_ e. (([], Inl e), e)), st_Import = (\<lambda>_ e. ((Inl e, False), e)),
     st_Remove = (\<lambda>_ e. (Inl e, e))\<rparr>"

section \<open>ContainerdStore\<close>

record ctr_image =
  ci_Name :: string
  ci_Digest :: string
  ci_Labels :: "string \<rightharpoonup> string"

record manifest_desc =
  md_Digest :: string
  md_Annotations :: "string \<rightharpoonup> string"

text \<open>The calls on the containerd client: the image service, the content store and the archive
  package, and JSON decoding of an OCI index.\<close>

record 'i containerd =
  cd_List :: "string list \<Rightarrow> 'i \<Rightarrow> ctr_image list result \<times> 'i"
  cd_Create :: "ctr_image \<Rightarrow> 'i \<Rightarrow> unit result \<times> 'i"
  cd_Delete :: "string \<Rightarrow> 'i \<Rightarrow> unit result \<times> 'i"
  cd_ImageSize :: "ctr_image \<Rightarrow> 'i \<Rightarrow> int result \<times> 'i"
  cd_ArchiveExport :: "string \<Rightarrow> 'i \<Rightarrow> (bytes list \<times> unit result) \<times> 'i"
  cd_ImportIndex :: "bytes \<Rightarrow> 'i \<Rightarrow> (string result \<times> bool) \<times> 'i"
  cd_ReadBlob :: "string \<Rightarrow> 'i \<Rightarrow> bytes result \<times> 'i"
  cd_UnmarshalIndex :: "bytes \<Rightarrow> manifest_desc list result"

definition AnnotationImageName :: string where
  "AnnotationImageName = ''io.containerd.image.name''"

definition AnnotationRefName :: string where
  "AnnotationRefName = ''org.opencontainers.image.ref.name''"

fun dedup :: "string list \<Rightarrow> (string \<Rightarrow> bool) \<Rightarrow> string list \<Rightarrow> string list" where
  "dedup [] seen digests = digests"
| "dedup (d # ds) seen digests =
     (if \<not> seen d then dedup ds (seen(d := True)) (digests @ [d]) else dedup ds seen digests)"

definition ctr_List :: "'i containerd \<Rightarrow> 'i \<Rightarrow> string list result \<times> 'i" where
  "ctr_List c s =
     (case cd_List c [] s of
        (Inl e, s') \<Rightarrow> (Inl e, s')
      | (Inr imgs, s') \<Rightarrow> (Inr (dedup (map ci_Digest imgs) (\<lambda>_. False) []), s'))"

definition ctr_ResolveTag :: "'i containerd \<Rightarrow> string \<Rightarrow> 'i \<Rightarrow> string result \<times> 'i" where
  "ctr_ResolveTag c imageRef s =
     (case cd_List c [''name=='' @ imageRef] s of
        (Inl e, s') \<Rightarrow> (Inl e, s')
      | (Inr [], s') \<Rightarrow> (Inr '''', s')
      | (Inr (i # _), s') \<Rightarrow> (Inr (ci_Digest i), s'))"

definition ctr_Has :: "'i containerd \<Rightarrow> string \<Rightarrow> 'i \<Rightarrow> bool result \<times> 'i" where
  "ctr_Has c digest s =
     (case cd_List c [''target.digest=='' @ digest] s of
        (Inl e, s') \<Rightarrow> (Inl e, s')
      | (Inr imgs, s') \<Rightarrow> (Inr (length imgs > 0), s'))"

definition errImageNotFound :: "string \<Rightarrow> err" where
  "errImageNotFound digest = wrapf (''image '' @ digest) (Err KNotFound ''not found'')"

definition ctr_Size :: "'i containerd \<Rightarrow> string \<Rightarrow> 'i \<Rightarrow> int result \<times> 'i" where
  "ctr_Size c digest s =
     (case cd_List c [''target.digest=='' @ digest] s of
        (Inl e, s') \<Rightarrow> (Inl e, s')
      | (Inr [], s') \<Rightarrow> (Inl (errImageNotFound digest), s')
      | (Inr (i # _), s') \<Rightarrow> cd_ImageSize c i s')"

definition ctr_Remove :: "'i containerd \<Rightarrow> string \<Rightarrow> 'i \<Rightarrow> unit result \<times> 'i" where
  "ctr_Remove c imageRef s = cd_Delete c imageRef s"

definition ctr_Export :: "'i containerd \<Rightarrow> string \<Rightarrow> 'i \<Rightarrow> (bytes list \<times> unit result) \<times> 'i" where
  "ctr_Export c digest s =
     (case cd_List c [''target.digest=='' @ digest] s of
        (Inl e, s') \<Rightarrow> (([], Inl e), s')
      | (Inr [], s') \<Rightarrow> (([], Inl (errImageNotFound digest)), s')
      | (Inr (i # _), s') \<Rightarrow> cd_ArchiveExport c (ci_Name i) s')"

definition manifestName :: "manifest_desc \<Rightarrow> string" where
  "manifestName m =
     (let n1 = go_lookup (md_Annotations m) AnnotationImageName;
          n2 = (if n1 = '''' then go_lookup (md_Annotations m) AnnotationRefName else n1)
      in if n2 = '''' then md_Digest m else n2)"

fun createRecords :: "'i containerd \<Rightarrow> manifest_desc list \<Rightarrow> string \<Rightarrow> 'i \<Rightarrow> string result \<times> 'i" where
  "createRecords c [] lastDigest s = (Inr lastDigest, s)"
| "createRecords c (m # ms) lastDigest s =
     (case cd_Create c \<lparr>ci_Name = manifestName m, ci_Digest = md_Digest m,
                        ci_Labels = [''io.cri-containerd.image'' \<mapsto> ''managed'']\<rparr> s of
        (Inl e, s') \<Rightarrow>
          (if ekind e \<noteq> KAlreadyExists then (Inl (wrapf ''creating image record'' e), s')
           else createRecords c ms (md_Digest m) s')
      | (Inr _, s') \<Rightarrow> createRecords c ms (md_Digest m) s')"

definition ctr_Import :: "'i containerd \<Rightarrow> bytes \<Rightarrow> 'i \<Rightarrow> (string result \<times> bool) \<times> 'i" where
  "ctr_Import c r s =
     (case cd_ImportIndex c r s of
        ((Inl e, eof), s1) \<Rightarrow> ((Inl (wrapf ''importing archive'' e), eof), s1)
      | ((Inr desc, eof), s1) \<Rightarrow>
          (case cd_ReadBlob c desc s1 of
             (Inl e, s2) \<Rightarrow> ((Inl (wrapf ''reading imported index'' e), eof), s2)
           | (Inr indexData, s2) \<Rightarrow>
               (case cd_UnmarshalIndex c indexData of
                  Inl e \<Rightarrow> ((Inl (wrapf ''parsing imported index'' e), eof), s2)
                | Inr [] \<Rightarrow> ((Inl (wrapf ''no manifests in imported archive'' (Err KNotFound ''not found'')), eof), s2)
                | Inr ms \<Rightarrow> (case createRecords c ms '''' s2 of (r, s3) \<Rightarrow> ((r, eof), s3)))))"

definition ContainerdStore :: "'i containerd \<Rightarrow> 'i ImageStore" where
  "ContainerdStore c = \<lparr>st_List = ctr_List c, st_Has = ctr_Has c, st_Size = ctr_Size c,
     st_ResolveTag = ctr_ResolveTag c, st_Export = ctr_Export c, st_Import = ctr_Import c,
     st_Remove = ctr_Remove c\<rparr>"

section \<open>The interface\<close>

text \<open>
  \<open>holds s\<close> are the digests the store has in state \<open>s\<close>. Asking does not change them and is answered
  truthfully; what is sized or exported is held; an import loses nothing. A store that also holds
  the digest its import returns is an \<open>image_store\<close>.
\<close>

locale image_reader =
  fixes ims :: "'i ImageStore"
    and holds :: "'i \<Rightarrow> string set"
  assumes has_sound: "st_Has ims d s = (Inr b, s') \<Longrightarrow> (b \<longleftrightarrow> d \<in> holds s) \<and> holds s' = holds s"
    and size_sound: "st_Size ims d s = (Inr n, s') \<Longrightarrow> d \<in> holds s"
    and export_sound: "st_Export ims d s = ((ws, Inr u), s') \<Longrightarrow> d \<in> holds s"
    and list_sound: "st_List ims s = (Inr ds, s') \<Longrightarrow> set ds = holds s"
    and import_keeps: "st_Import ims data s = (r, s') \<Longrightarrow> holds s \<subseteq> holds s'"
begin

lemma listed_iff_has:
  assumes "st_List ims s = (Inr ds, s')" and "st_Has ims d s = (Inr b, s'')"
  shows "d \<in> set ds \<longleftrightarrow> b"
  using list_sound[OF assms(1)] has_sound[OF assms(2)] by simp

lemma has_stable:
  assumes "st_Has ims d s = (Inr True, s1)" and "st_Import ims data s1 = (r, s2)"
    and "st_Has ims d s2 = (Inr b, s3)"
  shows b
  using has_sound[OF assms(1)] import_keeps[OF assms(2)] has_sound[OF assms(3)] by blast

end

locale image_store = image_reader +
  assumes import_adds: "st_Import ims data s = ((Inr d, eof), s') \<Longrightarrow> d \<in> holds s'"
begin

lemma has_after_import:
  assumes "st_Import ims data s = ((Inr d, eof), s')" and "st_Has ims d s' = (Inr b, s'')"
  shows b
  using has_sound[OF assms(2)] import_adds[OF assms(1)] by simp

end

section \<open>The fake and the failing store implement the interface\<close>

definition fake_holds :: "FakeImageStore \<Rightarrow> string set" where
  "fake_holds f = dom (map_of (fk_images f))"

lemma map_of_not_None: "map_of m k \<noteq> None \<longleftrightarrow> k \<in> fst ` set m"
  by (simp add: map_of_eq_None_iff)

lemma map_of_filter_key: "map_of (filter (\<lambda>kv. fst kv \<noteq> k) m) = (map_of m)(k := None)"
  by (induction m) (auto simp: fun_eq_iff)

lemma map_of_map_set [simp]: "map_of (map_set k v m) = (map_of m)(k \<mapsto> v)"
  by (simp add: map_set_def map_of_filter_key map_add_def fun_eq_iff split: option.splits)

lemma map_of_map_del [simp]: "map_of (map_del k m) = (map_of m)(k := None)"
  by (simp add: map_del_def map_of_filter_key)

lemma fst_map_set [simp]: "fst ` set (map_set k v m) = insert k (fst ` set m)"
  by (auto simp: map_set_def image_iff)

lemmas fake_defs = fake_List_def fake_Has_def fake_Size_def fake_ResolveTag_def fake_Remove_def
  fake_Export_def fake_Import_def FakeStore_def

interpretation fake: image_store FakeStore fake_holds
  by unfold_locales
     (auto simp: fake_defs fake_holds_def dom_map_of_conv_image_fst[symmetric] Let_def split: option.splits)

interpretation failing: image_store FailingStore "\<lambda>_. {}"
  by unfold_locales (auto simp: FailingStore_def)

section \<open>The containerd store\<close>

text \<open>
  What containerd documents of the calls used: image records are a table from names to target
  digests; listing reads it, by digest or whole; \<open>Create\<close> adds a record under a fresh name and
  reports AlreadyExists, changing nothing, when the name is taken; importing and reading content
  touches no records.
\<close>

definition containerd_ok :: "'i containerd \<Rightarrow> ('i \<Rightarrow> string \<rightharpoonup> string) \<Rightarrow> bool" where
  "containerd_ok c imgs \<longleftrightarrow>
     (\<forall>fs s r s'. cd_List c fs s = (r, s') \<longrightarrow> imgs s' = imgs s) \<and>
     (\<forall>s is s'. cd_List c [] s = (Inr is, s') \<longrightarrow> ci_Digest ` set is = ran (imgs s)) \<and>
     (\<forall>d s is s'. cd_List c [''target.digest=='' @ d] s = (Inr is, s') \<longrightarrow> (is \<noteq> [] \<longleftrightarrow> d \<in> ran (imgs s))) \<and>
     (\<forall>i s u s'. cd_Create c i s = (Inr u, s') \<longrightarrow>
        imgs s (ci_Name i) = None \<and> imgs s' = (imgs s)(ci_Name i \<mapsto> ci_Digest i)) \<and>
     (\<forall>i s e s'. cd_Create c i s = (Inl e, s') \<longrightarrow>
        imgs s' = imgs s \<and> (ekind e = KAlreadyExists \<longrightarrow> imgs s (ci_Name i) \<noteq> None)) \<and>
     (\<forall>r s x s'. cd_ImportIndex c r s = (x, s') \<longrightarrow> imgs s' = imgs s) \<and>
     (\<forall>b s x s'. cd_ReadBlob c b s = (x, s') \<longrightarrow> imgs s' = imgs s)"

lemmas containerd_okD =
  containerd_ok_def[THEN iffD1, THEN conjunct1, rule_format]
  containerd_ok_def[THEN iffD1, THEN conjunct2, THEN conjunct1, rule_format]
  containerd_ok_def[THEN iffD1, THEN conjunct2, THEN conjunct2, THEN conjunct1, rule_format]
  containerd_ok_def[THEN iffD1, THEN conjunct2, THEN conjunct2, THEN conjunct2, THEN conjunct1, rule_format]
  containerd_ok_def[THEN iffD1, THEN conjunct2, THEN conjunct2, THEN conjunct2, THEN conjunct2, THEN conjunct1, rule_format]
  containerd_ok_def[THEN iffD1, THEN conjunct2, THEN conjunct2, THEN conjunct2, THEN conjunct2, THEN conjunct2, THEN conjunct1, rule_format]
  containerd_ok_def[THEN iffD1, THEN conjunct2, THEN conjunct2, THEN conjunct2, THEN conjunct2, THEN conjunct2, THEN conjunct2, rule_format]

lemma dedup_set: "set (dedup ds seen acc) = set acc \<union> {d \<in> set ds. \<not> seen d}"
proof (induction ds arbitrary: seen acc)
  case (Cons d ds)
  show ?case by (cases "seen d") (auto simp add: Cons.IH simp del: fun_upd_apply simp: fun_upd_def)
qed simp

lemma dedup_distinct: "distinct acc \<Longrightarrow> (\<And>d. d \<in> set acc \<Longrightarrow> seen d) \<Longrightarrow> distinct (dedup ds seen acc)"
proof (induction ds arbitrary: seen acc)
  case (Cons d ds)
  show ?case
  proof (cases "seen d")
    case False
    have "distinct (dedup ds (seen(d := True)) (acc @ [d]))"
      by (rule Cons.IH) (use Cons.prems False in auto)
    with False show ?thesis by simp
  qed (use Cons in simp)
qed simp
text \<open>Creating the records of an import adds records only. When no manifest's name is taken by another
  digest, all manifests are on record afterwards.\<close>

abbreviation manifest_record :: "manifest_desc \<Rightarrow> ctr_image" where
  "manifest_record m \<equiv> \<lparr>ci_Name = manifestName m, ci_Digest = md_Digest m,
     ci_Labels = [''io.cri-containerd.image'' \<mapsto> ''managed'']\<rparr>"

lemma cd_Create_le:
  "containerd_ok c imgs \<Longrightarrow> cd_Create c i s = (r, s') \<Longrightarrow> imgs s \<subseteq>\<^sub>m imgs s'"
  by (cases r) (fastforce simp: map_le_def dest: containerd_okD(4,5))+

lemma createRecords_le:
  assumes ok: "containerd_ok c imgs"
  shows "createRecords c ms lst s = (r, s') \<Longrightarrow> imgs s \<subseteq>\<^sub>m imgs s'"
proof (induction ms arbitrary: lst s)
  case (Cons m ms)
  obtain q s1 where q: "cd_Create c (manifest_record m) s = (q, s1)" by fastforce
  have "s' = s1 \<or> createRecords c ms (md_Digest m) s1 = (r, s')"
    using Cons.prems q by (auto split: sum.splits if_splits)
  then show ?case
    using cd_Create_le[OF ok q] Cons.IH by (auto intro: map_le_trans)
qed simp

lemma createRecords_result:
  "createRecords c ms lst s = (Inr d, s') \<Longrightarrow> d = (if ms = [] then lst else md_Digest (last ms))"
  by (induction ms arbitrary: lst s) (auto split: prod.splits sum.splits if_splits)

definition no_clash :: "(string \<rightharpoonup> string) \<Rightarrow> manifest_desc list \<Rightarrow> bool" where
  "no_clash im ms \<longleftrightarrow>
     (\<forall>m \<in> set ms. im (manifestName m) = None \<or> im (manifestName m) = Some (md_Digest m)) \<and>
     (\<forall>m \<in> set ms. \<forall>m' \<in> set ms. manifestName m = manifestName m' \<longrightarrow> md_Digest m = md_Digest m')"

lemma no_clash_Cons:
  assumes "no_clash im (m # ms)"
  shows "no_clash im ms" "no_clash (im(manifestName m \<mapsto> md_Digest m)) ms"
proof -
  show "no_clash im ms" using assms unfolding no_clash_def list.set by blast
  have old: "\<And>x. x \<in> set ms \<Longrightarrow> im (manifestName x) = None \<or> im (manifestName x) = Some (md_Digest x)"
    and same: "\<And>x. x \<in> set ms \<Longrightarrow> manifestName m = manifestName x \<Longrightarrow> md_Digest m = md_Digest x"
    and rest: "\<forall>x \<in> set ms. \<forall>y \<in> set ms. manifestName x = manifestName y \<longrightarrow> md_Digest x = md_Digest y"
    using assms unfolding no_clash_def list.set by blast+
  have "(im(manifestName m \<mapsto> md_Digest m)) (manifestName x) = None \<or>
        (im(manifestName m \<mapsto> md_Digest m)) (manifestName x) = Some (md_Digest x)" if "x \<in> set ms" for x
    using old[OF that] same[OF that] by (cases "manifestName x = manifestName m") simp_all
  with rest show "no_clash (im(manifestName m \<mapsto> md_Digest m)) ms"
    unfolding no_clash_def by blast
qed

lemma createRecords_no_clash:
  assumes ok: "containerd_ok c imgs"
  shows "no_clash (imgs s) ms \<Longrightarrow> createRecords c ms lst s = (Inr d, s') \<Longrightarrow>
     \<forall>m \<in> set ms. imgs s' (manifestName m) = Some (md_Digest m)"
proof (induction ms arbitrary: lst s)
  case (Cons m ms)
  obtain q s1 where q: "cd_Create c (manifest_record m) s = (q, s1)" by fastforce
  have rest: "createRecords c ms (md_Digest m) s1 = (Inr d, s')"
    and exists: "\<And>e. q = Inl e \<Longrightarrow> ekind e = KAlreadyExists"
    using Cons.prems(2) q by (auto split: sum.splits if_splits)
  have im: "imgs s (manifestName m) = None \<or> imgs s (manifestName m) = Some (md_Digest m)"
    using Cons.prems(1) unfolding no_clash_def list.set by blast
  have "imgs s1 (manifestName m) = Some (md_Digest m) \<and>
      (imgs s1 = imgs s \<or> imgs s1 = (imgs s)(manifestName m \<mapsto> md_Digest m))"
  proof (cases q)
    case (Inl e)
    then show ?thesis using containerd_okD(5)[OF ok] q exists im by fastforce
  next
    case (Inr u)
    then show ?thesis using containerd_okD(4)[OF ok, of "manifest_record m"] q by fastforce
  qed
  then have m: "imgs s1 (manifestName m) = Some (md_Digest m)"
    and s1: "imgs s1 = imgs s \<or> imgs s1 = (imgs s)(manifestName m \<mapsto> md_Digest m)" by blast+
  have "no_clash (imgs s1) ms" using s1 no_clash_Cons[OF Cons.prems(1)] by auto
  with Cons.IH rest have "\<forall>m \<in> set ms. imgs s' (manifestName m) = Some (md_Digest m)" by blast
  moreover have "imgs s' (manifestName m) = Some (md_Digest m)"
    using createRecords_le[OF ok rest] m by (auto simp: map_le_def dom_def)
  ultimately show ?case by simp
qed simp

lemma ctr_Import_le:
  assumes ok: "containerd_ok c imgs" and imp: "ctr_Import c b s = (r, s')"
  shows "imgs s \<subseteq>\<^sub>m imgs s'"
proof -
  obtain x eof s1 where 1: "cd_ImportIndex c b s = ((x, eof), s1)" by (metis surj_pair)
  obtain y s2 where 2: "cd_ReadBlob c (projr x) s1 = (y, s2)" by fastforce
  have "imgs s1 = imgs s" "imgs s2 = imgs s"
    using containerd_okD(6,7)[OF ok] 1 2 by simp_all
  then show ?thesis
    using imp 1 2 createRecords_le[OF ok, of _ _ s2 _ s']
    by (cases x; cases y) (auto simp: ctr_Import_def simp del: createRecords.simps split: sum.splits list.splits prod.splits)
qed

lemma ran_map_le: "m \<subseteq>\<^sub>m m' \<Longrightarrow> ran m \<subseteq> ran m'"
  unfolding map_le_def ran_def by force

text \<open>Apart from imports under a taken name, the containerd store is a truthful image store.\<close>

lemma containerd_reader:
  assumes ok: "containerd_ok c imgs"
  shows "image_reader (ContainerdStore c) (\<lambda>s. ran (imgs s))"
proof
  fix d s b s' assume "st_Has (ContainerdStore c) d s = (Inr b, s')"
  then show "(b \<longleftrightarrow> d \<in> ran (imgs s)) \<and> ran (imgs s') = ran (imgs s)"
    using containerd_okD(1,3)[OF ok]
    by (auto simp: ContainerdStore_def ctr_Has_def split: prod.splits sum.splits)
next
  fix d s n s' assume "st_Size (ContainerdStore c) d s = (Inr n, s')"
  then show "d \<in> ran (imgs s)"
    using containerd_okD(3)[OF ok]
    by (fastforce simp: ContainerdStore_def ctr_Size_def split: prod.splits sum.splits list.splits)
next
  fix d s ws u s' assume "st_Export (ContainerdStore c) d s = ((ws, Inr u), s')"
  then show "d \<in> ran (imgs s)"
    using containerd_okD(3)[OF ok]
    by (fastforce simp: ContainerdStore_def ctr_Export_def split: prod.splits sum.splits list.splits)
next
  fix s ds s' assume "st_List (ContainerdStore c) s = (Inr ds, s')"
  then show "set ds = ran (imgs s)"
    using containerd_okD(2)[OF ok]
    by (auto simp: ContainerdStore_def ctr_List_def dedup_set split: prod.splits sum.splits)
next
  fix data s r s' assume "st_Import (ContainerdStore c) data s = (r, s')"
  then show "ran (imgs s) \<subseteq> ran (imgs s')"
    using ran_map_le[OF ctr_Import_le[OF ok]] by (simp add: ContainerdStore_def)
qed

text \<open>A containerd with its image records in an association list from names to digests, for the
  examples: it unpacks every archive to one and the same index.\<close>

definition table_List :: "string list \<Rightarrow> (string \<times> string) list \<Rightarrow> ctr_image list result \<times> (string \<times> string) list" where
  "table_List fs s =
     (Inr (map (\<lambda>(n, d). \<lparr>ci_Name = n, ci_Digest = d, ci_Labels = Map.empty\<rparr>)
        (filter (\<lambda>(n, d). list_all (\<lambda>f. f = ''target.digest=='' @ d \<or> f = ''name=='' @ n) fs) (AList.clearjunk s))), s)"

definition table_Create :: "ctr_image \<Rightarrow> (string \<times> string) list \<Rightarrow> unit result \<times> (string \<times> string) list" where
  "table_Create i s =
     (case map_of s (ci_Name i) of
        Some _ \<Rightarrow> (Inl (Err KAlreadyExists ''already exists''), s)
      | None \<Rightarrow> (Inr (), (ci_Name i, ci_Digest i) # s))"

definition table_containerd :: "manifest_desc list \<Rightarrow> (string \<times> string) list containerd" where
  "table_containerd ms = \<lparr>cd_List = table_List, cd_Create = table_Create,
     cd_Delete = (\<lambda>n s. (Inr (), AList.delete n s)), cd_ImageSize = (\<lambda>i s. (Inr 1, s)),
     cd_ArchiveExport = (\<lambda>n s. (([''tar''], Inr ()), s)), cd_ImportIndex = (\<lambda>b s. ((Inr ''index'', True), s)),
     cd_ReadBlob = (\<lambda>d s. (Inr ''json'', s)), cd_UnmarshalIndex = (\<lambda>b. Inr ms)\<rparr>"

lemma table_digests: "snd ` set (AList.clearjunk s) = ran (map_of s)"
  by (metis ran_clearjunk distinct_clearjunk ran_distinct map_of_clearjunk)

lemma table_containerd_ok: "containerd_ok (table_containerd ms) map_of"
  unfolding containerd_ok_def table_containerd_def
  by (auto simp: table_List_def table_Create_def table_digests[symmetric] filter_empty_conv
      image_image case_prod_unfold split: option.splits)

lemma ctr_Import_recorded:
  assumes ok: "containerd_ok c imgs" and imp: "ctr_Import c r s = ((Inr d, eof), s')"
  shows "\<exists>b ms. cd_UnmarshalIndex c b = Inr ms \<and> ms \<noteq> [] \<and> d = md_Digest (last ms) \<and> imgs s \<subseteq>\<^sub>m imgs s'
     \<and> (no_clash (imgs s) ms \<longrightarrow> (\<forall>m \<in> set ms. imgs s' (manifestName m) = Some (md_Digest m))
          \<and> (\<forall>x s''. ctr_Has c d s' = (Inr x, s'') \<longrightarrow> x))"
proof -
  from imp obtain desc s1 b s2 ms where 1: "cd_ImportIndex c r s = ((Inr desc, eof), s1)"
    and 2: "cd_ReadBlob c desc s1 = (Inr b, s2)" and 3: "cd_UnmarshalIndex c b = Inr ms" "ms \<noteq> []"
    and 4: "createRecords c ms '''' s2 = (Inr d, s')"
    by (auto simp: ctr_Import_def simp del: createRecords.simps split: sum.splits list.splits prod.splits)
  have s2: "imgs s2 = imgs s" using containerd_okD(6,7)[OF ok] 1 2 by simp
  have d: "d = md_Digest (last ms)" using createRecords_result[OF 4] 3(2) by simp
  have rec: "\<forall>m \<in> set ms. imgs s' (manifestName m) = Some (md_Digest m)" if "no_clash (imgs s) ms"
    using createRecords_no_clash[OF ok _ 4] that s2 by simp
  then have "d \<in> ran (imgs s')" if "no_clash (imgs s) ms"
    using that d 3(2) last_in_set[of ms] by (auto simp: ran_def)
  then have "x" if "no_clash (imgs s) ms" "ctr_Has c d s' = (Inr x, s'')" for x s''
    using image_reader.has_sound[OF containerd_reader[OF ok]] that by (fastforce simp: ContainerdStore_def)
  then show ?thesis using 3 d rec ctr_Import_le[OF ok imp] by blast
qed

section \<open>Properties\<close>

text \<open>Over a containerd that behaves as documented, a successful import loses no image record and
  returns the digest of the last manifest of the index; if none of the manifests' names was taken
  by another digest, every manifest is on record afterwards and \<open>Has\<close> confirms the digest.\<close>

theorem containerd_import_recorded:
  assumes "containerd_ok c imgs" and "ctr_Import c r s = ((Inr d, eof), s')"
  shows "\<exists>b ms. cd_UnmarshalIndex c b = Inr ms \<and> ms \<noteq> [] \<and> d = md_Digest (last ms) \<and> imgs s \<subseteq>\<^sub>m imgs s'
     \<and> (no_clash (imgs s) ms \<longrightarrow> (\<forall>m \<in> set ms. imgs s' (manifestName m) = Some (md_Digest m))
          \<and> (\<forall>x s''. ctr_Has c d s' = (Inr x, s'') \<longrightarrow> x))"
  by (rule ctr_Import_recorded[OF assms])

definition example_manifest :: manifest_desc where
  "example_manifest = \<lparr>md_Digest = ''sha256:new'', md_Annotations = [AnnotationImageName \<mapsto> ''app:v1'']\<rparr>"

lemma example_import:
  "ctr_Import (table_containerd [example_manifest]) ''tar'' [] =
     ((Inr ''sha256:new'', True), [(''app:v1'', ''sha256:new'')])"
  by (simp add: ctr_Import_def table_containerd_def table_Create_def manifestName_def example_manifest_def Let_def)

theorem containerd_import_recorded_witness:
  "\<exists>b ms. cd_UnmarshalIndex (table_containerd [example_manifest]) b = Inr ms \<and> ms \<noteq> []
     \<and> ''sha256:new'' = md_Digest (last ms) \<and> map_of [] \<subseteq>\<^sub>m map_of [(''app:v1'', ''sha256:new'')]
     \<and> (no_clash (map_of []) ms \<longrightarrow> (\<forall>m \<in> set ms. map_of [(''app:v1'', ''sha256:new'')] (manifestName m) = Some (md_Digest m))
          \<and> (\<forall>x s''. ctr_Has (table_containerd [example_manifest]) ''sha256:new'' [(''app:v1'', ''sha256:new'')] = (Inr x, s'') \<longrightarrow> x))"
  by (rule containerd_import_recorded[OF table_containerd_ok example_import])

text \<open>When the name of an imported image is already taken by another digest, the import still
  reports success with the new digest although no record of that digest was made: \<open>AlreadyExists\<close> is
  treated as done. A lookup by digest afterwards does not find the image.\<close>

theorem containerd_import_name_taken:
  "let c = table_containerd [example_manifest]; s = [(''app:v1'', ''sha256:old'')]
   in ctr_Import c ''tar'' s = ((Inr ''sha256:new'', True), s) \<and> ctr_Has c ''sha256:new'' s = (Inr False, s)"
  by (simp add: ctr_Import_def ctr_Has_def table_containerd_def table_Create_def table_List_def manifestName_def
      example_manifest_def Let_def)

text \<open>Listing a containerd store gives each digest on record once, and asks for a digest and for the
  listing agree.\<close>

theorem containerd_list_exact:
  assumes ok: "containerd_ok c imgs" and ls: "ctr_List c s = (Inr ds, s')"
    and has: "ctr_Has c d s = (Inr x, s'')"
  shows "distinct ds \<and> set ds = ran (imgs s) \<and> (x \<longleftrightarrow> d \<in> set ds)"
proof -
  have "distinct ds"
    using ls by (auto simp: ctr_List_def split: prod.splits sum.splits intro!: dedup_distinct)
  then show ?thesis
    using image_reader.list_sound[OF containerd_reader[OF ok]] image_reader.listed_iff_has[OF containerd_reader[OF ok]]
      ls has by (fastforce simp: ContainerdStore_def)
qed

theorem containerd_list_exact_witness:
  "distinct [''sha256:a''] \<and> set [''sha256:a''] = ran (map_of [(''x'', ''sha256:a''), (''y'', ''sha256:a'')])
     \<and> (True \<longleftrightarrow> ''sha256:a'' \<in> set [''sha256:a''])"
  by (rule containerd_list_exact[OF table_containerd_ok[of "[]"]])
     (simp_all add: ctr_List_def ctr_Has_def table_containerd_def table_List_def)

text \<open>What is imported into the fake store can be exported again unchanged under the digest the
  import returned, whose size is the number of bytes, and the other images stay as they were.\<close>

theorem fake_import_export:
  assumes "st_Import FakeStore data f = ((r, eof), f')"
  shows "\<exists>d. r = Inr d \<and> eof \<and> st_Export FakeStore d f' = (([data], Inr ()), f')
     \<and> st_Size FakeStore d f' = (Inr (int (length data)), f')
     \<and> (\<forall>d'. d' \<noteq> d \<longrightarrow> fst (st_Export FakeStore d' f') = fst (st_Export FakeStore d' f))"
  using assms by (auto simp: fake_defs Let_def split: option.splits)

theorem fake_import_export_witness:
  "\<exists>d. (Inr ''sha256:fake-3'' :: string result) = Inr d \<and> True
     \<and> st_Export FakeStore d (snd (st_Import FakeStore ''abc'' NewFakeImageStore))
        = (([''abc''], Inr ()), snd (st_Import FakeStore ''abc'' NewFakeImageStore))
     \<and> st_Size FakeStore d (snd (st_Import FakeStore ''abc'' NewFakeImageStore))
        = (Inr (int (length ''abc'')), snd (st_Import FakeStore ''abc'' NewFakeImageStore))
     \<and> (\<forall>d'. d' \<noteq> d \<longrightarrow> fst (st_Export FakeStore d' (snd (st_Import FakeStore ''abc'' NewFakeImageStore)))
          = fst (st_Export FakeStore d' NewFakeImageStore))"
proof (rule fake_import_export)
  show "st_Import FakeStore ''abc'' NewFakeImageStore
      = ((Inr ''sha256:fake-3'', True), snd (st_Import FakeStore ''abc'' NewFakeImageStore))"
    by (simp add: fake_defs fake_digest_def Let_def) code_simp
qed

end
