(* ===== verification/Config.thy ===== *)
theory Config
  imports Tote_Prelude
begin

text \<open>
  \<open>internal/config/config.go\<close>: the operator's configuration, the namespaces it never touches and the
  consistency check on the TLS flags. Durations are nanoseconds. \<open>DeniedNamespaces\<close> is a Go
  \<open>map[string]bool\<close>, of which only the lookup (false for a missing key) is used.
\<close>

definition AnnotationNamespaceAllow :: string where
  "AnnotationNamespaceAllow = ''tote.dev/allow''"

definition AnnotationPodAutoSalvage :: string where
  "AnnotationPodAutoSalvage = ''tote.dev/auto-salvage''"

definition DefaultContainerdSocket :: string where
  "DefaultContainerdSocket = ''/run/containerd/containerd.sock''"

definition DefaultAgentGRPCPort :: int where
  "DefaultAgentGRPCPort = 9090"

definition DefaultMaxConcurrentSalvages :: int where
  "DefaultMaxConcurrentSalvages = 2"

definition Second :: int where
  "Second = 1000000000"

definition Minute :: int where
  "Minute = 60 * Second"

definition DefaultSessionTTL :: int where
  "DefaultSessionTTL = 5 * Minute"

definition DefaultMaxImageSize :: int where
  "DefaultMaxImageSize = 2 * 1024 * 1024 * 1024"

definition DefaultRegistryResolveTimeout :: int where
  "DefaultRegistryResolveTimeout = 5 * Second"

definition DefaultDeniedNamespaces :: "string list" where
  "DefaultDeniedNamespaces = [''kube-system'', ''kube-public'', ''kube-node-lease'']"

record Config =
  Enabled :: bool
  DeniedNamespaces :: "string \<Rightarrow> bool"
  MaxConcurrentSalvages :: int
  cfg_SessionTTL :: int
  AgentNamespace :: string
  AgentGRPCPort :: int
  cfg_MaxImageSize :: int
  cfg_BackupRegistry :: string
  cfg_BackupRegistrySecret :: string
  cfg_BackupRegistryInsecure :: bool
  cfg_RegistryResolve :: bool
  cfg_RegistryResolveTimeout :: int

record AgentConfig =
  ac_ContainerdSocket :: string
  ac_GRPCPort :: int
  ac_MetricsAddr :: string

definition New :: Config where
  "New =
     (let denied = fold (\<lambda>ns m. m(ns := True)) DefaultDeniedNamespaces (\<lambda>_. False)
      in \<lparr>Enabled = True, DeniedNamespaces = denied,
          MaxConcurrentSalvages = DefaultMaxConcurrentSalvages,
          cfg_SessionTTL = DefaultSessionTTL, AgentNamespace = '''',
          AgentGRPCPort = DefaultAgentGRPCPort, cfg_MaxImageSize = DefaultMaxImageSize,
          cfg_BackupRegistry = '''', cfg_BackupRegistrySecret = '''',
          cfg_BackupRegistryInsecure = False, cfg_RegistryResolve = False,
          cfg_RegistryResolveTimeout = 0\<rparr>)"

definition IsDenied :: "Config \<Rightarrow> string \<Rightarrow> bool" where
  "IsDenied c ns = DeniedNamespaces c ns"

definition TLSEnabled :: "string \<Rightarrow> string \<Rightarrow> string \<Rightarrow> bool" where
  "TLSEnabled cert key ca = (cert \<noteq> '''' \<and> key \<noteq> '''' \<and> ca \<noteq> '''')"

definition ValidateTLSFlags :: "string \<Rightarrow> string \<Rightarrow> string \<Rightarrow> unit result" where
  "ValidateTLSFlags cert key ca =
     (let n0 = 0;
          n1 = (if cert \<noteq> '''' then n0 + 1 else n0);
          n2 = (if key \<noteq> '''' then n1 + 1 else n1);
          n3 = (if ca \<noteq> '''' then n2 + 1 else n2)
      in if n3 \<noteq> 0 \<and> n3 \<noteq> 3
         then Inl (errorf (''all three TLS flags (--tls-cert, --tls-key, --tls-ca) must be set together, got ''
                     @ fmt_nat n3 @ '' of 3''))
         else Inr ())"

lemma IsDenied_New_iff: "IsDenied New ns \<longleftrightarrow> ns \<in> set DefaultDeniedNamespaces"
  by (simp add: IsDenied_def New_def DefaultDeniedNamespaces_def)

text \<open>The TLS flags pass validation exactly when mutual TLS is switched on or no flag is given at
  all, so after validation the insecure transport is used only by an operator who named no
  certificate, key or CA.\<close>

theorem ValidateTLSFlags_iff:
  "is_ok (ValidateTLSFlags cert key ca) \<longleftrightarrow>
     TLSEnabled cert key ca \<or> (cert = '''' \<and> key = '''' \<and> ca = '''')"
  by (simp add: ValidateTLSFlags_def TLSEnabled_def)

end
