(* ===== verification/Go_Json.thy ===== *)
theory Go_Json
  imports Tote_Prelude "HOL-Library.AList"
begin

text \<open>
  Go's \<open>encoding/json\<close>, as far as the repository uses it: \<open>Marshal\<close> and an indenting encoder for
  values made of strings, booleans, lists and objects, and the reader behind \<open>Unmarshal\<close>, which
  accepts RFC 8259 up to 10000 levels of nesting. Strings are quoted as Go quotes them, byte by byte:
  quotes, backslashes and control characters are escaped, and so are the characters that are special
  in HTML and the line separators U+2028 and U+2029; a byte that is not part of valid UTF-8 and half
  a surrogate pair become the replacement character. What was written reads back, whatever bytes the
  strings have (\<open>parse_encode\<close>). The reader is recursive on fuel; \<open>read_fuel\<close> shows that more fuel than
  \<open>parse_json\<close> takes changes nothing.
\<close>

section \<open>UTF-8\<close>

abbreviation code :: "char \<Rightarrow> nat" where
  "code c \<equiv> of_char c"

definition cont :: "char \<Rightarrow> bool" where
  "cont c \<longleftrightarrow> 0x80 \<le> code c \<and> code c \<le> 0xBF"

text \<open>The length of the valid sequence at the head of a string that starts with a byte from 0x80 on; 0 if there is none.\<close>

definition rune_size :: "string \<Rightarrow> nat" where
  "rune_size s =
     (case s of
        a # b # rest \<Rightarrow>
          if 0xC2 \<le> code a \<and> code a \<le> 0xDF \<and> cont b then 2
          else (case rest of
              c # rest' \<Rightarrow>
                if 0xE0 \<le> code a \<and> code a \<le> 0xEF \<and> cont b \<and> cont c
                   \<and> (code a = 0xE0 \<longrightarrow> 0xA0 \<le> code b) \<and> (code a = 0xED \<longrightarrow> code b \<le> 0x9F) then 3
                else (case rest' of
                    d # _ \<Rightarrow>
                      if 0xF0 \<le> code a \<and> code a \<le> 0xF4 \<and> cont b \<and> cont c \<and> cont d
                         \<and> (code a = 0xF0 \<longrightarrow> 0x90 \<le> code b) \<and> (code a = 0xF4 \<longrightarrow> code b \<le> 0x8F) then 4
                      else 0
                  | [] \<Rightarrow> 0)
            | [] \<Rightarrow> 0)
      | _ \<Rightarrow> 0)"

definition rune_error :: string where
  "rune_error = [CHR 0xEF, CHR 0xBF, CHR 0xBD]"

text \<open>The string with every invalid byte replaced.\<close>

fun to_valid :: "string \<Rightarrow> string" where
  "to_valid [] = []"
| "to_valid (b # bs) =
     (if code b < 0x80 then b # to_valid bs
      else let n = rune_size (b # bs)
           in if n = 0 then rune_error @ to_valid bs
              else take n (b # bs) @ to_valid (drop (n - 1) bs))"

definition utf8 :: "nat \<Rightarrow> string" where
  "utf8 n =
     (if n < 0x80 then [char_of n]
      else if n < 0x800 then [char_of (0xC0 + n div 64), char_of (0x80 + n mod 64)]
      else if n < 0x10000 then [char_of (0xE0 + n div 4096), char_of (0x80 + n div 64 mod 64), char_of (0x80 + n mod 64)]
      else [char_of (0xF0 + n div 262144), char_of (0x80 + n div 4096 mod 64), char_of (0x80 + n div 64 mod 64), char_of (0x80 + n mod 64)])"

section \<open>Writing\<close>

datatype json =
    JNull
  | JBool bool
  | JNumber string
  | JString string
  | JArray "json list"
  | JObject "(string \<times> json) list"

definition hex :: "nat \<Rightarrow> char" where
  "hex n = ''0123456789abcdef'' ! n"

definition escape :: "char \<Rightarrow> string" where
  "escape b =
     (if b = CHR 0x5C \<or> b = CHR 0x22 then [CHR 0x5C, b]
      else if b = CHR 0x08 then [CHR 0x5C, CHR ''b'']
      else if b = CHR 0x0C then [CHR 0x5C, CHR ''f'']
      else if b = CHR 0x0A then [CHR 0x5C, CHR ''n'']
      else if b = CHR 0x0D then [CHR 0x5C, CHR ''r'']
      else if b = CHR 0x09 then [CHR 0x5C, CHR ''t'']
      else if code b < 0x20 \<or> b = CHR ''<'' \<or> b = CHR ''>'' \<or> b = CHR ''&''
        then [CHR 0x5C, CHR ''u'', CHR ''0'', CHR ''0'', hex (code b div 16), hex (code b mod 16)]
      else [b])"

definition separator :: "string \<Rightarrow> bool" where
  "separator s \<longleftrightarrow> s = [CHR 0xE2, CHR 0x80, CHR 0xA8] \<or> s = [CHR 0xE2, CHR 0x80, CHR 0xA9]"

fun quoteLoop :: "string \<Rightarrow> string" where
  "quoteLoop [] = []"
| "quoteLoop (b # bs) =
     (if code b < 0x80 then escape b @ quoteLoop bs
      else let n = rune_size (b # bs)
           in if n = 0 then CHR 0x5C # ''ufffd'' @ quoteLoop bs
              else (if separator (take n (b # bs)) then CHR 0x5C # ''u202'' @ [hex (code (bs ! 1) mod 16)] else take n (b # bs))
                   @ quoteLoop (drop (n - 1) bs))"

definition quoteJSON :: "string \<Rightarrow> string" where
  "quoteJSON s = CHR 0x22 # quoteLoop s @ [CHR 0x22]"

text \<open>The line break of the indenting encoder at a level (two spaces each), and none of the compact one.\<close>

definition line_break :: "bool \<Rightarrow> nat \<Rightarrow> string" where
  "line_break indent l = (if indent then CHR 0x0A # replicate (2 * l) CHR '' '' else [])"

fun encodeJSON :: "bool \<Rightarrow> nat \<Rightarrow> json \<Rightarrow> string" where
  "encodeJSON i l JNull = ''null''"
| "encodeJSON i l (JBool b) = (if b then ''true'' else ''false'')"
| "encodeJSON i l (JNumber t) = t"
| "encodeJSON i l (JString s) = quoteJSON s"
| "encodeJSON i l (JArray vs) =
     (if vs = [] then ''[]''
      else CHR ''['' # line_break i (Suc l) @ Join (map (encodeJSON i (Suc l)) vs) ('','' @ line_break i (Suc l)) @ line_break i l @ '']'')"
| "encodeJSON i l (JObject kvs) =
     (if kvs = [] then ''{}''
      else CHR ''{'' # line_break i (Suc l)
             @ Join (map (\<lambda>(k, v). quoteJSON k @ (if i then '': '' else '':'') @ encodeJSON i (Suc l) v) kvs) ('','' @ line_break i (Suc l))
             @ line_break i l @ ''}'')"

definition Marshal :: "json \<Rightarrow> string" where
  "Marshal = encodeJSON False 0"

text \<open>A struct of strings, as its members in the order of the fields.\<close>

definition marshal :: "(string \<times> string) list \<Rightarrow> string" where
  "marshal kvs = Marshal (JObject (map (map_prod id JString) kvs))"

section \<open>Reading\<close>

definition hex_val :: "char \<Rightarrow> nat option" where
  "hex_val c =
     (if 48 \<le> code c \<and> code c \<le> 57 then Some (code c - 48)
      else if 97 \<le> code c \<and> code c \<le> 102 then Some (code c - 87)
      else if 65 \<le> code c \<and> code c \<le> 70 then Some (code c - 55)
      else None)"

definition simple_escape :: "char \<Rightarrow> char option" where
  "simple_escape e =
     (if e = CHR 0x22 \<or> e = CHR 0x5C \<or> e = CHR ''/'' then Some e
      else if e = CHR ''b'' then Some (CHR 0x08) else if e = CHR ''f'' then Some (CHR 0x0C)
      else if e = CHR ''n'' then Some (CHR 0x0A) else if e = CHR ''r'' then Some (CHR 0x0D)
      else if e = CHR ''t'' then Some (CHR 0x09) else None)"

definition hex4 :: "string \<Rightarrow> nat option" where
  "hex4 s =
     (case s of
        h1 # h2 # h3 # h4 # _ \<Rightarrow> do {
          d1 \<leftarrow> hex_val h1; d2 \<leftarrow> hex_val h2; d3 \<leftarrow> hex_val h3; d4 \<leftarrow> hex_val h4;
          Some (4096 * d1 + 256 * d2 + 16 * d3 + d4)
        }
      | _ \<Rightarrow> None)"

text \<open>The character of a surrogate pair whose first half is \<open>n\<close>, if its second half follows.\<close>

definition surrogate_pair :: "nat \<Rightarrow> string \<Rightarrow> nat option" where
  "surrogate_pair n s =
     (if n < 0xDC00 \<and> take 2 s = [CHR 0x5C, CHR ''u''] then do {
        m \<leftarrow> hex4 (drop 2 s);
        (if 0xDC00 \<le> m \<and> m \<le> 0xDFFF then Some (0x10000 + (n - 0xD800) * 1024 + (m - 0xDC00)) else None)
      }
      else None)"

text \<open>What a Unicode escape stands for, and how many characters after it belong to it.\<close>

definition escaped_rune :: "nat \<Rightarrow> string \<Rightarrow> string \<times> nat" where
  "escaped_rune n s =
     (if 0xD800 \<le> n \<and> n \<le> 0xDFFF
      then (case surrogate_pair n s of Some m \<Rightarrow> (utf8 m, 6) | None \<Rightarrow> (rune_error, 0))
      else (utf8 n, 0))"

text \<open>The rest of a string after its opening quote: its value and what follows the closing quote.\<close>

fun read_string :: "string \<Rightarrow> (string \<times> string) option" where
  "read_string [] = None"
| "read_string (c # cs) =
     (if c = CHR 0x22 then Some ([], cs)
      else if code c < 0x20 then None
      else if c = CHR 0x5C then
        (case cs of
           [] \<Rightarrow> None
         | e # es \<Rightarrow>
             if e = CHR ''u'' then
               (case hex4 es of
                  None \<Rightarrow> None
                | Some n \<Rightarrow> map_option (map_prod ((@) (fst (escaped_rune n (drop 4 es)))) id)
                              (read_string (drop (4 + snd (escaped_rune n (drop 4 es))) es)))
             else (case simple_escape e of
                     None \<Rightarrow> None
                   | Some x \<Rightarrow> map_option (map_prod ((#) x) id) (read_string es)))
      else if code c < 0x80 then map_option (map_prod ((#) c) id) (read_string cs)
      else if rune_size (c # cs) = 0 then map_option (map_prod ((@) rune_error) id) (read_string cs)
      else map_option (map_prod ((@) (take (rune_size (c # cs)) (c # cs))) id) (read_string (drop (rune_size (c # cs) - 1) cs)))"

definition json_digit :: "char \<Rightarrow> bool" where
  "json_digit c \<longleftrightarrow> 48 \<le> code c \<and> code c \<le> 57"

definition read_digits :: "string \<Rightarrow> (string \<times> string) option" where
  "read_digits s = (if takeWhile json_digit s = [] then None else Some (takeWhile json_digit s, dropWhile json_digit s))"

definition read_int :: "string \<Rightarrow> (string \<times> string) option" where
  "read_int s = (if take 1 s = ''0'' then Some (''0'', drop 1 s) else read_digits s)"

definition read_frac :: "string \<Rightarrow> (string \<times> string) option" where
  "read_frac s = (if take 1 s = ''.'' then map_option (map_prod ((@) ''.'') id) (read_digits (drop 1 s)) else Some ([], s))"

definition read_exp :: "string \<Rightarrow> (string \<times> string) option" where
  "read_exp s =
     (if take 1 s = ''e'' \<or> take 1 s = ''E'' then
        (let k = (if take 1 (drop 1 s) = ''+'' \<or> take 1 (drop 1 s) = ''-'' then 2 else 1)
         in map_option (map_prod ((@) (take k s)) id) (read_digits (drop k s)))
      else Some ([], s))"

definition read_number :: "string \<Rightarrow> (string \<times> string) option" where
  "read_number s = do {
     let k = (if take 1 s = ''-'' then 1 else 0);
     (i, s1) \<leftarrow> read_int (drop k s);
     (f, s2) \<leftarrow> read_frac s1;
     (e, s3) \<leftarrow> read_exp s2;
     Some (take k s @ i @ f @ e, s3)
   }"

definition read_atom :: "string \<Rightarrow> (json \<times> string) option" where
  "read_atom s =
     (if take 4 s = ''null'' then Some (JNull, drop 4 s)
      else if take 4 s = ''true'' then Some (JBool True, drop 4 s)
      else if take 5 s = ''false'' then Some (JBool False, drop 5 s)
      else map_option (map_prod JNumber id) (read_number s))"

definition blank :: "char \<Rightarrow> bool" where
  "blank c \<longleftrightarrow> c = CHR '' '' \<or> c = CHR 0x09 \<or> c = CHR 0x0A \<or> c = CHR 0x0D"

definition skip_blanks :: "string \<Rightarrow> string" where
  "skip_blanks s = dropWhile blank s"

definition read_key :: "string \<Rightarrow> (string \<times> string) option" where
  "read_key s =
     (case skip_blanks s of
        [] \<Rightarrow> None
      | c # cs \<Rightarrow>
          if c \<noteq> CHR 0x22 then None
          else (case read_string cs of
                  None \<Rightarrow> None
                | Some (k, r) \<Rightarrow> if take 1 (skip_blanks r) = '':'' then Some (k, drop 1 (skip_blanks r)) else None))"

text \<open>A value; the rest of a list after its bracket or a comma; the rest of an object likewise. The first
  argument is fuel, the second the number of levels that may still be opened.\<close>

fun read_value :: "nat \<Rightarrow> nat \<Rightarrow> string \<Rightarrow> (json \<times> string) option"
  and read_items :: "nat \<Rightarrow> nat \<Rightarrow> string \<Rightarrow> (json list \<times> string) option"
  and read_members :: "nat \<Rightarrow> nat \<Rightarrow> string \<Rightarrow> ((string \<times> json) list \<times> string) option" where
  "read_value 0 d s = None"
| "read_value (Suc n) d s =
     (case skip_blanks s of
        [] \<Rightarrow> None
      | c # cs \<Rightarrow>
          if c = CHR 0x22 then map_option (map_prod JString id) (read_string cs)
          else if c = CHR ''['' then
            (if d = 0 then None
             else if take 1 (skip_blanks cs) = '']'' then Some (JArray [], drop 1 (skip_blanks cs))
             else map_option (map_prod JArray id) (read_items n (d - 1) cs))
          else if c = CHR ''{'' then
            (if d = 0 then None
             else if take 1 (skip_blanks cs) = ''}'' then Some (JObject [], drop 1 (skip_blanks cs))
             else map_option (map_prod JObject id) (read_members n (d - 1) cs))
          else read_atom (c # cs))"
| "read_items 0 d s = None"
| "read_items (Suc n) d s =
     (case read_value n d s of
        None \<Rightarrow> None
      | Some (v, r) \<Rightarrow>
          if take 1 (skip_blanks r) = '']'' then Some ([v], drop 1 (skip_blanks r))
          else if take 1 (skip_blanks r) = '','' then map_option (map_prod ((#) v) id) (read_items n d (drop 1 (skip_blanks r)))
          else None)"
| "read_members 0 d s = None"
| "read_members (Suc n) d s =
     (case read_key s of
        None \<Rightarrow> None
      | Some (k, s') \<Rightarrow>
          (case read_value n d s' of
             None \<Rightarrow> None
           | Some (v, r) \<Rightarrow>
               if take 1 (skip_blanks r) = ''}'' then Some ([(k, v)], drop 1 (skip_blanks r))
               else if take 1 (skip_blanks r) = '','' then map_option (map_prod ((#) (k, v)) id) (read_members n d (drop 1 (skip_blanks r)))
               else None))"

definition maxNestingDepth :: nat where
  "maxNestingDepth = 10000"

definition parse_json :: "string \<Rightarrow> json option" where
  "parse_json s =
     (case read_value (2 * length s + 1) maxNestingDepth s of
        None \<Rightarrow> None
      | Some (v, r) \<Rightarrow> if skip_blanks r = [] then Some v else None)"

text \<open>The members of an object whose values are all strings.\<close>

definition unmarshal :: "string \<Rightarrow> (string \<times> string) list option" where
  "unmarshal s =
     (case parse_json s of
        Some (JObject kvs) \<Rightarrow> those (map (\<lambda>(k, v). case v of JString x \<Rightarrow> Some (k, x) | _ \<Rightarrow> None) kvs)
      | _ \<Rightarrow> None)"

section \<open>What was quoted reads back\<close>

definition yields :: "string \<Rightarrow> string \<Rightarrow> bool" where
  "yields p v \<longleftrightarrow> (\<forall>r. read_string (p @ r) = map_option (map_prod ((@) v) id) (read_string r))"

lemma yields_Nil: "yields [] []"
  by (simp add: yields_def map_prod_def option.map_id0)

lemma yields_append: "yields p v \<Longrightarrow> yields q u \<Longrightarrow> yields (p @ q) (v @ u)"
  by (simp add: yields_def option.map_comp comp_def map_prod_def split_def)

lemma append_one: "(@) [x] = (#) x"
  by (rule ext) simp

lemma yields_raw: "0x20 \<le> code c \<Longrightarrow> code c < 0x80 \<Longrightarrow> c \<noteq> CHR 0x22 \<Longrightarrow> c \<noteq> CHR 0x5C \<Longrightarrow> yields [c] [c]"
  by (auto simp: yields_def append_one)

lemma yields_simple: "simple_escape e = Some x \<Longrightarrow> e \<noteq> CHR ''u'' \<Longrightarrow> yields [CHR 0x5C, e] [x]"
  by (auto simp: yields_def append_one)

lemma yields_unicode:
  assumes "hex_val h1 = Some d1" "hex_val h2 = Some d2" "hex_val h3 = Some d3" "hex_val h4 = Some d4"
    and "n = 4096 * d1 + 256 * d2 + 16 * d3 + d4" "\<not> (0xD800 \<le> n \<and> n \<le> 0xDFFF)"
  shows "yields [CHR 0x5C, CHR ''u'', h1, h2, h3, h4] (utf8 n)"
  using assms by (auto simp: yields_def hex4_def escaped_rune_def)

lemma hex_val_hex: "n < 16 \<Longrightarrow> hex_val (hex n) = Some n"
proof -
  assume "n < 16"
  then have "n \<in> set [0..<16]" by simp
  then show ?thesis by (auto simp: upt_conv_Cons hex_def hex_val_def)
qed

lemma hex_digits: "hex_val CHR ''0'' = Some 0" "hex_val CHR ''2'' = Some 2" "hex_val CHR ''f'' = Some 15" "hex_val CHR ''d'' = Some 13"
  by (simp_all add: hex_val_def)

lemma byte_chars:
  "char_of (239::nat) = CHR 0xEF" "char_of (191::nat) = CHR 0xBF" "char_of (189::nat) = CHR 0xBD" "char_of (226::nat) = CHR 0xE2"
  "char_of (128::nat) = CHR 0x80" "char_of (168::nat) = CHR 0xA8" "char_of (169::nat) = CHR 0xA9"
  by (simp_all add: char_of_def bit_numeral_rec bit_Suc_0_iff)

lemma yields_escape:
  assumes "code b < 0x80"
  shows "yields (escape b) [b]"
proof (cases "code b < 0x20 \<or> b = CHR ''<'' \<or> b = CHR ''>'' \<or> b = CHR ''&''")
  case True
  have "yields [CHR 0x5C, CHR ''u'', CHR ''0'', CHR ''0'', hex (code b div 16), hex (code b mod 16)] (utf8 (code b))"
    by (rule yields_unicode[where ?d1.0 = 0 and ?d2.0 = 0 and ?d3.0 = "code b div 16" and ?d4.0 = "code b mod 16"])
       (use assms in \<open>auto simp: hex_digits hex_val_hex\<close>)
  moreover have "utf8 (code b) = [b]" using assms by (simp add: utf8_def)
  moreover have "yields [CHR 0x5C, e] [x]" if "simple_escape e = Some x" "e \<noteq> CHR ''u''" for e x using that by (rule yields_simple)
  ultimately show ?thesis using True by (auto simp: escape_def simple_escape_def)
next
  case False
  then have plain: "b \<noteq> CHR 0x08" "b \<noteq> CHR 0x0C" "b \<noteq> CHR 0x0A" "b \<noteq> CHR 0x0D" "b \<noteq> CHR 0x09" by auto
  show ?thesis
  proof (cases "b = CHR 0x5C \<or> b = CHR 0x22")
    case True
    then have "simple_escape b = Some b" "b \<noteq> CHR ''u''" "escape b = [CHR 0x5C, b]"
      by (auto simp: simple_escape_def escape_def)
    then show ?thesis using yields_simple[of b b] by simp
  next
    case raw: False
    then have "escape b = [b]" using False plain by (simp add: escape_def)
    moreover have "yields [b] [b]" by (rule yields_raw) (use False raw assms in auto)
    ultimately show ?thesis by simp
  qed
qed

lemma rune_size_bounds:
  assumes "rune_size (b # bs) = n" and "n \<noteq> 0"
  shows "2 \<le> n" and "n \<le> Suc (length bs)"
proof -
  have "2 \<le> n \<and> n \<le> Suc (length bs)"
    using assms by (auto simp: rune_size_def split: list.splits if_splits)
  then show "2 \<le> n" "n \<le> Suc (length bs)" by auto
qed

text \<open>Whether a sequence is valid depends on its own bytes only.\<close>

lemma rune_size_take:
  assumes "rune_size (b # bs) = n" and "n \<noteq> 0"
  shows "rune_size (take n (b # bs) @ r) = n"
  using assms by (auto simp: rune_size_def split: list.splits if_splits)

lemma yields_rune:
  assumes "0x80 \<le> code b" and n: "rune_size (b # bs) = n" "n \<noteq> 0"
  shows "yields (take n (b # bs)) (take n (b # bs))"
  unfolding yields_def
proof
  fix r
  obtain k where k: "n = Suc k" using n(2) by (cases n) auto
  have size: "rune_size (b # take k bs @ r) = n" using rune_size_take[OF n, of r] by (simp add: k)
  have len: "length (take k bs) = k" using rune_size_bounds(2)[OF n] by (simp add: k)
  have c: "b \<noteq> CHR 0x22" "\<not> code b < 0x20" "b \<noteq> CHR 0x5C" "\<not> code b < 0x80" using assms(1) by auto
  show "read_string (take n (b # bs) @ r) = map_option (map_prod ((@) (take n (b # bs))) id) (read_string r)"
    using c len size n(2) by (simp add: k)
qed

lemma yields_separator:
  assumes "separator (take n (b # bs))"
  shows "yields (CHR 0x5C # ''u202'' @ [hex (code (bs ! 1) mod 16)]) (take n (b # bs))"
proof -
  have len: "length (take n (b # bs)) = 3" using assms unfolding separator_def by (elim disjE) (simp_all only:, simp_all)
  then have n: "n = 3 \<or> length (b # bs) = 3" by auto
  then have "bs ! 1 = take n (b # bs) ! 2" using len by (auto simp: nth_Cons')
  then have c: "code (bs ! 1) mod 16 = (if take n (b # bs) = [CHR 0xE2, CHR 0x80, CHR 0xA8] then 8 else 9)"
    using assms by (auto simp: separator_def)
  have "yields [CHR 0x5C, CHR ''u'', CHR ''2'', CHR ''0'', CHR ''2'', hex d] (utf8 (0x2020 + d))" if "d < 16" for d
    by (rule yields_unicode[where ?d1.0 = 2 and ?d2.0 = 0 and ?d3.0 = 2 and ?d4.0 = d]) (use that in \<open>auto simp: hex_digits hex_val_hex\<close>)
  from this[of 8] this[of 9] assms c show ?thesis by (auto simp: separator_def utf8_def byte_chars)
qed

lemma yields_quoteLoop: "yields (quoteLoop s) (to_valid s)"
proof (induction s rule: quoteLoop.induct)
  case (2 b bs)
  show ?case
  proof (cases "code b < 0x80")
    case True
    with 2(1) yields_append[OF yields_escape[OF True]] show ?thesis by simp
  next
    case False
    define n where "n = rune_size (b # bs)"
    show ?thesis
    proof (cases "n = 0")
      case True
      have "yields (CHR 0x5C # ''ufffd'') rune_error"
        using yields_unicode[OF hex_digits(3) hex_digits(3) hex_digits(3) hex_digits(4) refl] by (simp add: utf8_def rune_error_def byte_chars)
      from yields_append[OF this 2(2)[OF False n_def True]] False True show ?thesis by (simp add: n_def)
    next
      case n: False
      have "yields (if separator (take n (b # bs)) then CHR 0x5C # ''u202'' @ [hex (code (bs ! 1) mod 16)] else take n (b # bs)) (take n (b # bs))"
        using yields_separator[of n b bs] yields_rune[of b bs n] False n n_def by auto
      note yields_append[OF this 2(3)[OF False n_def n]]
      moreover have "to_valid (b # bs) = take n (b # bs) @ to_valid (drop (n - 1) bs)" using False n by (simp add: n_def Let_def)
      moreover have "quoteLoop (b # bs) = (if separator (take n (b # bs)) then CHR 0x5C # ''u202'' @ [hex (code (bs ! 1) mod 16)]
          else take n (b # bs)) @ quoteLoop (drop (n - 1) bs)"
        unfolding quoteLoop.simps(2) Let_def n_def[symmetric] using False n by (simp only: if_False)
      ultimately show ?thesis by (simp only:)
    qed
  qed
qed (simp add: yields_Nil)

lemma read_quoted: "read_string (quoteLoop s @ CHR 0x22 # r) = Some (to_valid s, r)"
  using yields_quoteLoop[of s] by (simp add: yields_def)

lemma to_valid_ascii: "list_all (\<lambda>c. code c < 0x80) s \<Longrightarrow> to_valid s = s"
  by (induction s) auto

section \<open>What was written reads back\<close>

text \<open>The value with invalid bytes of its strings replaced; a value without numbers that opens at most \<open>d\<close> levels.\<close>

fun valid_json :: "json \<Rightarrow> json" where
  "valid_json (JString s) = JString (to_valid s)"
| "valid_json (JArray vs) = JArray (map valid_json vs)"
| "valid_json (JObject kvs) = JObject (map (\<lambda>(k, v). (to_valid k, valid_json v)) kvs)"
| "valid_json j = j"

fun fits :: "nat \<Rightarrow> json \<Rightarrow> bool" where
  "fits d (JNumber t) = False"
| "fits d (JArray vs) = (0 < d \<and> (\<forall>v \<in> set vs. fits (d - 1) v))"
| "fits d (JObject kvs) = (0 < d \<and> (\<forall>kv \<in> set kvs. fits (d - 1) (snd kv)))"
| "fits d j = True"

definition blanks :: "string \<Rightarrow> bool" where
  "blanks w \<longleftrightarrow> list_all blank w"

lemma skip_blanks_blanks [simp]: "blanks w \<Longrightarrow> skip_blanks (w @ s) = skip_blanks s"
  unfolding skip_blanks_def blanks_def by (simp add: list_all_iff dropWhile_append)

lemma skip_blanks_Cons [simp]: "\<not> blank c \<Longrightarrow> skip_blanks (c # s) = c # s"
  by (simp add: skip_blanks_def)

lemma line_break_blanks [simp]: "blanks (line_break i l)"
  by (auto simp: blanks_def line_break_def blank_def list_all_iff)

lemma read_value_blanks [simp]: "blanks w \<Longrightarrow> read_value n d (w @ s) = read_value n d s"
  by (cases n) simp_all

lemma read_key_quote: "blanks w \<Longrightarrow> read_key (w @ quoteJSON k @ CHR '':'' # s) = Some (to_valid k, s)"
  by (simp add: read_key_def quoteJSON_def blank_def read_quoted)

lemma encode_head:
  assumes "fits d j"
  shows "\<exists>c s. encodeJSON i l j = c # s \<and> \<not> blank c \<and> c \<noteq> CHR '']''"
  using assms by (cases j) (auto simp: quoteJSON_def blank_def)

lemma read_items_text:
  assumes "vs \<noteq> []" and "blanks w" "blanks w'"
    and "\<And>v n r. v \<in> set vs \<Longrightarrow> 2 * length (f v @ r) + 1 \<le> n \<Longrightarrow> read_value n d (f v @ r) = Some (g v, r)"
    and "2 * length (Join (map f vs) ('','' @ w) @ w' @ CHR '']'' # r) + 2 \<le> n"
  shows "read_items n d (Join (map f vs) ('','' @ w) @ w' @ CHR '']'' # r) = Some (map g vs, r)"
  using assms(1,4,5)
proof (induction vs arbitrary: n)
  case (Cons v vs)
  obtain m where m: "n = Suc m" using Cons.prems(3) by (cases n) auto
  show ?case
  proof (cases "vs = []")
    case True
    then have "read_value m d (f v @ w' @ CHR '']'' # r) = Some (g v, w' @ CHR '']'' # r)"
      using Cons.prems(3) by (intro Cons.prems(2)) (auto simp: m)
    then show ?thesis using True assms(3) by (simp add: m blank_def)
  next
    case False
    then obtain u us where vs: "vs = u # us" by (cases vs) auto
    let ?rest = "Join (map f vs) ('','' @ w) @ w' @ CHR '']'' # r"
    have j: "Join (map f (v # vs)) ('','' @ w) = f v @ CHR '','' # w @ Join (map f vs) ('','' @ w)" by (simp add: vs)
    have "read_value m d (f v @ CHR '','' # w @ ?rest) = Some (g v, CHR '','' # w @ ?rest)"
      using Cons.prems(3) unfolding j m by (intro Cons.prems(2)) simp_all
    moreover have "read_items m d (w @ ?rest) = read_items m d ?rest" using assms(2) by (cases m) simp_all
    moreover have "read_items m d ?rest = Some (map g vs, r)"
      using Cons.prems(3) False unfolding j m by (intro Cons.IH Cons.prems(2)) simp_all
    ultimately show ?thesis unfolding j m by (simp add: blank_def)
  qed
qed simp

lemma read_members_text:
  assumes "kvs \<noteq> []" and "blanks w" "blanks w'" "blanks c"
    and "\<And>k v n r. (k, v) \<in> set kvs \<Longrightarrow> 2 * length (f v @ r) + 1 \<le> n \<Longrightarrow> read_value n d (f v @ r) = Some (g v, r)"
    and "2 * length (Join (map (\<lambda>(k, v). quoteJSON k @ CHR '':'' # c @ f v) kvs) ('','' @ w) @ w' @ CHR ''}'' # r) + 2 \<le> n"
  shows "read_members n d (Join (map (\<lambda>(k, v). quoteJSON k @ CHR '':'' # c @ f v) kvs) ('','' @ w) @ w' @ CHR ''}'' # r)
     = Some (map (\<lambda>(k, v). (to_valid k, g v)) kvs, r)"
  using assms(1,5,6)
proof (induction kvs arbitrary: n)
  case (Cons kv kvs)
  obtain m where m: "n = Suc m" using Cons.prems(3) by (cases n) auto
  obtain k v where kv: "kv = (k, v)" by fastforce
  let ?h = "\<lambda>(k, v). quoteJSON k @ CHR '':'' # c @ f v"
  have val: "read_value m d (c @ f v @ s) = Some (g v, s)" if "2 * length (f v @ s) + 1 \<le> m" for s
    using that assms(4) Cons.prems(2)[of k v] by (simp add: kv)
  show ?case
  proof (cases "kvs = []")
    case True
    have "read_value m d (c @ f v @ w' @ CHR ''}'' # r) = Some (g v, w' @ CHR ''}'' # r)"
      using Cons.prems(3) by (intro val) (auto simp: m kv True)
    then show ?thesis using True assms(3) read_key_quote[of "[]"] by (simp add: m kv blank_def blanks_def)
  next
    case False
    then obtain u us where vs: "kvs = u # us" by (cases kvs) auto
    let ?rest = "Join (map ?h kvs) ('','' @ w) @ w' @ CHR ''}'' # r"
    have j: "Join (map ?h (kv # kvs)) ('','' @ w) = quoteJSON k @ CHR '':'' # c @ f v @ CHR '','' # w @ Join (map ?h kvs) ('','' @ w)"
      by (simp add: vs kv)
    have "read_value m d (c @ f v @ CHR '','' # w @ ?rest) = Some (g v, CHR '','' # w @ ?rest)"
      using Cons.prems(3) unfolding j m by (intro val) simp_all
    moreover have "read_members m d (w @ ?rest) = read_members m d ?rest"
      using assms(2) by (cases m) (simp_all add: read_key_def)
    moreover have "read_value n d (f v @ r) = Some (g v, r)" if "(k, v) \<in> set kvs" "2 * length (f v @ r) + 1 \<le> n" for k v n r
      using that by (intro Cons.prems(2)[of k]) simp_all
    then have "read_members m d ?rest = Some (map (\<lambda>(k, v). (to_valid k, g v)) kvs, r)"
      using Cons.prems(3) False unfolding j m by (intro Cons.IH) simp_all
    ultimately show ?thesis unfolding j m using read_key_quote[of "[]" k] by (simp add: blank_def blanks_def kv)
  qed
qed simp

theorem read_encode:
  "fits d j \<Longrightarrow> 2 * length (encodeJSON i l j @ r) + 1 \<le> n \<Longrightarrow> read_value n d (encodeJSON i l j @ r) = Some (valid_json j, r)"
proof (induction j arbitrary: d l n r)
  case (JArray vs)
  obtain m where m: "n = Suc m" using JArray.prems(2) by (cases n) auto
  have d: "0 < d" "\<And>v. v \<in> set vs \<Longrightarrow> fits (d - 1) v" using JArray.prems(1) by auto
  show ?case
  proof (cases vs)
    case Nil
    then show ?thesis using d(1) by (simp add: m blank_def)
  next
    case (Cons v us)
    let ?w = "line_break i (Suc l)"
    let ?text = "Join (map (encodeJSON i (Suc l)) vs) ('','' @ ?w) @ line_break i l @ CHR '']'' # r"
    have items: "read_items m (d - 1) ?text = Some (map valid_json vs, r)"
      by (rule read_items_text) (use JArray.IH d JArray.prems(2) in \<open>auto simp: Cons m\<close>)
    obtain c s where c: "encodeJSON i (Suc l) v = c # s" "\<not> blank c" "c \<noteq> CHR '']''"
      using encode_head[OF d(2), of v i "Suc l"] by (auto simp: Cons)
    then have "\<exists>s'. ?text = c # s'" by (cases us) (simp_all add: Cons)
    then have "take 1 (skip_blanks (?w @ ?text)) \<noteq> '']''" using c(2,3) by auto
    moreover have "read_items m (d - 1) (?w @ ?text) = read_items m (d - 1) ?text" by (cases m) simp_all
    moreover have "encodeJSON i l (JArray vs) @ r = CHR ''['' # ?w @ ?text" by (simp add: Cons)
    ultimately show ?thesis using d(1) items by (simp add: m blank_def)
  qed
next
  case (JObject kvs)
  obtain m where m: "n = Suc m" using JObject.prems(2) by (cases n) auto
  have d: "0 < d" "\<And>k v. (k, v) \<in> set kvs \<Longrightarrow> fits (d - 1) v" using JObject.prems(1) by force+
  show ?case
  proof (cases kvs)
    case Nil
    then show ?thesis using d(1) by (simp add: m blank_def)
  next
    case (Cons kv us)
    let ?w = "line_break i (Suc l)" and ?c = "if i then '' '' else ''''"
    let ?text = "Join (map (\<lambda>(k, v). quoteJSON k @ CHR '':'' # ?c @ encodeJSON i (Suc l) v) kvs) ('','' @ ?w) @ line_break i l @ CHR ''}'' # r"
    have colon: "(if i then '': '' else '':'') = CHR '':'' # ?c" by simp
    have enc: "encodeJSON i l (JObject kvs) @ r = CHR ''{'' # ?w @ ?text" unfolding encodeJSON.simps colon by (simp add: Cons)
    have "blanks ?c" by (simp add: blanks_def blank_def)
    moreover have "read_value n (d - 1) (encodeJSON i (Suc l) v @ r) = Some (valid_json v, r)"
      if "(k, v) \<in> set kvs" "2 * length (encodeJSON i (Suc l) v @ r) + 1 \<le> n" for k v n r
      using JObject.IH[OF that(1), of v "d - 1" "Suc l" r n] d(2)[OF that(1)] that(2) by simp
    ultimately have mem: "read_members m (d - 1) ?text = Some (map (\<lambda>(k, v). (to_valid k, valid_json v)) kvs, r)"
      using JObject.prems(2) unfolding enc by (intro read_members_text) (simp_all add: Cons m)
    have "\<exists>s'. ?text = CHR 0x22 # s'" by (cases kv; cases us) (simp_all add: Cons quoteJSON_def)
    then have "take 1 (skip_blanks (?w @ ?text)) \<noteq> ''}''" by (auto simp: blank_def)
    moreover have "read_members m (d - 1) (?w @ ?text) = read_members m (d - 1) ?text" by (cases m) (simp_all add: read_key_def)
    ultimately show ?thesis using d(1) mem unfolding enc by (simp add: m blank_def)
  qed
next
  case (JString s)
  then obtain m where m: "n = Suc m" by (cases n) auto
  then show ?case by (simp add: quoteJSON_def blank_def read_quoted)
next
  case (JBool b)
  then obtain m where m: "n = Suc m" by (cases n) auto
  then show ?case by (cases b) (simp_all add: blank_def read_atom_def)
next
  case JNull
  then obtain m where m: "n = Suc m" by (cases n) auto
  then show ?case by (simp add: blank_def read_atom_def)
qed simp

lemma parse_encode:
  assumes "fits maxNestingDepth j" and "blanks w"
  shows "parse_json (encodeJSON i l j @ w) = Some (valid_json j)"
proof -
  have "skip_blanks w = []" using skip_blanks_blanks[OF assms(2), of "[]"] by (simp add: skip_blanks_def)
  then show ?thesis using read_encode[OF assms(1), of i l w "2 * length (encodeJSON i l j @ w) + 1"] by (simp add: parse_json_def)
qed

text \<open>Marshalled members read back in order, with invalid bytes replaced.\<close>

lemma those_strings: "those (map (\<lambda>(k, v). case v of JString x \<Rightarrow> Some (k, x) | _ \<Rightarrow> None)
    (map (\<lambda>(k, v). (to_valid k, valid_json v)) (map (map_prod id JString) kvs))) = Some (map (map_prod to_valid to_valid) kvs)"
  by (induction kvs) auto

lemma unmarshal_marshal: "unmarshal (marshal kvs) = Some (map (map_prod to_valid to_valid) kvs)"
proof -
  have "fits maxNestingDepth (JObject (map (map_prod id JString) kvs))" by (auto simp: maxNestingDepth_def)
  from parse_encode[OF this, of "[]" False 0] those_strings[of kvs] show ?thesis
    by (simp add: unmarshal_def marshal_def Marshal_def blanks_def del: encodeJSON.simps)
qed

section \<open>More fuel changes nothing\<close>

lemma skip_blanks_length: "length (skip_blanks s) \<le> length s"
  by (simp add: skip_blanks_def length_dropWhile_le)

lemma read_string_step:
  assumes "read_string (c # cs) = Some (v, r)"
  shows "r = cs \<or> (\<exists>k a. read_string (drop k cs) = Some (a, r))"
proof (cases "c = CHR 0x5C")
  case True
  with assms obtain e es where cs: "cs = e # es" by (auto split: list.splits)
  have "\<exists>k a. read_string (drop k es) = Some (a, r)"
  proof (cases "e = CHR ''u''")
    case True
    with assms \<open>c = CHR 0x5C\<close> cs show ?thesis by (auto split: option.splits)
  next
    case False
    with assms \<open>c = CHR 0x5C\<close> cs have "\<exists>a. read_string (drop 0 es) = Some (a, r)" by (auto split: option.splits)
    then show ?thesis by blast
  qed
  then show ?thesis unfolding cs by (metis drop_Suc_Cons)
next
  case False
  have "\<exists>a. read_string (drop 0 cs) = Some (a, r)" if "c \<noteq> CHR 0x22" "code c < 0x80 \<or> rune_size (c # cs) = 0"
    using assms False that by (auto split: if_splits)
  moreover have "\<exists>a. read_string (drop (rune_size (c # cs) - 1) cs) = Some (a, r)"
    if "c \<noteq> CHR 0x22" "\<not> code c < 0x80" "rune_size (c # cs) \<noteq> 0"
    using assms False that by auto
  moreover have "r = cs" if "c = CHR 0x22" using assms that by simp
  ultimately show ?thesis by blast
qed

lemma read_string_length: "read_string s = Some (v, r) \<Longrightarrow> length r < length s"
proof (induction s arbitrary: v rule: length_induct)
  case (1 s)
  then obtain c cs where s: "s = c # cs" by (cases s) auto
  from read_string_step[OF "1.prems"[unfolded s]] show ?case
  proof (elim disjE exE)
    fix k a
    assume "read_string (drop k cs) = Some (a, r)"
    moreover have "length (drop k cs) < length s" by (simp add: s)
    ultimately have "length r < length (drop k cs)" using "1.IH" by blast
    then show ?thesis by (simp add: s)
  qed (simp add: s)
qed

lemma read_digits_length: "read_digits s = Some (t, r) \<Longrightarrow> length r < length s"
proof -
  assume "read_digits s = Some (t, r)"
  then have "takeWhile json_digit s \<noteq> []" "r = dropWhile json_digit s" by (auto simp: read_digits_def split: if_splits)
  moreover have "length (takeWhile json_digit s) + length (dropWhile json_digit s) = length s"
    by (metis length_append takeWhile_dropWhile_id)
  ultimately show ?thesis by (cases "takeWhile json_digit s") auto
qed

lemma read_number_length:
  assumes "read_number s = Some (t, r)"
  shows "length r < length s"
proof -
  define k where "k = (if take 1 s = ''-'' then 1 else 0 :: nat)"
  from assms obtain i s1 f s2 e where i: "read_int (drop k s) = Some (i, s1)" and f: "read_frac s1 = Some (f, s2)" and e: "read_exp s2 = Some (e, r)"
    unfolding read_number_def k_def[symmetric] by (auto simp: Let_def bind_eq_Some_conv)
  have "length s1 < length (drop k s)" using i
    by (cases "drop k s") (auto simp: read_int_def split: if_splits dest: read_digits_length)
  moreover have "length s2 \<le> length s1" using f by (auto simp: read_frac_def split: if_splits dest!: read_digits_length)
  moreover have "length r \<le> length s2" using e by (auto simp: read_exp_def Let_def split: if_splits dest!: read_digits_length)
  ultimately show ?thesis by simp
qed

lemma read_atom_length: "read_atom s = Some (v, r) \<Longrightarrow> length r < length s"
  by (cases "s = []") (auto simp: read_atom_def split: if_splits dest: read_number_length)

lemma read_key_length:
  assumes "read_key s = Some (k, r)"
  shows "length r < length s"
proof -
  from assms obtain c cs k' t where s: "skip_blanks s = c # cs" "read_string cs = Some (k', t)" "r = drop 1 (skip_blanks t)"
    by (auto simp: read_key_def split: list.splits if_splits option.splits)
  have "length (c # cs) \<le> length s" using skip_blanks_length[of s] s(1) by simp
  with read_string_length[OF s(2)] skip_blanks_length[of t] show ?thesis by (simp add: s(3))
qed

lemma read_length:
  "read_value n d s = Some (v, r) \<Longrightarrow> length r < length s"
  "read_items n d s = Some (vs, r) \<Longrightarrow> length r < length s"
  "read_members n d s = Some (kvs, r) \<Longrightarrow> length r < length s"
proof (induction n d s and n d s and n d s arbitrary: v r and vs r and kvs r rule: read_value_read_items_read_members.induct)
  case (2 n d s)
  then obtain c cs where s: "skip_blanks s = c # cs" by (auto split: list.splits)
  have len: "Suc (length cs) \<le> length s" using skip_blanks_length[of s] s by simp
  have "length r \<le> length cs"
    using "2.prems" s skip_blanks_length[of cs] "2.IH" read_string_length[of cs] read_atom_length[of "c # cs"]
    by (auto split: if_splits dest!: less_imp_le_nat)
  with len show ?case by simp
next
  case (4 n d s)
  from "4.prems" obtain v r' where v: "read_value n d s = Some (v, r')" by (auto split: option.splits)
  with "4.prems" "4.IH"(1)[OF v] "4.IH"(2)[OF v refl] skip_blanks_length[of r'] show ?case by (fastforce split: if_splits)
next
  case (6 n d s)
  from "6.prems" obtain k s' where k: "read_key s = Some (k, s')" by (auto split: option.splits)
  from "6.prems" k obtain v r' where v: "read_value n d s' = Some (v, r')" by (auto split: option.splits)
  with "6.prems" k "6.IH"(1)[OF k refl v] "6.IH"(2)[OF k refl v refl] skip_blanks_length[of r'] read_key_length[OF k] show ?case
    by (fastforce split: if_splits)
qed simp_all

lemma read_fuel:
  "2 * length s + 1 \<le> n \<Longrightarrow> 2 * length s + 1 \<le> m \<Longrightarrow> read_value n d s = read_value m d s"
  "2 * length s + 2 \<le> n \<Longrightarrow> 2 * length s + 2 \<le> m \<Longrightarrow> read_items n d s = read_items m d s"
  "2 * length s + 2 \<le> n \<Longrightarrow> 2 * length s + 2 \<le> m \<Longrightarrow> read_members n d s = read_members m d s"
proof (induction n d s and n d s and n d s arbitrary: m and m and m rule: read_value_read_items_read_members.induct)
  case (2 n d s)
  from "2.prems" obtain k where m: "m = Suc k" by (cases m) auto
  show ?case
  proof (cases "skip_blanks s")
    case (Cons c cs)
    have "Suc (length cs) \<le> length s" using skip_blanks_length[of s] Cons by simp
    then have fuel: "2 * length cs + 2 \<le> n" "2 * length cs + 2 \<le> k" using "2.prems" by (simp_all add: m)
    show ?thesis using "2.IH"(1)[OF Cons _ _ _ _ fuel] "2.IH"(2)[OF Cons _ _ _ _ _ fuel] by (simp add: m Cons)
  qed (simp add: m)
next
  case (4 n d s)
  from "4.prems" obtain k where m: "m = Suc k" by (cases m) auto
  have v: "read_value n d s = read_value k d s" using "4.prems" by (intro "4.IH"(1)) (simp_all add: m)
  show ?case
  proof (cases "read_value n d s")
    case (Some vr)
    obtain u r where vr: "vr = (u, r)" by fastforce
    have "length (drop 1 (skip_blanks r)) < length s" using skip_blanks_length[of r] read_length(1)[OF Some[unfolded vr]] by simp
    then have fuel: "2 * length (drop 1 (skip_blanks r)) + 2 \<le> n" "2 * length (drop 1 (skip_blanks r)) + 2 \<le> k" using "4.prems" by (simp_all add: m)
    show ?thesis using Some v[symmetric] "4.IH"(2)[OF Some vr[symmetric] _ _ fuel] by (simp add: m vr)
  qed (use v in \<open>simp add: m\<close>)
next
  case (6 n d s)
  from "6.prems" obtain k where m: "m = Suc k" by (cases m) auto
  show ?case
  proof (cases "read_key s")
    case (Some ks)
    obtain key t where ks: "ks = (key, t)" by fastforce
    have t: "length t < length s" by (rule read_key_length[OF Some[unfolded ks]])
    have v: "read_value n d t = read_value k d t" using "6.prems" t by (intro "6.IH"(1)[OF Some ks[symmetric]]) (simp_all add: m)
    show ?thesis
    proof (cases "read_value n d t")
      case val: (Some vr)
      obtain u r where vr: "vr = (u, r)" by fastforce
      have "length (drop 1 (skip_blanks r)) < length s" using skip_blanks_length[of r] read_length(1)[OF val[unfolded vr]] t by simp
      then have fuel: "2 * length (drop 1 (skip_blanks r)) + 2 \<le> n" "2 * length (drop 1 (skip_blanks r)) + 2 \<le> k" using "6.prems" by (simp_all add: m)
      show ?thesis using val v[symmetric] Some "6.IH"(2)[OF Some ks[symmetric] val vr[symmetric] _ _ fuel] by (simp add: m vr ks)
    qed (use v Some ks in \<open>simp add: m\<close>)
  qed (simp add: m)
qed simp_all

section \<open>Decoding\<close>

text \<open>
  Decoding into a Go value: what it holds afterwards, and whether every part had the type Go expects
  (\<open>Unmarshal\<close> goes on after a mismatch and returns an error at the end). Null leaves a value as it is
  and empties a map, keys a struct does not have are ignored, and the keys it has are recognised up to
  case, where U+017F counts as an s and U+212A as a k. A map is the list of its entries.
\<close>

fun foldName :: "string \<Rightarrow> string" where
  "foldName [] = []"
| "foldName (c # cs) =
     (if c = CHR 0xC5 \<and> take 1 cs = [CHR 0xBF] then CHR ''s'' # foldName (drop 1 cs)
      else if c = CHR 0xE2 \<and> take 2 cs = [CHR 0x84, CHR 0xAA] then CHR ''k'' # foldName (drop 2 cs)
      else if 65 \<le> code c \<and> code c \<le> 90 then char_of (code c + 32) # foldName cs
      else c # foldName cs)"

definition field :: "string \<Rightarrow> string \<Rightarrow> bool" where
  "field nam key \<longleftrightarrow> key = nam \<or> foldName key = foldName nam"

definition decodeString :: "json \<Rightarrow> string \<Rightarrow> string \<times> bool" where
  "decodeString j s = (case j of JString t \<Rightarrow> (t, True) | JNull \<Rightarrow> (s, True) | _ \<Rightarrow> (s, False))"

definition decodeStruct :: "(string \<Rightarrow> (json \<Rightarrow> 'a \<Rightarrow> 'a \<times> bool) option) \<Rightarrow> json \<Rightarrow> 'a \<Rightarrow> 'a \<times> bool" where
  "decodeStruct fields j x =
     (case j of
        JNull \<Rightarrow> (x, True)
      | JObject kvs \<Rightarrow>
          foldl (\<lambda>(x, ok) (k, v). case fields k of
              None \<Rightarrow> (x, ok)
            | Some f \<Rightarrow> (case f v x of (x', ok') \<Rightarrow> (x', ok \<and> ok'))) (x, True) kvs
      | _ \<Rightarrow> (x, False))"

definition decodeMap :: "(json \<Rightarrow> 'v \<times> bool) \<Rightarrow> json \<Rightarrow> (string \<times> 'v) list \<Rightarrow> (string \<times> 'v) list \<times> bool" where
  "decodeMap f j m =
     (case j of
        JNull \<Rightarrow> ([], True)
      | JObject kvs \<Rightarrow> foldl (\<lambda>(m, ok) (k, v). case f v of (y, ok') \<Rightarrow> (AList.update k y m, ok \<and> ok')) (m, True) kvs
      | _ \<Rightarrow> (m, False))"

definition Unmarshal :: "(json \<Rightarrow> 'a \<Rightarrow> 'a \<times> bool) \<Rightarrow> string \<Rightarrow> 'a \<Rightarrow> 'a option" where
  "Unmarshal dec s x =
     (case parse_json s of
        None \<Rightarrow> None
      | Some j \<Rightarrow> (case dec j x of (x', ok) \<Rightarrow> if ok then Some x' else None))"

lemma decodeMap_loop:
  "foldl (\<lambda>(m, ok) (k, v). case f v of (y, ok') \<Rightarrow> (AList.update k y m, ok \<and> ok')) (m, b) kvs =
     (foldl (\<lambda>m (k, v). AList.update k (fst (f v)) m) m kvs, b \<and> (\<forall>kv \<in> set kvs. snd (f (snd kv))))"
  by (induction kvs arbitrary: m b) (auto simp: split_def)

lemma updates_map_of:
  "map_of (foldl (\<lambda>m (k, v). AList.update k (g v) m) m kvs) = map_of m ++ map_of (rev (map (map_prod id g) kvs))"
  by (induction kvs arbitrary: m) (auto simp: update_conv' split: prod.splits)

lemma map_of_rev_distinct: "distinct (map fst xs) \<Longrightarrow> map_of (rev xs) = map_of xs"
proof (induction xs)
  case (Cons x xs)
  then have "map_of xs (fst x) = None" by (simp add: map_of_eq_None_iff)
  with Cons show ?case by (auto simp: map_add_def fun_eq_iff split: option.splits)
qed simp

text \<open>A map of decodable values: the last entry of a key wins.\<close>

lemma updates_distinct: "distinct (map fst m) \<Longrightarrow> distinct (map fst (foldl (\<lambda>m (k, v). AList.update k (g v) m) m kvs))"
  by (induction kvs arbitrary: m) (auto simp: distinct_update)

lemma decodeMap_object:
  assumes "\<And>kv. kv \<in> set kvs \<Longrightarrow> snd (f (snd kv))" and "distinct (map fst m)"
  shows "\<exists>m'. decodeMap f (JObject kvs) m = (m', True) \<and> distinct (map fst m')
     \<and> map_of m' = map_of m ++ map_of (rev (map (map_prod id (fst \<circ> f)) kvs))"
  using assms(1) updates_distinct[OF assms(2), of "fst \<circ> f" kvs] updates_map_of[of "fst \<circ> f" m kvs]
  by (simp add: decodeMap_def decodeMap_loop)

end
