(* ===== verification/Registry.thy ===== *)
theory Registry
  imports Base64 Agent_Store Config Go_Json
begin

text \<open>
  \<open>internal/registry\<close>: credentials from a dockerconfigjson secret (\<open>secret.go\<close>), tag resolution
  against the source registry (\<open>resolve.go\<close>) and the push to the backup registry (\<open>push.go\<close>).
  Reference parsing, TLS and the registry protocol itself are arguments (\<open>registry_ops\<close>); so is the
  text of the error \<open>encoding/json\<close> gives for data it rejects. \<open>internal/tlsutil\<close> is here too: it turns certificate files into transport
  credentials.
\<close>

section \<open>secret.go\<close>

record dockerAuth =
  da_Username :: string
  da_Password :: string
  da_Auth :: string

record dockerConfig =
  dc_Auths :: "(string \<times> dockerAuth) list"

definition decodeAuth :: "json \<Rightarrow> dockerAuth \<times> bool" where
  "decodeAuth j =
     decodeStruct (\<lambda>k.
         if field ''username'' k then Some (\<lambda>v a. map_prod (\<lambda>s. a\<lparr>da_Username := s\<rparr>) id (decodeString v (da_Username a)))
         else if field ''password'' k then Some (\<lambda>v a. map_prod (\<lambda>s. a\<lparr>da_Password := s\<rparr>) id (decodeString v (da_Password a)))
         else if field ''auth'' k then Some (\<lambda>v a. map_prod (\<lambda>s. a\<lparr>da_Auth := s\<rparr>) id (decodeString v (da_Auth a)))
         else None)
       j \<lparr>da_Username = '''', da_Password = '''', da_Auth = ''''\<rparr>"

definition decodeConfig :: "json \<Rightarrow> dockerConfig \<Rightarrow> dockerConfig \<times> bool" where
  "decodeConfig =
     decodeStruct (\<lambda>k.
         if field ''auths'' k then Some (\<lambda>v c. map_prod (\<lambda>m. c\<lparr>dc_Auths := m\<rparr>) id (decodeMap decodeAuth v (dc_Auths c)))
         else None)"

definition lookupAuth :: "dockerConfig \<Rightarrow> string \<Rightarrow> dockerAuth option" where
  "lookupAuth cfg registryHost =
     (case map_of (dc_Auths cfg) registryHost of
        Some auth \<Rightarrow> Some auth
      | None \<Rightarrow>
          (case map_of (dc_Auths cfg) (''https://'' @ registryHost) of
             Some auth \<Rightarrow> Some auth
           | None \<Rightarrow> map_of (dc_Auths cfg) (''http://'' @ registryHost)))"

definition ExtractCredentials :: "(string \<Rightarrow> err) \<Rightarrow> string \<Rightarrow> string \<Rightarrow> (string \<times> string) result" where
  "ExtractCredentials jsonErr secretData registryHost =
     (case Unmarshal decodeConfig secretData \<lparr>dc_Auths = []\<rparr> of
        None \<Rightarrow> Inl (wrapf ''parsing dockerconfigjson'' (jsonErr secretData))
      | Some cfg \<Rightarrow>
          (case lookupAuth cfg registryHost of
             None \<Rightarrow> Inl (errorf (''no credentials found for registry '' @ registryHost))
           | Some auth \<Rightarrow>
               if da_Username auth \<noteq> '''' \<and> da_Password auth \<noteq> ''''
               then Inr (da_Username auth, da_Password auth)
               else if da_Auth auth \<noteq> '''' then
                 (case DecodeString (da_Auth auth) of
                    Inl e \<Rightarrow> Inl (wrapf ''decoding auth field'' e)
                  | Inr decoded \<Rightarrow>
                      (case SplitN2 decoded '':'' of
                         [user, pass] \<Rightarrow> Inr (user, pass)
                       | _ \<Rightarrow> Inl (errorf ''invalid auth field format'')))
               else Inl (errorf (''no username/password or auth field for registry '' @ registryHost))))"

section \<open>resolve.go\<close>

text \<open>A transport is the PEM text of its CA pool.\<close>

record 'e HTTPTagResolver =
  tr_AuthFunc :: "(string \<Rightarrow> 'e \<Rightarrow> (string \<times> string) result \<times> 'e) option"
  tr_Transport :: "string option"
  tr_Timeout :: int
  tr_Insecure :: bool

record 'e registry_ops =
  ro_ParseReference :: "string \<Rightarrow> bool \<Rightarrow> string result"
  ro_Head :: "string \<Rightarrow> bool \<Rightarrow> string option \<Rightarrow> (string \<times> string) option \<Rightarrow> int \<Rightarrow> 'e \<Rightarrow> string result \<times> 'e"
  ro_ReadFile :: "string \<Rightarrow> string result"
  ro_AppendCertsFromPEM :: "string \<Rightarrow> bool"
  ro_NewTag :: "string \<Rightarrow> bool \<Rightarrow> unit result"
  ro_TarballImage :: "bytes \<Rightarrow> unit result"
  ro_RemoteWrite :: "string \<Rightarrow> bool \<Rightarrow> bytes \<Rightarrow> (string \<times> string) option \<Rightarrow> 'e \<Rightarrow> unit result \<times> 'e"

definition NewHTTPTagResolver :: "int \<Rightarrow> bool \<Rightarrow> 'e HTTPTagResolver" where
  "NewHTTPTagResolver timeout insecure =
     \<lparr>tr_AuthFunc = None, tr_Transport = None,
      tr_Timeout = (if timeout = 0 then 5 * Second else timeout), tr_Insecure = insecure\<rparr>"

definition WithCA :: "'e registry_ops \<Rightarrow> string \<Rightarrow> 'e HTTPTagResolver \<Rightarrow> unit result \<times> 'e HTTPTagResolver" where
  "WithCA ro caPath r =
     (case ro_ReadFile ro caPath of
        Inl e \<Rightarrow> (Inl (wrapf ''reading CA file'' e), r)
      | Inr caPEM \<Rightarrow>
          if \<not> ro_AppendCertsFromPEM ro caPEM
          then (Inl (errorf (''no valid certificates in CA file '' @ caPath)), r)
          else (Inr (), r\<lparr>tr_Transport := Some caPEM\<rparr>))"

definition notFoundLike :: "err \<Rightarrow> bool" where
  "notFoundLike e = (str_Contains (emsg e) ''MANIFEST_UNKNOWN'' \<or>
     str_Contains (emsg e) ''NOT_FOUND'' \<or> str_Contains (emsg e) ''404'')"

text \<open>The credentials of the request, or the error of the authentication callback.\<close>

definition resolveAuth ::
  "'e HTTPTagResolver \<Rightarrow> string \<Rightarrow> 'e \<Rightarrow> (string \<times> string) option result \<times> 'e" where
  "resolveAuth r host e =
     (case tr_AuthFunc r of
        None \<Rightarrow> (Inr None, e)
      | Some f \<Rightarrow>
          (case f host e of
             (Inl authErr, e') \<Rightarrow> (Inl (wrapf (''getting auth for '' @ host) authErr), e')
           | (Inr (username, password), e') \<Rightarrow>
               (Inr (if username \<noteq> '''' then Some (username, password) else None), e')))"

definition HTTP_ResolveTag ::
  "'e registry_ops \<Rightarrow> (string \<Rightarrow> string) \<Rightarrow> 'e HTTPTagResolver \<Rightarrow> string \<Rightarrow> 'e \<Rightarrow> string result \<times> 'e" where
  "HTTP_ResolveTag ro quote r imageRef e =
     (let timeout = (if tr_Timeout r = 0 then 5 * Second else tr_Timeout r)
      in case ro_ParseReference ro imageRef (tr_Insecure r) of
           Inl er \<Rightarrow> (Inl (wrapf (''parsing image ref '' @ quote imageRef) er), e)
         | Inr host \<Rightarrow>
             (case resolveAuth r host e of
                (Inl er, e1) \<Rightarrow> (Inl er, e1)
              | (Inr auth, e1) \<Rightarrow>
                  (case ro_Head ro imageRef (tr_Insecure r) (tr_Transport r) auth timeout e1 of
                     (Inl er, e2) \<Rightarrow>
                       (if notFoundLike er then (Inr '''', e2)
                        else (Inl (wrapf (''querying registry for '' @ imageRef) er), e2))
                   | (Inr digest, e2) \<Rightarrow> (if digest = '''' then (Inr '''', e2) else (Inr digest, e2)))))"

section \<open>push.go\<close>

text \<open>\<open>exported\<close> is what the export function wrote to the buffer, and its error.\<close>

definition Push ::
  "'e registry_ops \<Rightarrow> (string \<Rightarrow> string) \<Rightarrow> (bytes list \<times> unit result) \<Rightarrow> string \<Rightarrow> string \<Rightarrow> string \<Rightarrow> string \<Rightarrow> bool
     \<Rightarrow> 'e \<Rightarrow> unit result \<times> 'e" where
  "Push ro quote exported digest targetRef username password insecure e =
     (case exported of
        (_, Inl er) \<Rightarrow> (Inl (wrapf (''exporting image '' @ digest) er), e)
      | (writes, Inr _) \<Rightarrow>
          (case ro_NewTag ro targetRef insecure of
             Inl er \<Rightarrow> (Inl (wrapf (''parsing target ref '' @ quote targetRef) er), e)
           | Inr _ \<Rightarrow>
               (case ro_TarballImage ro (concat writes) of
                  Inl er \<Rightarrow> (Inl (wrapf ''reading image tar'' er), e)
                | Inr _ \<Rightarrow>
                    (case ro_RemoteWrite ro targetRef insecure (concat writes)
                            (if username \<noteq> '''' then Some (username, password) else None) e of
                       (Inl er, e') \<Rightarrow> (Inl (wrapf (''pushing to '' @ targetRef) er), e')
                     | (Inr _, e') \<Rightarrow> (Inr (), e')))))"

section \<open>tlsutil.go\<close>

datatype tls_version = VersionTLS12 | VersionTLS13

datatype client_auth = NoClientCert | RequireAndVerifyClientCert

text \<open>The fields the package sets; an empty pool text stands for an unset pool.\<close>

record tls_Config =
  tls_Certificates :: "string list"
  tls_ClientCAs :: "string option"
  tls_RootCAs :: "string option"
  tls_ClientAuth :: client_auth
  tls_ServerName :: string
  tls_MinVersion :: tls_version

text \<open>What a connection is made with: TLS, or \<open>insecure.NewCredentials()\<close> where the credentials are nil.\<close>

datatype TransportCredentials = TLS tls_Config | InsecureCredentials

definition orInsecure :: "tls_Config option \<Rightarrow> TransportCredentials" where
  "orInsecure creds = (case creds of None \<Rightarrow> InsecureCredentials | Some c \<Rightarrow> TLS c)"

lemma orInsecure_simps [simp]: "orInsecure None = InsecureCredentials" "orInsecure (Some c) = TLS c"
  by (simp_all add: orInsecure_def)

lemma orInsecure_iff: "orInsecure c = InsecureCredentials \<longleftrightarrow> c = None"
  by (cases c) simp_all

record tls_ops =
  to_LoadX509KeyPair :: "string \<Rightarrow> string \<Rightarrow> string result"
  to_ReadFile :: "string \<Rightarrow> string result"
  to_AppendCertsFromPEM :: "string \<Rightarrow> bool"

definition ServerCredentials :: "tls_ops \<Rightarrow> string \<Rightarrow> string \<Rightarrow> string \<Rightarrow> tls_Config result" where
  "ServerCredentials t certFile keyFile caFile =
     (case to_LoadX509KeyPair t certFile keyFile of
        Inl e \<Rightarrow> Inl (wrapf ''loading server cert/key'' e)
      | Inr cert \<Rightarrow>
          (case to_ReadFile t caFile of
             Inl e \<Rightarrow> Inl (wrapf ''reading CA cert'' e)
           | Inr caPEM \<Rightarrow>
               if \<not> to_AppendCertsFromPEM t caPEM
               then Inl (errorf (''failed to parse CA cert from '' @ caFile))
               else Inr \<lparr>tls_Certificates = [cert], tls_ClientCAs = Some caPEM, tls_RootCAs = None,
                         tls_ClientAuth = RequireAndVerifyClientCert, tls_ServerName = '''',
                         tls_MinVersion = VersionTLS13\<rparr>))"

definition ClientCredentials :: "tls_ops \<Rightarrow> string \<Rightarrow> string \<Rightarrow> string \<Rightarrow> tls_Config result" where
  "ClientCredentials t certFile keyFile caFile =
     (case to_LoadX509KeyPair t certFile keyFile of
        Inl e \<Rightarrow> Inl (wrapf ''loading client cert/key'' e)
      | Inr cert \<Rightarrow>
          (case to_ReadFile t caFile of
             Inl e \<Rightarrow> Inl (wrapf ''reading CA cert'' e)
           | Inr caPEM \<Rightarrow>
               if \<not> to_AppendCertsFromPEM t caPEM
               then Inl (errorf (''failed to parse CA cert from '' @ caFile))
               else Inr \<lparr>tls_Certificates = [cert], tls_ClientCAs = None, tls_RootCAs = Some caPEM,
                         tls_ClientAuth = NoClientCert, tls_ServerName = ''tote'',
                         tls_MinVersion = VersionTLS13\<rparr>))"

lemma lookupAuth_find:
  "lookupAuth cfg host =
     (case find (\<lambda>k. map_of (dc_Auths cfg) k \<noteq> None) [host, ''https://'' @ host, ''http://'' @ host] of
        None \<Rightarrow> None | Some k \<Rightarrow> map_of (dc_Auths cfg) k)"
  by (auto simp: lookupAuth_def split: option.splits)

section \<open>Secrets as JSON\<close>

text \<open>A \<open>.dockerconfigjson\<close> document: per registry, the fields of its entry.\<close>

definition docker_json :: "(string \<times> (string \<times> string) list) list \<Rightarrow> json" where
  "docker_json entries = JObject [(''auths'', JObject (map (\<lambda>(h, fs). (h, JObject (map (map_prod id JString) fs))) entries))]"

definition secret_text :: "(string \<times> (string \<times> string) list) list \<Rightarrow> string" where
  "secret_text entries = Marshal (docker_json entries)"

definition auth_of :: "(string \<times> string) list \<Rightarrow> dockerAuth" where
  "auth_of fs = fst (decodeAuth (JObject (map (\<lambda>(k, v). (to_valid k, JString (to_valid v))) fs)))"

lemma decodeStruct_ok:
  assumes "\<And>k f v x. fs k = Some f \<Longrightarrow> v \<in> snd ` set kvs \<Longrightarrow> snd (f v x)"
  shows "snd (decodeStruct fs (JObject kvs) x)"
proof -
  have "snd (foldl (\<lambda>(x, ok) (k, v). case fs k of None \<Rightarrow> (x, ok) | Some f \<Rightarrow> (case f v x of (x', ok') \<Rightarrow> (x', ok \<and> ok'))) (x, True) kvs)"
    using assms
  proof (induction kvs arbitrary: x)
    case (Cons kv kvs)
    from Cons.prems have IH: "\<And>x. snd (foldl (\<lambda>(x, ok) (k, v). case fs k of None \<Rightarrow> (x, ok) | Some f \<Rightarrow> (case f v x of (x', ok') \<Rightarrow> (x', ok \<and> ok'))) (x, True) kvs)"
      by (intro Cons.IH) auto
    obtain k v where kv: "kv = (k, v)" by fastforce
    show ?case
    proof (cases "fs k")
      case (Some f)
      obtain x' ok where f: "f v x = (x', ok)" by fastforce
      with Cons.prems[OF Some, of v x] have ok by (simp add: kv)
      with IH Some f show ?thesis by (simp add: kv)
    qed (use IH in \<open>simp add: kv\<close>)
  qed simp
  then show ?thesis by (simp add: decodeStruct_def)
qed

lemma decodeAuth_strings: "snd (decodeAuth (JObject (map (\<lambda>(k, v). (g k, JString (f v))) fs)))"
  unfolding decodeAuth_def
  by (rule decodeStruct_ok) (auto simp: decodeString_def split: if_splits)

lemma docker_fits: "fits maxNestingDepth (docker_json entries)"
  by (auto simp: docker_json_def maxNestingDepth_def)

lemma auths_field [simp]: "field ''auths'' ''auths''"
  by (simp add: field_def)

lemma auth_of_auth: "auth_of [(''auth'', EncodeToString s)] = \<lparr>da_Username = '''', da_Password = '''', da_Auth = EncodeToString s\<rparr>"
proof -
  have "field ''auth'' ''auth''" "\<not> field ''username'' ''auth''" "\<not> field ''password'' ''auth''" by (simp_all add: field_def)
  then show ?thesis
    by (simp add: auth_of_def decodeAuth_def decodeStruct_def decodeString_def to_valid_ascii EncodeToString_ascii del: EncodeToString.simps)
qed

text \<open>Reading the document back: its entries, the last one of each registry.\<close>

lemma Unmarshal_secret:
  "\<exists>m. Unmarshal decodeConfig (secret_text entries) \<lparr>dc_Auths = []\<rparr> = Some \<lparr>dc_Auths = m\<rparr>
     \<and> map_of m = map_of (rev (map (map_prod to_valid auth_of) entries))"
proof -
  let ?kvs = "map (\<lambda>(h, fs). (to_valid h, JObject (map (\<lambda>(k, v). (to_valid k, JString (to_valid v))) fs))) entries"
  have "valid_json (docker_json entries) = JObject [(''auths'', JObject ?kvs)]"
    by (auto simp: docker_json_def to_valid_ascii)
  then have p: "parse_json (secret_text entries) = Some (JObject [(''auths'', JObject ?kvs)])"
    using parse_encode[OF docker_fits, of "[]"] by (simp add: secret_text_def Marshal_def blanks_def)
  have kv: "map (map_prod id (fst \<circ> decodeAuth)) ?kvs = map (map_prod to_valid auth_of) entries"
    by (auto simp: auth_of_def)
  have "\<exists>m. decodeMap decodeAuth (JObject ?kvs) [] = (m, True) \<and> distinct (map fst m) \<and>
      map_of m = map_of [] ++ map_of (rev (map (map_prod id (fst \<circ> decodeAuth)) ?kvs))"
    by (rule decodeMap_object) (auto simp: decodeAuth_strings)
  then obtain m where m: "decodeMap decodeAuth (JObject ?kvs) [] = (m, True)"
    "map_of m = map_of [] ++ map_of (rev (map (map_prod id (fst \<circ> decodeAuth)) ?kvs))" by blast
  have "decodeConfig (JObject [(''auths'', JObject ?kvs)]) \<lparr>dc_Auths = []\<rparr> = (\<lparr>dc_Auths = m\<rparr>, True)"
    unfolding decodeConfig_def decodeStruct_def using m(1) by simp
  with p m(2)[unfolded kv] show ?thesis by (simp add: Unmarshal_def)
qed

section \<open>Properties\<close>

text \<open>C40: a secret in the shape \<open>kubectl\<close> writes gives its credentials back: if one of the registries of the
  document is the backup registry, with the base64 form of \<open>user:password\<close> in its \<open>auth\<close> field, and no
  other entry has its name, then extracting from the document's JSON text yields exactly that user and
  password, for every user name without a colon and every password, whatever bytes they have and
  whatever the other entries are.\<close>

theorem ExtractCredentials_auth_roundtrip:
  assumes "distinct (map (to_valid \<circ> fst) entries)" and "(host, [(''auth'', EncodeToString (user @ '':'' @ pass))]) \<in> set entries"
    and "to_valid host = host" and "CHR '':'' \<notin> set user"
  shows "ExtractCredentials jsonErr (secret_text entries) host = Inr (user, pass)"
proof -
  let ?auth = "EncodeToString (user @ '':'' @ pass)"
  obtain m where m: "Unmarshal decodeConfig (secret_text entries) \<lparr>dc_Auths = []\<rparr> = Some \<lparr>dc_Auths = m\<rparr>"
    "map_of m = map_of (rev (map (map_prod to_valid auth_of) entries))" using Unmarshal_secret by blast
  have "map_of m = map_of (map (map_prod to_valid auth_of) entries)"
    unfolding m(2) using assms(1) by (intro map_of_rev_distinct) (simp add: comp_def)
  moreover have "(host, auth_of [(''auth'', ?auth)]) \<in> set (map (map_prod to_valid auth_of) entries)"
    using assms(2,3) by force
  ultimately have "map_of m host = Some (auth_of [(''auth'', ?auth)])" using assms(1) by (simp add: comp_def)
  then have "lookupAuth \<lparr>dc_Auths = m\<rparr> host = Some \<lparr>da_Username = '''', da_Password = '''', da_Auth = ?auth\<rparr>"
    by (simp add: lookupAuth_def auth_of_auth)
  moreover have "?auth \<noteq> ''''"
    using DecodeString_EncodeToString[of "user @ '':'' @ pass"] by (auto simp: DecodeString_def)
  ultimately show ?thesis
    using m(1) assms(4) by (simp add: ExtractCredentials_def DecodeString_EncodeToString SplitN2_char_in)
qed

theorem ExtractCredentials_auth_roundtrip_witness:
  "ExtractCredentials (\<lambda>s. errorf ''json'') (secret_text [(''docker.io'', [(''username'', ''amy'')]),
      (''reg.io'', [(''auth'', EncodeToString (''bob'' @ '':'' @ ''p:w''))])]) ''reg.io'' = Inr (''bob'', ''p:w'')"
  by (rule ExtractCredentials_auth_roundtrip) (simp_all add: to_valid_ascii)

text \<open>Credentials come from the bare host entry whenever there is one, otherwise from the https and
  then the http entry, and are refused with an error when none exists; plain user name and password
  win over the auth field, and an entry with neither is an error.\<close>

theorem ExtractCredentials_precedence:
  assumes "Unmarshal decodeConfig data \<lparr>dc_Auths = []\<rparr> = Some cfg"
  shows "ExtractCredentials jsonErr data host =
     (case find (\<lambda>k. map_of (dc_Auths cfg) k \<noteq> None) [host, ''https://'' @ host, ''http://'' @ host] of
        None \<Rightarrow> Inl (errorf (''no credentials found for registry '' @ host))
      | Some k \<Rightarrow>
          (let auth = the (map_of (dc_Auths cfg) k)
           in if da_Username auth \<noteq> '''' \<and> da_Password auth \<noteq> ''''
              then Inr (da_Username auth, da_Password auth)
              else if da_Auth auth = '''' then Inl (errorf (''no username/password or auth field for registry '' @ host))
              else case DecodeString (da_Auth auth) of
                     Inl e \<Rightarrow> Inl (wrapf ''decoding auth field'' e)
                   | Inr s \<Rightarrow> if CHR '':'' \<in> set s
                        then Inr (takeWhile (\<lambda>c. c \<noteq> CHR '':'') s, tl (dropWhile (\<lambda>c. c \<noteq> CHR '':'') s))
                        else Inl (errorf ''invalid auth field format'')))"
proof -
  have sp: "(case SplitN2 s '':'' of [user, pass] \<Rightarrow> Inr (user, pass) | _ \<Rightarrow> Inl (errorf ''invalid auth field format'')) =
      (if CHR '':'' \<in> set s then Inr (takeWhile (\<lambda>c. c \<noteq> CHR '':'') s, tl (dropWhile (\<lambda>c. c \<noteq> CHR '':'') s))
       else Inl (errorf ''invalid auth field format''))" for s
  proof (cases "CHR '':'' \<in> set s")
    case True
    then obtain xs ys where "s = xs @ CHR '':'' # ys" and xs: "CHR '':'' \<notin> set xs" by (metis split_list_first)
    moreover from xs have "takeWhile (\<lambda>c. c \<noteq> CHR '':'') (xs @ CHR '':'' # ys) = xs"
      "dropWhile (\<lambda>c. c \<noteq> CHR '':'') (xs @ CHR '':'' # ys) = CHR '':'' # ys"
      by (auto simp: takeWhile_append dropWhile_append)
    ultimately show ?thesis by (simp add: SplitN2_char_in)
  qed (simp add: SplitN2_char_notin)
  show ?thesis
  proof (cases "find (\<lambda>k. map_of (dc_Auths cfg) k \<noteq> None) [host, ''https://'' @ host, ''http://'' @ host]")
    case None
    then show ?thesis by (simp only: ExtractCredentials_def lookupAuth_find assms option.case)
  next
    case (Some k)
    then have "map_of (dc_Auths cfg) k \<noteq> None" unfolding find_Some_iff by blast
    then obtain auth where auth: "map_of (dc_Auths cfg) k = Some auth" by blast
    show ?thesis
      unfolding ExtractCredentials_def lookupAuth_find Some assms option.case auth
      by (simp add: Let_def sp split: sum.splits)
  qed
qed

text \<open>A tag lookup answers with a digest, with the empty string, or with an error; the empty string
  means that the registry's error looked like a 404 or that it named no digest, and an error of the
  authentication callback or any other registry error is never turned into "not found".\<close>

theorem HTTP_ResolveTag_outcomes:
  assumes "ro_ParseReference ro imageRef (tr_Insecure r) = Inr host"
    and "resolveAuth r host e = (Inr auth, e1)"
    and "ro_Head ro imageRef (tr_Insecure r) (tr_Transport r) auth
           (if tr_Timeout r = 0 then 5 * Second else tr_Timeout r) e1 = (res, e2)"
  shows "HTTP_ResolveTag ro quote r imageRef e =
     ((case res of
         Inr digest \<Rightarrow> Inr digest
       | Inl er \<Rightarrow> if sublist ''MANIFEST_UNKNOWN'' (emsg er) \<or> sublist ''NOT_FOUND'' (emsg er) \<or> sublist ''404'' (emsg er)
                   then Inr '''' else Inl (wrapf (''querying registry for '' @ imageRef) er)), e2)"
  using assms
  by (simp add: HTTP_ResolveTag_def notFoundLike_def str_Contains_iff Let_def split: sum.splits)

definition example_registry :: "'e registry_ops" where
  "example_registry = \<lparr>ro_ParseReference = (\<lambda>r i. Inr ''reg.io''),
     ro_Head = (\<lambda>r i t a n. Pair (Inl (errorf ''GET: MANIFEST_UNKNOWN: gone''))),
     ro_ReadFile = (\<lambda>p. Inr ''pem''), ro_AppendCertsFromPEM = (\<lambda>p. True), ro_NewTag = (\<lambda>r i. Inr ()),
     ro_TarballImage = (\<lambda>b. Inr ()), ro_RemoteWrite = (\<lambda>r i b a. Pair (Inr ()))\<rparr>"

theorem HTTP_ResolveTag_outcomes_witness:
  "HTTP_ResolveTag example_registry id (NewHTTPTagResolver 0 False) ''reg.io/app:v1'' () = (Inr '''', ())"
proof -
  have "sublist ''MANIFEST_UNKNOWN'' ''GET: MANIFEST_UNKNOWN: gone''"
    unfolding sublist_def by (rule exI[of _ "''GET: ''"], rule exI[of _ "'': gone''"]) simp
  then show ?thesis
    using HTTP_ResolveTag_outcomes[of example_registry "''reg.io/app:v1''" "NewHTTPTagResolver 0 False" "''reg.io''"
        "()" None "()" "Inl (errorf ''GET: MANIFEST_UNKNOWN: gone'')" "()" id]
    by (simp add: example_registry_def NewHTTPTagResolver_def resolveAuth_def)
qed

text \<open>Transport credentials exist only when the key pair loads and the CA file yields a certificate;
  the server's then require and verify a client certificate against that CA, the client's verify
  the server against it under the name "tote", and both insist on TLS 1.3.\<close>

theorem tls_credentials_mutual:
  "(case ServerCredentials t cert key ca of
      Inl e \<Rightarrow> \<not> is_ok (to_LoadX509KeyPair t cert key) \<or> \<not> is_ok (to_ReadFile t ca)
               \<or> (\<exists>pem. to_ReadFile t ca = Inr pem \<and> \<not> to_AppendCertsFromPEM t pem)
    | Inr c \<Rightarrow> \<exists>kp pem. to_LoadX509KeyPair t cert key = Inr kp \<and> to_ReadFile t ca = Inr pem \<and> to_AppendCertsFromPEM t pem
               \<and> tls_Certificates c = [kp] \<and> tls_ClientCAs c = Some pem
               \<and> tls_ClientAuth c = RequireAndVerifyClientCert \<and> tls_MinVersion c = VersionTLS13)
   \<and> (case ClientCredentials t cert key ca of
      Inl e \<Rightarrow> \<not> is_ok (to_LoadX509KeyPair t cert key) \<or> \<not> is_ok (to_ReadFile t ca)
               \<or> (\<exists>pem. to_ReadFile t ca = Inr pem \<and> \<not> to_AppendCertsFromPEM t pem)
    | Inr c \<Rightarrow> \<exists>kp pem. to_LoadX509KeyPair t cert key = Inr kp \<and> to_ReadFile t ca = Inr pem \<and> to_AppendCertsFromPEM t pem
               \<and> tls_Certificates c = [kp] \<and> tls_RootCAs c = Some pem
               \<and> tls_ServerName c = ''tote'' \<and> tls_MinVersion c = VersionTLS13)"
  by (simp add: ServerCredentials_def ClientCredentials_def split: sum.splits)

end
