(* ===== verification/Go_Time.thy ===== *)
theory Go_Time
  imports Config
begin

text \<open>
  What the program uses of Go's \<open>time\<close> package: \<open>Time.UTC().Format(time.RFC3339)\<close>, by which the completion time
  of a salvage is written (\<open>internal/transfer/transfer.go\<close>) and a notification is stamped (\<open>internal/notify/webhook.go\<close>),
  and \<open>time.Parse(time.RFC3339, s)\<close>, by which the reaper reads it back (\<open>internal/cleanup/cleanup.go\<close>). A time is the
  number of nanoseconds since 1970-01-01T00:00:00Z. The formatter splits it into a Gregorian date and a time of
  day; the parser is Go's general one for that layout, with its tolerances: an hour of one digit, a fraction of a second
  after a period or a comma, and offsets up to 24:60. The main lemma is the round trip for the years 0 to 9999.
\<close>

section \<open>The Gregorian calendar\<close>

definition is_leap :: "int \<Rightarrow> bool" where
  "is_leap y \<longleftrightarrow> 4 dvd y \<and> (\<not> 100 dvd y \<or> 400 dvd y)"

definition month_lengths :: "int \<Rightarrow> nat list" where
  "month_lengths y = [31, if is_leap y then 29 else 28, 31, 30, 31, 30, 31, 31, 30, 31, 30, 31]"

text \<open>Days from 0001-01-01 to the first day of a year, and to 1970-01-01.\<close>

definition days_before_year :: "int \<Rightarrow> int" where
  "days_before_year y = 365 * (y - 1) + (y - 1) div 4 - (y - 1) div 100 + (y - 1) div 400"

definition unix_epoch_day :: int where
  "unix_epoch_day = 719162"

definition day_number :: "int \<Rightarrow> nat \<Rightarrow> nat \<Rightarrow> int" where
  "day_number y m d = days_before_year y + int (sum_list (take (m - 1) (month_lengths y))) + int d - 1 - unix_epoch_day"

text \<open>The year of a day and the day within it, by cycles of 400, 100, 4 years and 1 year; the last century of 400
  years and the last year of 4 have one day more.\<close>

definition year_day :: "int \<Rightarrow> int \<times> int" where
  "year_day k =
     (let a = k div 146097; r = k mod 146097;
          b = min 3 (r div 36524); r = r - 36524 * b;
          c = r div 1461; r = r mod 1461;
          e = min 3 (r div 365)
      in (400 * a + 100 * b + 4 * c + e + 1, r - 365 * e))"

text \<open>The month (from 0) and the day within it (from 0).\<close>

fun split_month :: "nat list \<Rightarrow> nat \<Rightarrow> nat \<times> nat" where
  "split_month [] n = (0, n)"
| "split_month (len # lens) n =
     (if n < len then (0, n) else (case split_month lens (n - len) of (m, d) \<Rightarrow> (Suc m, d)))"

definition civil :: "int \<Rightarrow> int \<times> nat \<times> nat" where
  "civil day = (case year_day (day + unix_epoch_day) of (y, yd) \<Rightarrow>
     (case split_month (month_lengths y) (nat yd) of (m, d) \<Rightarrow> (y, Suc m, Suc d)))"

lemma dvd_succ_iff:
  fixes n x :: int
  assumes "0 < n"
  shows "n dvd (x + 1) \<longleftrightarrow> x mod n = n - 1"
proof -
  have q: "0 \<le> x mod n" "x mod n < n" using assms by simp_all
  have "n dvd (x + 1) \<longleftrightarrow> (x mod n + 1) mod n = 0" by (simp add: dvd_eq_mod_eq_0 mod_add_left_eq)
  also have "\<dots> \<longleftrightarrow> x mod n = n - 1" using q by (cases "x mod n + 1 = n") (auto simp: mod_pos_pos_trivial)
  finally show ?thesis .
qed

lemma year_split:
  fixes a b c e :: int
  assumes "0 \<le> b" "b \<le> 3" "0 \<le> c" "c \<le> 24" "0 \<le> e" "e \<le> 3"
  shows "days_before_year (400 * a + 100 * b + 4 * c + e + 1) = 146097 * a + 36524 * b + 1461 * c + 365 * e"
    and "is_leap (400 * a + 100 * b + 4 * c + e + 1) \<longleftrightarrow> e = 3 \<and> (c \<noteq> 24 \<or> b = 3)"
proof -
  let ?p = "400 * a + 100 * b + 4 * c + e"
  have d: "?p div 4 = 100 * a + 25 * b + c" by (rule int_div_pos_eq[where r = e]) (use assms in auto)
  have h: "?p div 100 = 4 * a + b" by (rule int_div_pos_eq[where r = "4 * c + e"]) (use assms in auto)
  have f: "?p div 400 = a" by (rule int_div_pos_eq[where r = "100 * b + 4 * c + e"]) (use assms in auto)
  show "days_before_year (?p + 1) = 146097 * a + 36524 * b + 1461 * c + 365 * e" by (simp add: days_before_year_def d h f)
  have m: "?p mod 4 = e" "?p mod 100 = 4 * c + e" "?p mod 400 = 100 * b + 4 * c + e"
    by (simp_all only: minus_div_mult_eq_mod[symmetric] d h f) simp_all
  have "4 dvd (?p + 1) \<longleftrightarrow> e = 3" "100 dvd (?p + 1) \<longleftrightarrow> c = 24 \<and> e = 3" "400 dvd (?p + 1) \<longleftrightarrow> b = 3 \<and> c = 24 \<and> e = 3"
    using assms by (simp_all add: dvd_succ_iff m) presburger+
  then show "is_leap (?p + 1) \<longleftrightarrow> e = 3 \<and> (c \<noteq> 24 \<or> b = 3)" by (auto simp: is_leap_def)
qed

lemma div_succ:
  fixes n x :: int
  assumes "0 < n"
  shows "(x + 1) div n = x div n + (if n dvd (x + 1) then 1 else 0)"
proof -
  have q: "0 \<le> x mod n" "x mod n < n" "x = n * (x div n) + x mod n" using assms by simp_all
  show ?thesis
  proof (cases "n dvd (x + 1)")
    case True
    then have "x + 1 = n * (x div n + 1) + 0" using dvd_succ_iff[OF assms, of x] q(3) by (simp only: distrib_left)
    then show ?thesis using True assms by (subst int_div_pos_eq[where r = 0 and q = "x div n + 1"]) simp_all
  next
    case False
    then have "x mod n \<noteq> n - 1" using dvd_succ_iff[OF assms] by simp
    then show ?thesis using False q by (subst int_div_pos_eq[where r = "x mod n + 1" and q = "x div n"]) auto
  qed
qed

lemma days_before_next_year: "days_before_year (y + 1) = days_before_year y + (if is_leap y then 366 else 365)"
proof -
  have dvd: "100 dvd y \<Longrightarrow> 4 dvd y" "400 dvd y \<Longrightarrow> 100 dvd y" by (auto elim!: dvd_trans[rotated])
  define a b c where "a = (y - 1) div 4" and "b = (y - 1) div 100" and "c = (y - 1) div 400"
  have s: "y div n = (y - 1) div n + (if n dvd y then 1 else 0)" if "0 < n" for n
    using div_succ[OF that, of "y - 1"] by (simp only: diff_add_cancel)
  have "y div 4 = a + (if 4 dvd y then 1 else 0)" "y div 100 = b + (if 100 dvd y then 1 else 0)" "y div 400 = c + (if 400 dvd y then 1 else 0)"
    unfolding a_def b_def c_def by (rule s, simp)+
  then have "days_before_year (y + 1) = 365 * y + (a + (if 4 dvd y then 1 else 0)) - (b + (if 100 dvd y then 1 else 0))
      + (c + (if 400 dvd y then 1 else 0))"
    by (simp only: days_before_year_def add_diff_cancel_right')
  also have "365 * y + (a + (if P then 1 else 0)) - (b + (if Q then 1 else 0)) + (c + (if R then 1 else 0))
      = 365 * (y - 1) + a - b + c + (if P \<and> (\<not> Q \<or> R) then 366 else 365)" if "Q \<Longrightarrow> P" "R \<Longrightarrow> Q" for P Q R
    using that by auto
  note this[OF dvd]
  also have "365 * (y - 1) + a - b + c = days_before_year y" by (simp only: days_before_year_def a_def b_def c_def)
  finally show ?thesis by (simp only: is_leap_def)
qed

lemma days_before_year_mono: "y \<le> z \<Longrightarrow> days_before_year y \<le> days_before_year z"
proof (induction z rule: int_ge_induct)
  case (step z)
  then show ?case by (simp add: days_before_next_year)
qed simp

lemma year_day_correct:
  assumes "year_day k = (y, yd)"
  shows "days_before_year y + yd = k" and "0 \<le> yd" and "yd < (if is_leap y then 366 else 365)"
proof -
  define a r where "a = k div 146097" and "r = k mod 146097"
  define b where "b = min 3 (r div 36524)"
  define s where "s = r - 36524 * b"
  define c t where "c = s div 1461" and "t = s mod 1461"
  define e where "e = min 3 (t div 365)"
  have y: "y = 400 * a + 100 * b + 4 * c + e + 1" "yd = t - 365 * e"
    using assms by (simp_all add: year_day_def Let_def a_def r_def b_def s_def c_def t_def e_def)
  have r: "0 \<le> r" "r < 146097" "k = 146097 * a + r" by (simp_all add: a_def r_def)
  have b: "0 \<le> b" "b \<le> 3" using r by (simp_all add: b_def pos_imp_zdiv_nonneg_iff)
  have s: "0 \<le> s" "s \<le> 36524" "b < 3 \<Longrightarrow> s < 36524" using r by (auto simp: s_def b_def min_def)
  have t: "0 \<le> t" "t < 1461" "s = 1461 * c + t" by (simp_all add: t_def c_def)
  have c: "0 \<le> c" "c \<le> 24" using s t by auto
  have e: "0 \<le> e" "e \<le> 3" "0 \<le> t - 365 * e" "t - 365 * e \<le> 365" "e < 3 \<Longrightarrow> t - 365 * e < 365"
    using t by (auto simp: e_def min_def pos_imp_zdiv_nonneg_iff)
  note split = year_split[OF b c e(1,2)]
  show "days_before_year y + yd = k" using split(1) y r t by (simp add: s_def)
  show "0 \<le> yd" using y e by simp
  have "b \<noteq> 3 \<Longrightarrow> c = 24 \<Longrightarrow> t < 1460" using s t b by auto
  moreover have "\<not> is_leap y \<Longrightarrow> e < 3 \<or> b \<noteq> 3 \<and> c = 24" using split(2) y(1) e(2) by auto
  ultimately have "\<not> is_leap y \<Longrightarrow> yd < 365" using y(2) e(2,4,5) by (cases "e < 3") auto
  then show "yd < (if is_leap y then 366 else 365)" using y e by auto
qed

lemma split_month_correct:
  "split_month lens n = (m, d) \<Longrightarrow> n < sum_list lens \<Longrightarrow> m < length lens \<and> d < lens ! m \<and> n = sum_list (take m lens) + d"
proof (induction lens n arbitrary: m d rule: split_month.induct)
  case (2 len lens n)
  show ?case
  proof (cases "n < len")
    case False
    then obtain m' where m': "split_month lens (n - len) = (m', d)" "m = Suc m'"
      using 2(2) by (auto split: prod.splits)
    have "n - len < sum_list lens" using 2(3) False by simp
    from 2(1)[OF False m'(1) this] False m'(2) show ?thesis by auto
  qed (use 2(2) in auto)
qed simp

lemma month_lengths_sum: "sum_list (month_lengths y) = (if is_leap y then 366 else 365)"
  by (simp add: month_lengths_def)

text \<open>A day is the day of its date, and the date is one of the calendar.\<close>

lemma civil_correct:
  assumes "civil day = (y, m, d)"
  shows "day_number y m d = day" and "1 \<le> m" and "m \<le> 12" and "1 \<le> d" and "d \<le> month_lengths y ! (m - 1)"
proof -
  obtain yd where yd: "year_day (day + unix_epoch_day) = (y, yd)"
    and md: "split_month (month_lengths y) (nat yd) = (m - 1, d - 1)" and pos: "1 \<le> m" "1 \<le> d"
    using assms by (auto simp: civil_def split: prod.splits)
  note y = year_day_correct[OF yd]
  have "nat yd < sum_list (month_lengths y)" using y(2,3) by (auto simp: month_lengths_sum split: if_splits)
  note c = split_month_correct[OF md this]
  show "day_number y m d = day" using y(1,2) c pos by (simp add: day_number_def nat_eq_iff)
  show "1 \<le> m" "1 \<le> d" by (rule pos)+
  show "m \<le> 12" using c pos by (auto simp: month_lengths_def)
  show "d \<le> month_lengths y ! (m - 1)" using c pos by linarith
qed

text \<open>From 1970 to 9999.\<close>

lemma civil_year:
  assumes "0 \<le> day" and "day < 2932897" and "civil day = (y, m, d)"
  shows "1970 \<le> y \<and> y \<le> 9999"
proof -
  obtain yd where yd: "year_day (day + unix_epoch_day) = (y, yd)"
    using assms(3) by (auto simp: civil_def split: prod.splits)
  note c = year_day_correct[OF yd]
  have "days_before_year y \<le> day + unix_epoch_day" "day + unix_epoch_day < days_before_year (y + 1)"
    using c by (auto simp: days_before_next_year)
  moreover have "days_before_year 1970 = unix_epoch_day" "days_before_year 10000 = 2932897 + unix_epoch_day"
    by (simp_all add: days_before_year_def unix_epoch_day_def)
  ultimately have "\<not> y + 1 \<le> 1970" "\<not> 10000 \<le> y"
    using assms(1,2) days_before_year_mono[of "y + 1" 1970] days_before_year_mono[of 10000 y] by auto
  then show ?thesis by simp
qed

section \<open>Format\<close>

definition appendInt :: "int \<Rightarrow> nat \<Rightarrow> string" where
  "appendInt x width =
     (let ds = fmt_nat (nat \<bar>x\<bar>)
      in (if x < 0 then ''-'' else '''') @ replicate (width - length ds) CHR ''0'' @ ds)"

definition format_RFC3339 :: "int \<Rightarrow> string" where
  "format_RFC3339 t =
     (let secs = t div Second; sod = secs mod 86400
      in case civil (secs div 86400) of (y, m, d) \<Rightarrow>
           appendInt y 4 @ ''-'' @ appendInt (int m) 2 @ ''-'' @ appendInt (int d) 2 @ ''T'' @
           appendInt (sod div 3600) 2 @ '':'' @ appendInt (sod div 60 mod 60) 2 @ '':'' @ appendInt (sod mod 60) 2 @ ''Z'')"

section \<open>Parse\<close>

definition is_digit :: "char \<Rightarrow> bool" where
  "is_digit c \<longleftrightarrow> (48::nat) \<le> of_char c \<and> of_char c \<le> (57::nat)"

definition digit_val :: "char \<Rightarrow> nat" where
  "digit_val c = of_char c - 48"

definition atoi :: "string \<Rightarrow> nat" where
  "atoi ds = foldl (\<lambda>n c. 10 * n + digit_val c) 0 ds"

text \<open>One or two digits; exactly two if \<open>fixed\<close>.\<close>

definition getnum :: "bool \<Rightarrow> string \<Rightarrow> (nat \<times> string) option" where
  "getnum fixed s = (case s of
       [] \<Rightarrow> None
     | c # cs \<Rightarrow>
         if \<not> is_digit c then None
         else (case cs of
             [] \<Rightarrow> if fixed then None else Some (digit_val c, cs)
           | d # ds \<Rightarrow>
               if \<not> is_digit d then (if fixed then None else Some (digit_val c, cs))
               else Some (10 * digit_val c + digit_val d, ds)))"

definition getYear :: "string \<Rightarrow> (nat \<times> string) option" where
  "getYear s = (if length s < 4 \<or> \<not> list_all is_digit (take 4 s) then None else Some (atoi (take 4 s), drop 4 s))"

definition skip :: "char \<Rightarrow> string \<Rightarrow> string option" where
  "skip c s = (case s of [] \<Rightarrow> None | x # xs \<Rightarrow> if x = c then Some xs else None)"

definition guard :: "bool \<Rightarrow> unit option" where
  "guard b = (if b then Some () else None)"

text \<open>Nanoseconds of a fraction: at most nine digits count.\<close>

definition parseNanoseconds :: "string \<Rightarrow> nat" where
  "parseNanoseconds ds = atoi (take 9 ds) * 10 ^ (9 - length (take 9 ds))"

definition getFraction :: "string \<Rightarrow> nat \<times> string" where
  "getFraction s = (case s of
       c # d # rest \<Rightarrow>
         if (c = CHR ''.'' \<or> c = CHR '','') \<and> is_digit d
         then (parseNanoseconds (takeWhile is_digit (d # rest)), dropWhile is_digit (d # rest))
         else (0, s)
     | _ \<Rightarrow> (0, s))"

text \<open>Seconds east of UTC.\<close>

definition getZone :: "string \<Rightarrow> (int \<times> string) option" where
  "getZone s =
     (if s \<noteq> [] \<and> hd s = CHR ''Z'' then Some (0, tl s)
      else if length s < 6 \<or> s ! 3 \<noteq> CHR '':'' then None
      else do {
        (hr, _) \<leftarrow> getnum True (take 2 (drop 1 s));
        (mm, _) \<leftarrow> getnum True (take 2 (drop 4 s));
        guard (hr \<le> 24 \<and> mm \<le> 60);
        (if hd s = CHR ''+'' then Some (int (hr * 3600 + mm * 60), drop 6 s)
         else if hd s = CHR ''-'' then Some (- int (hr * 3600 + mm * 60), drop 6 s)
         else None)
      })"

definition parseTime :: "string \<Rightarrow> int option" where
  "parseTime s = do {
     (year, s) \<leftarrow> getYear s;
     s \<leftarrow> skip CHR ''-'' s;
     (month, s) \<leftarrow> getnum True s;
     guard (1 \<le> month \<and> month \<le> 12);
     s \<leftarrow> skip CHR ''-'' s;
     (day, s) \<leftarrow> getnum True s;
     s \<leftarrow> skip CHR ''T'' s;
     (hour, s) \<leftarrow> getnum False s;
     guard (hour < 24);
     s \<leftarrow> skip CHR '':'' s;
     (minute, s) \<leftarrow> getnum True s;
     guard (minute < 60);
     s \<leftarrow> skip CHR '':'' s;
     (sec, s) \<leftarrow> getnum True s;
     guard (sec < 60);
     let (nsec, s) = getFraction s;
     (offset, s) \<leftarrow> getZone s;
     guard (s = []);
     guard (1 \<le> day \<and> day \<le> month_lengths (int year) ! (month - 1));
     Some ((day_number (int year) month day * 86400 + int (hour * 3600 + minute * 60 + sec) - offset) * Second + int nsec)
   }"

definition parse_RFC3339 :: "string \<Rightarrow> int result" where
  "parse_RFC3339 s = (case parseTime s of None \<Rightarrow> Inl (errorf (''parsing time '' @ s)) | Some t \<Rightarrow> Inr t)"

section \<open>Round trip\<close>

lemma digit_char [simp]:
  assumes "n < 10"
  shows "is_digit (char_of (48 + n))" and "digit_val (char_of (48 + n)) = n"
  using assms by (simp_all add: is_digit_def digit_val_def)

lemma fmt_nat_small: "n < 10 \<Longrightarrow> fmt_nat n = [char_of (48 + n)]"
  by (subst fmt_nat.simps) simp

lemma fmt_nat_step: "10 \<le> n \<Longrightarrow> fmt_nat n = fmt_nat (n div 10) @ [char_of (48 + n mod 10)]"
  by (subst fmt_nat.simps) simp

lemma zero_char: "CHR ''0'' = char_of (48 + 0 :: nat)"
  by (simp add: char_of_def bit_numeral_rec bit_Suc_0_iff)

text \<open>Padding a number that has room gives its digits one by one.\<close>

fun digits :: "nat \<Rightarrow> nat \<Rightarrow> string" where
  "digits 0 n = []"
| "digits (Suc w) n = digits w (n div 10) @ [char_of (48 + n mod 10)]"

lemma digits_length [simp]: "length (digits w n) = w"
  by (induction w arbitrary: n) simp_all

lemma digits_zero: "digits w 0 = replicate w (char_of (48 + 0 :: nat))"
  by (induction w) (simp_all add: replicate_append_same)

lemma digits_padded: "0 < w \<Longrightarrow> n < 10 ^ w \<Longrightarrow> replicate (w - length (fmt_nat n)) (char_of (48 + 0 :: nat)) @ fmt_nat n = digits w n"
proof (induction w arbitrary: n)
  case (Suc w)
  show ?case
  proof (cases "n < 10")
    case True
    then show ?thesis by (simp add: fmt_nat_small digits_zero)
  next
    case False
    then have "0 < w" using Suc.prems by (cases w) auto
    moreover have "n div 10 < 10 ^ w" using Suc.prems by (simp add: less_mult_imp_div_less mult.commute)
    ultimately show ?thesis using Suc.IH[of "n div 10"] False by (simp add: fmt_nat_step)
  qed
qed simp

lemma appendInt_digits: "0 < w \<Longrightarrow> 0 \<le> x \<Longrightarrow> x < 10 ^ w \<Longrightarrow> appendInt x w = digits w (nat x)"
  using digits_padded[of w "nat x"] by (simp add: appendInt_def Let_def zero_char nat_less_iff)

lemma digits_digit: "list_all is_digit (digits w n)"
  by (induction w arbitrary: n) simp_all

lemma atoi_snoc: "atoi (ds @ [c]) = 10 * atoi ds + digit_val c"
  by (simp add: atoi_def)

lemma atoi_digits: "n < 10 ^ w \<Longrightarrow> atoi (digits w n) = n"
proof (induction w arbitrary: n)
  case (Suc w)
  then have "n div 10 < 10 ^ w" by (simp add: less_mult_imp_div_less mult.commute)
  from Suc.IH[OF this] show ?case by (simp add: atoi_snoc)
qed (simp add: atoi_def)

lemma getYear_digits: "n < 10000 \<Longrightarrow> getYear (digits 4 n @ s) = Some (n, s)"
  using atoi_digits[of n 4] by (simp add: getYear_def digits_digit)

lemma getnum_digits: "n < 100 \<Longrightarrow> getnum fixed (digits 2 n @ s) = Some (n, s)"
  by (simp add: getnum_def numeral_2_eq_2)

lemma skip_Cons [simp]: "skip c (c # s) = Some s"
  by (simp add: skip_def)

lemma guard_simps [simp]: "guard True = Some ()" "guard False = None"
  by (simp_all add: guard_def)

lemma time_of_day:
  fixes s :: int
  assumes "0 \<le> s"
  shows "int (nat (s div 3600) * 3600 + nat (s div 60 mod 60) * 60 + nat (s mod 60)) = s"
proof -
  have "s div 3600 = s div 60 div 60" using zdiv_zmult2_eq[of 60 s 60] by simp
  then have "s div 3600 * 3600 + s div 60 mod 60 * 60 + s mod 60 = (s div 60 div 60 * 60 + s div 60 mod 60) * 60 + s mod 60"
    by (simp only: distrib_right mult.assoc)
  also have "\<dots> = s" by (simp only: div_mult_mod_eq)
  finally show ?thesis using assms by (simp only: of_nat_add of_nat_mult nat_0_le pos_imp_zdiv_nonneg_iff)
qed

lemma parse_format_year:
  assumes "fst (civil (t div Second div 86400)) \<in> {0..9999}"
  shows "parse_RFC3339 (format_RFC3339 t) = Inr (t - t mod Second)"
proof -
  define secs where "secs = t div Second"
  define sod where "sod = secs mod 86400"
  obtain y m d where ymd: "civil (secs div 86400) = (y, m, d)" by (metis surj_pair)
  note c = civil_correct[OF ymd]
  have y: "0 \<le> y" "y < 10 ^ 4" using assms ymd by (simp_all add: secs_def)
  have "m = 1 \<or> m = 2 \<or> m = 3 \<or> m = 4 \<or> m = 5 \<or> m = 6 \<or> m = 7 \<or> m = 8 \<or> m = 9 \<or> m = 10 \<or> m = 11 \<or> m = 12"
    using c(2,3) by arith
  then have "month_lengths y ! (m - 1) \<le> 31" by (elim disjE) (simp_all add: month_lengths_def numeral_eq_Suc)
  then have md: "m < 100" "d < 100" using c by simp_all
  have sod: "0 \<le> sod" "sod < 86400" by (simp_all add: sod_def)
  define h mi sc where "h = nat (sod div 3600)" and "mi = nat (sod div 60 mod 60)" and "sc = nat (sod mod 60)"
  have nn: "0 \<le> sod div 3600" "0 \<le> sod div 60 mod 60" "0 \<le> sod mod 60" using sod(1) by (simp_all add: pos_imp_zdiv_nonneg_iff)
  have lt: "sod div 3600 < 24" "sod div 60 mod 60 < 60" "sod mod 60 < 60" using sod(2) by simp_all
  have hms: "h < 24" "mi < 60" "sc < 60" using nn lt by (simp_all only: h_def mi_def sc_def nat_less_iff)
  have tod: "int (h * 3600 + mi * 60 + sc) = sod" unfolding h_def mi_def sc_def by (rule time_of_day[OF sod(1)])
  have f: "format_RFC3339 t = digits 4 (nat y) @ CHR ''-'' # digits 2 m @ CHR ''-'' # digits 2 d @ CHR ''T'' #
      digits 2 h @ CHR '':'' # digits 2 mi @ CHR '':'' # digits 2 sc @ ''Z''"
  proof -
    have "appendInt y 4 = digits 4 (nat y)" "appendInt (int m) 2 = digits 2 m" "appendInt (int d) 2 = digits 2 d"
      using y md by (simp_all add: appendInt_digits)
    moreover have two: "appendInt x 2 = digits 2 (nat x)" if "0 \<le> x" "x < 60" for x using that by (simp add: appendInt_digits)
    have "appendInt (sod div 3600) 2 = digits 2 h" "appendInt (sod div 60 mod 60) 2 = digits 2 mi" "appendInt (sod mod 60) 2 = digits 2 sc"
      unfolding h_def mi_def sc_def by (rule two, rule nn, use lt in linarith)+
    ultimately show ?thesis
      unfolding format_RFC3339_def Let_def secs_def[symmetric] sod_def[symmetric] ymd prod.case by simp
  qed
  have "parseTime (format_RFC3339 t) = Some ((day_number y m d * 86400 + sod) * Second)"
    unfolding parseTime_def f using y md c(2-5) hms tod
    by (simp add: getYear_digits getnum_digits getFraction_def getZone_def)
  also have "(day_number y m d * 86400 + sod) * Second = t - t mod Second"
    by (simp add: c(1) sod_def secs_def minus_mod_eq_div_mult)
  finally show ?thesis by (simp add: parse_RFC3339_def)
qed

text \<open>The first moment of the year 10000.\<close>

definition year10000 :: int where
  "year10000 = 253402300800 * Second"

lemma parse_format:
  assumes "0 \<le> t" and "t < year10000"
  shows "parse_RFC3339 (format_RFC3339 t) = Inr (t - t mod Second)"
proof (rule parse_format_year)
  obtain y m d where ymd: "civil (t div Second div 86400) = (y, m, d)" by (metis surj_pair)
  have "0 \<le> t div Second div 86400" "t div Second div 86400 < 2932897"
    using assms by (simp_all add: year10000_def Second_def pos_imp_zdiv_nonneg_iff div_less_iff_less_mult zdiv_zmult2_eq[symmetric])
  from civil_year[OF this ymd] ymd show "fst (civil (t div Second div 86400)) \<in> {0..9999}" by simp
qed

lemma format_nonempty [simp]: "format_RFC3339 t \<noteq> []"
  by (simp add: format_RFC3339_def Let_def split: prod.splits)

end
