(* ===== verification/World.thy ===== *)
theory World
  imports Kube_Types Session Metrics Registry Go_Time Go_Json
begin

text \<open>
  The controller process and its surroundings. A method with effects is an action of the state
  monad over \<open>world\<close>: the process-wide state the methods share (Prometheus counters, the
  orchestrator's session store and semaphore), the history of externally visible calls (\<open>trace\<close>,
  oldest first) and \<open>env\<close>, the state of everything outside the process. The outside (API server,
  gRPC transport and agents, HTTP, clock, UUID generator, texts of JSON errors) is code that is not part of the
  repository: its operations are the fields of \<open>env_ops\<close>, arguments of the model that may return
  anything and change \<open>env\<close> at will. \<open>context.Context\<close> is left out: a cancelled call is a call that
  returns an error.
\<close>

section \<open>What the process does to the outside\<close>

datatype event_type = EventTypeNormal | EventTypeWarning

record RecordedEvent =
  re_Namespace :: string
  re_Pod :: string
  re_Type :: event_type
  re_Reason :: string
  re_Action :: string
  re_Note :: string

record NotifyEvent =
  ne_Type :: string
  ne_PodName :: string
  ne_Namespace :: string
  ne_ImageRef :: string
  ne_Digest :: string
  ne_SourceNode :: string
  ne_TargetNode :: string
  ne_Error :: string
  ne_Timestamp :: string

datatype effect =
    Recorded RecordedEvent          \<comment> \<open>\<open>EventRecorder.Eventf\<close>\<close>
  | Posted string NotifyEvent       \<comment> \<open>webhook POST to a URL\<close>
  | PodDelete string string         \<comment> \<open>\<open>Client.Delete\<close> of a pod: namespace, name\<close>
  | RecordCreate SalvageRecord      \<comment> \<open>\<open>Client.Create\<close> of a SalvageRecord\<close>
  | RecordDelete string string      \<comment> \<open>\<open>Client.Delete\<close> of a SalvageRecord: namespace, name\<close>
  | AgentCall string agent_call     \<comment> \<open>unary gRPC call on an endpoint\<close>

section \<open>Operations of the outside\<close>

record 'e env_ops =
  time_Now :: "'e \<Rightarrow> int \<times> 'e"
  uuid_New :: "'e \<Rightarrow> string \<times> 'e"
  get_Pod :: "string \<Rightarrow> string \<Rightarrow> 'e \<Rightarrow> Pod result \<times> 'e"
  get_Namespace :: "string \<Rightarrow> 'e \<Rightarrow> ObjectMeta result \<times> 'e"
  get_Owner :: "string \<Rightarrow> string \<Rightarrow> string \<Rightarrow> 'e \<Rightarrow> ObjectMeta result \<times> 'e"
  get_Secret :: "string \<Rightarrow> string \<Rightarrow> 'e \<Rightarrow> Secret result \<times> 'e"
  list_Nodes :: "'e \<Rightarrow> Node list result \<times> 'e"
  list_Pods :: "string \<Rightarrow> (string \<rightharpoonup> string) \<Rightarrow> 'e \<Rightarrow> Pod list result \<times> 'e"
  list_SalvageRecords :: "(string \<times> string) option \<Rightarrow> 'e \<Rightarrow> SalvageRecord list result \<times> 'e"
  delete_Pod :: "Pod \<Rightarrow> 'e \<Rightarrow> unit result \<times> 'e"
  create_SalvageRecord :: "SalvageRecord \<Rightarrow> 'e \<Rightarrow> unit result \<times> 'e"
  delete_SalvageRecord :: "SalvageRecord \<Rightarrow> 'e \<Rightarrow> unit result \<times> 'e"
  http_NewRequest :: "string \<Rightarrow> string \<Rightarrow> unit result"
  http_Do :: "string \<Rightarrow> string \<Rightarrow> 'e \<Rightarrow> int result \<times> 'e"
  json_Error :: "string \<Rightarrow> err"
  grpc_NewClient :: "string \<Rightarrow> TransportCredentials \<Rightarrow> unit result"
  rpc_PrepareExport :: "string \<Rightarrow> PrepareExportRequest \<Rightarrow> 'e \<Rightarrow> int result \<times> 'e"
  rpc_ImportFrom :: "string \<Rightarrow> ImportFromRequest \<Rightarrow> 'e \<Rightarrow> ImportFromResponse result \<times> 'e"
  rpc_ResolveTag :: "string \<Rightarrow> ResolveTagRequest \<Rightarrow> 'e \<Rightarrow> string result \<times> 'e"
  rpc_RemoveImage :: "string \<Rightarrow> RemoveImageRequest \<Rightarrow> 'e \<Rightarrow> unit result \<times> 'e"
  rpc_PushImage :: "string \<Rightarrow> PushImageRequest \<Rightarrow> 'e \<Rightarrow> PushImageResponse result \<times> 'e"

text \<open>An outside whose every call fails at time 0, from which the examples build theirs by overriding
  the calls they need.\<close>

definition unavailable :: "'e \<Rightarrow> 'a result \<times> 'e" where
  "unavailable = Pair (Inl (errorf ''unavailable''))"

definition failing_ops :: "'e env_ops" where
  "failing_ops =
     \<lparr>time_Now = Pair 0, uuid_New = Pair ''uuid'',
      get_Pod = (\<lambda>ns n. unavailable), get_Namespace = (\<lambda>n. unavailable),
      get_Owner = (\<lambda>k ns n. unavailable), get_Secret = (\<lambda>ns n. unavailable),
      list_Nodes = unavailable, list_Pods = (\<lambda>ns l. unavailable),
      list_SalvageRecords = (\<lambda>q. unavailable), delete_Pod = (\<lambda>p. unavailable),
      create_SalvageRecord = (\<lambda>r. unavailable), delete_SalvageRecord = (\<lambda>r. unavailable),
      http_NewRequest = (\<lambda>u b. Inr ()),
      http_Do = (\<lambda>u b. unavailable),
      json_Error = (\<lambda>s. errorf ''bad json''), grpc_NewClient = (\<lambda>e c. Inr ()),
      rpc_PrepareExport = (\<lambda>e r. unavailable), rpc_ImportFrom = (\<lambda>e r. unavailable),
      rpc_ResolveTag = (\<lambda>e r. unavailable), rpc_RemoveImage = (\<lambda>e r. unavailable),
      rpc_PushImage = (\<lambda>e r. unavailable)\<rparr>"

section \<open>Actions\<close>

record 'e world =
  env :: 'e
  metrics :: Counters
  sessions :: Store
  semaphore :: nat
  trace :: "effect list"

type_synonym ('e, 'a) act = "('e world, 'a) state"

abbreviation return :: "'a \<Rightarrow> ('e, 'a) act" where
  "return \<equiv> State_Monad.return"

definition ext :: "('e \<Rightarrow> 'a \<times> 'e) \<Rightarrow> ('e, 'a) act" where
  "ext f = State (\<lambda>w. case f (env w) of (a, e') \<Rightarrow> (a, w\<lparr>env := e'\<rparr>))"

definition emit :: "effect \<Rightarrow> ('e, unit) act" where
  "emit x = State (\<lambda>w. ((), w\<lparr>trace := trace w @ [x]\<rparr>))"

definition meter :: "(Counters \<Rightarrow> Counters) \<Rightarrow> ('e, unit) act" where
  "meter f = State (\<lambda>w. ((), w\<lparr>metrics := f (metrics w)\<rparr>))"

definition on_sessions :: "(Store \<Rightarrow> 'a \<times> Store) \<Rightarrow> ('e, 'a) act" where
  "on_sessions f = State (\<lambda>w. case f (sessions w) of (a, s') \<Rightarrow> (a, w\<lparr>sessions := s'\<rparr>))"

definition on_semaphore :: "(nat \<Rightarrow> 'a \<times> nat) \<Rightarrow> ('e, 'a) act" where
  "on_semaphore f = State (\<lambda>w. case f (semaphore w) of (a, n) \<Rightarrow> (a, w\<lparr>semaphore := n\<rparr>))"

lemmas act_defs = ext_def emit_def meter_def on_sessions_def on_semaphore_def

lemma run_emit [simp]: "run_state (emit x) w = ((), w\<lparr>trace := trace w @ [x]\<rparr>)"
  by (simp add: emit_def)

lemma run_meter [simp]: "run_state (meter f) w = ((), w\<lparr>metrics := f (metrics w)\<rparr>)"
  by (simp add: meter_def)

lemma run_ext [simp]: "run_state (ext f) w = (case f (env w) of (a, e') \<Rightarrow> (a, w\<lparr>env := e'\<rparr>))"
  by (simp add: ext_def)

lemma run_on_sessions [simp]:
  "run_state (on_sessions f) w = (case f (sessions w) of (a, s') \<Rightarrow> (a, w\<lparr>sessions := s'\<rparr>))"
  by (simp add: on_sessions_def)

lemma run_on_semaphore [simp]:
  "run_state (on_semaphore f) w = (case f (semaphore w) of (a, n) \<Rightarrow> (a, w\<lparr>semaphore := n\<rparr>))"
  by (simp add: on_semaphore_def)

definition init_world :: "'e \<Rightarrow> 'e world" where
  "init_world e = \<lparr>env = e, metrics = NewCounters, sessions = NewStore, semaphore = 0, trace = []\<rparr>"

section \<open>Bounding the effects of an action\<close>

text \<open>
  \<open>rel_act R m\<close>: every run of \<open>m\<close> takes a world to an \<open>R\<close>-related one. For a reflexive and
  transitive \<open>R\<close> the bound is compositional, so it is proved method by method along the structure
  of the code; the lemmas of \<open>effect_bound\<close> are the rules. Two bounds are used throughout: which
  effects an action may add to the history (\<open>emits_only\<close>) and which parts of the world it
  leaves alone (\<open>keeps\<close>).
\<close>

definition rel_act :: "('e world \<Rightarrow> 'e world \<Rightarrow> bool) \<Rightarrow> ('e, 'a) act \<Rightarrow> bool" where
  "rel_act R m \<longleftrightarrow> (\<forall>w. R w (snd (run_state m w)))"

definition emits_only :: "(effect \<Rightarrow> bool) \<Rightarrow> 'e world \<Rightarrow> 'e world \<Rightarrow> bool" where
  "emits_only P w w' \<longleftrightarrow> (\<exists>es. trace w' = trace w @ es \<and> list_all P es)"

definition keeps :: "('e world \<Rightarrow> 'b) \<Rightarrow> 'e world \<Rightarrow> 'e world \<Rightarrow> bool" where
  "keeps f w w' \<longleftrightarrow> f w' = f w"

lemma rel_actD: "rel_act R m \<Longrightarrow> run_state m w = (a, w') \<Longrightarrow> R w w'"
  by (metis rel_act_def snd_conv)

text \<open>Case distinctions, for any bound.\<close>

lemma rel_if: "(b \<Longrightarrow> rel_act R m) \<Longrightarrow> (\<not> b \<Longrightarrow> rel_act R n) \<Longrightarrow> rel_act R (if b then m else n)"
  by simp

lemma rel_sum:
  "(\<And>x. r = Inl x \<Longrightarrow> rel_act R (f x)) \<Longrightarrow> (\<And>y. r = Inr y \<Longrightarrow> rel_act R (g y)) \<Longrightarrow>
   rel_act R (case r of Inl x \<Rightarrow> f x | Inr y \<Rightarrow> g y)"
  by (cases r) simp_all

lemma rel_option:
  "(r = None \<Longrightarrow> rel_act R m) \<Longrightarrow> (\<And>y. r = Some y \<Longrightarrow> rel_act R (g y)) \<Longrightarrow>
   rel_act R (case r of None \<Rightarrow> m | Some y \<Rightarrow> g y)"
  by (cases r) simp_all

lemma rel_prod: "(\<And>x y. r = (x, y) \<Longrightarrow> rel_act R (f x y)) \<Longrightarrow> rel_act R (case r of (x, y) \<Rightarrow> f x y)"
  by (cases r) simp

lemma rel_let: "(\<And>x. x = t \<Longrightarrow> rel_act R (f x)) \<Longrightarrow> rel_act R (let x = t in f x)"
  by (simp add: Let_def)

lemmas rel_cases = rel_if rel_sum rel_option rel_prod rel_let

locale effect_bound =
  fixes R :: "'e world \<Rightarrow> 'e world \<Rightarrow> bool"
  assumes refl: "R w w"
    and trans: "R u v \<Longrightarrow> R v w \<Longrightarrow> R u w"
begin

lemma rel_return: "rel_act R (return x)"
  by (simp add: rel_act_def refl)

lemma rel_bind: "rel_act R m \<Longrightarrow> (\<And>x. rel_act R (f x)) \<Longrightarrow> rel_act R (State_Monad.bind m f)"
  by (auto simp: rel_act_def split: prod.splits intro: trans)

lemma rel_bind_val:
  assumes "rel_act R m" and "\<And>x u v. run_state m u = (x, v) \<Longrightarrow> rel_act R (f x)"
  shows "rel_act R (State_Monad.bind m f)"
  unfolding rel_act_def
proof
  fix w
  obtain x v where "run_state m w = (x, v)" by fastforce
  with assms show "R w (snd (run_state (State_Monad.bind m f) w))"
    by (auto simp: rel_act_def intro: trans dest: spec[of _ w])
qed

lemmas rel_rules = rel_return rel_bind rel_cases

end

interpretation em: effect_bound "emits_only P" for P
proof
  show "emits_only P w w" for w :: "'a world"
    by (simp add: emits_only_def)
  show "emits_only P u w" if "emits_only P u v" "emits_only P v w" for u v w :: "'a world"
    using that by (force simp: emits_only_def)
qed

interpretation kp: effect_bound "keeps f" for f
  by unfold_locales (simp_all add: keeps_def)

text \<open>
  A bound with a price: \<open>R n\<close> allows an action to spend \<open>n\<close>, prices add up along a sequence and may be
  overestimated. What is free is an ordinary bound.
\<close>

locale graded_bound =
  fixes R :: "nat \<Rightarrow> 'e world \<Rightarrow> 'e world \<Rightarrow> bool"
  assumes free: "R 0 w w"
    and add: "R j u v \<Longrightarrow> R k v w \<Longrightarrow> R (j + k) u w"
    and weaken: "R j u v \<Longrightarrow> j \<le> k \<Longrightarrow> R k u v"
begin

lemma cost_weaken: "rel_act (R j) m \<Longrightarrow> j \<le> k \<Longrightarrow> rel_act (R k) m"
  using weaken unfolding rel_act_def by blast

lemma cost_bind:
  assumes "rel_act (R j) m" and "\<And>x u v. run_state m u = (x, v) \<Longrightarrow> rel_act (R k) (f x)" and "j + k \<le> n"
  shows "rel_act (R n) (State_Monad.bind m f)"
  unfolding rel_act_def
proof
  fix w
  obtain x v where "run_state m w = (x, v)" by fastforce
  with assms(1,2) have "R j w v" "R k v (snd (run_state (f x) v))" by (auto simp: rel_act_def dest: spec[of _ w])
  with add weaken assms(3) \<open>run_state m w = (x, v)\<close> show "R n w (snd (run_state (State_Monad.bind m f) w))" by fastforce
qed

lemma cost_return: "rel_act (R k) (return x)"
  using weaken[OF free] by (simp add: rel_act_def)

end

sublocale graded_bound \<subseteq> nothing: effect_bound "R 0"
  using free add by unfold_locales (auto, metis add_0)

lemma emits_only_ext [rel_intros]: "rel_act (emits_only P) (ext f)"
  by (simp add: rel_act_def emits_only_def split: prod.splits)

lemma emits_only_meter [rel_intros]: "rel_act (emits_only P) (meter f)"
  by (simp add: rel_act_def emits_only_def)

lemma emits_only_emit: "P x \<Longrightarrow> rel_act (emits_only P) (emit x)"
  by (simp add: rel_act_def emits_only_def)

lemma emits_only_sessions [rel_intros]: "rel_act (emits_only P) (on_sessions f)"
  by (simp add: rel_act_def emits_only_def split: prod.splits)

lemma emits_only_semaphore [rel_intros]: "rel_act (emits_only P) (on_semaphore f)"
  by (simp add: rel_act_def emits_only_def split: prod.splits)

lemma emits_only_mono: "rel_act (emits_only P) m \<Longrightarrow> (\<And>x. P x \<Longrightarrow> Q x) \<Longrightarrow> rel_act (emits_only Q) m"
  unfolding rel_act_def emits_only_def by (meson list.pred_mono_strong)

lemma emits_only_trace: "emits_only P w w' \<Longrightarrow> x \<in> set (trace w') \<Longrightarrow> x \<in> set (trace w) \<or> P x"
  by (auto simp: emits_only_def list_all_iff)

lemma keeps_sem_prims [rel_intros]:
  "rel_act (keeps semaphore) (ext f)"
  "rel_act (keeps semaphore) (meter g)"
  "rel_act (keeps semaphore) (emit x)"
  "rel_act (keeps semaphore) (on_sessions h)"
  by (simp_all add: rel_act_def keeps_def split: prod.splits)

lemma keeps_sess_prims [rel_intros]:
  "rel_act (keeps sessions) (ext f)"
  "rel_act (keeps sessions) (meter g)"
  "rel_act (keeps sessions) (emit x)"
  "rel_act (keeps sessions) (on_semaphore k)"
  by (simp_all add: rel_act_def keeps_def split: prod.splits)

lemma keeps_metrics_prims [rel_intros]:
  "rel_act (keeps metrics) (ext f)"
  "rel_act (keeps metrics) (emit x)"
  "rel_act (keeps metrics) (on_sessions h)"
  "rel_act (keeps metrics) (on_semaphore k)"
  by (simp_all add: rel_act_def keeps_def split: prod.splits)

lemmas act_rules = em.rel_rules kp.rel_rules

end
