(* ===== verification/Telemetry.thy ===== *)
theory Telemetry
  imports World
begin

text \<open>
  \<open>internal/events/events.go\<close> and \<open>internal/notify/webhook.go\<close>: the Kubernetes events and the webhook
  notifications. An \<open>Eventf\<close> call is an entry of the history, with the formatted note; a webhook
  request handed to the HTTP client is one too, whatever the client answers.
\<close>

section \<open>Events\<close>

definition ReasonSalvageable :: string where "ReasonSalvageable = ''ImageSalvageable''"

definition ReasonNotActionable :: string where "ReasonNotActionable = ''ImageNotActionable''"

definition ReasonSalvaged :: string where "ReasonSalvaged = ''ImageSalvaged''"

definition ReasonSalvageFailed :: string where "ReasonSalvageFailed = ''ImageSalvageFailed''"

definition ReasonCorruptImage :: string where "ReasonCorruptImage = ''ImageCorrupt''"

definition ReasonResolvedUncached :: string where "ReasonResolvedUncached = ''ImageResolvedUncached''"

definition ReasonPushed :: string where "ReasonPushed = ''ImagePushed''"

definition ReasonPushFailed :: string where "ReasonPushFailed = ''ImagePushFailed''"

definition actionDetected :: string where "actionDetected = ''Detected''"

definition actionSalvaged :: string where "actionSalvaged = ''Salvaged''"

definition actionSalvaging :: string where "actionSalvaging = ''Salvaging''"

definition actionCleaning :: string where "actionCleaning = ''Cleaning''"

definition actionPushing :: string where "actionPushing = ''Pushing''"

text \<open>The UTF-8 bytes of the em dash in the notes.\<close>

definition em_dash :: string where "em_dash = [CHR 0xE2, CHR 0x80, CHR 0x94]"

definition Eventf :: "Pod \<Rightarrow> event_type \<Rightarrow> string \<Rightarrow> string \<Rightarrow> string \<Rightarrow> ('e, unit) act" where
  "Eventf pod ty reason action note =
     emit (Recorded \<lparr>re_Namespace = pod_Namespace pod, re_Pod = pod_Name pod, re_Type = ty,
                     re_Reason = reason, re_Action = action, re_Note = note\<rparr>)"

definition EmitSalvageable :: "Pod \<Rightarrow> string \<Rightarrow> string list \<Rightarrow> ('e, unit) act" where
  "EmitSalvageable pod img nodes =
     Eventf pod EventTypeWarning ReasonSalvageable actionDetected
       (''Registry pull failed for '' @ img @ ''; image digest exists on nodes: ['' @ Join nodes '', '' @
        '']. This is technical debt '' @ em_dash @ '' rebuild and push the image properly.'')"

definition EmitNotActionable :: "Pod \<Rightarrow> string \<Rightarrow> ('e, unit) act" where
  "EmitNotActionable pod img =
     Eventf pod EventTypeWarning ReasonNotActionable actionDetected
       (''Not actionable: image '' @ img @ '' uses tag, not digest. Pin images by digest for tote to help.'')"

definition EmitSalvaged :: "Pod \<Rightarrow> string \<Rightarrow> string \<Rightarrow> string \<Rightarrow> ('e, unit) act" where
  "EmitSalvaged pod img sourceNode targetNode =
     Eventf pod EventTypeWarning ReasonSalvaged actionSalvaged
       (''Image '' @ img @ '' salvaged from node '' @ sourceNode @ '' to node '' @ targetNode @
        '' via containerd. This is emergency '' @ em_dash @ '' rebuild properly.'')"

definition EmitSalvageFailed :: "Pod \<Rightarrow> string \<Rightarrow> string \<Rightarrow> ('e, unit) act" where
  "EmitSalvageFailed pod img reason =
     Eventf pod EventTypeWarning ReasonSalvageFailed actionSalvaging
       (''Image salvage failed for '' @ img @ '': '' @ reason)"

definition EmitCorruptImage :: "Pod \<Rightarrow> string \<Rightarrow> string \<Rightarrow> ('e, unit) act" where
  "EmitCorruptImage pod img nodeName =
     Eventf pod EventTypeWarning ReasonCorruptImage actionCleaning
       (''Corrupt image record for '' @ img @ '' on node '' @ nodeName @
        '': content blobs missing. Removing stale record.'')"

definition EmitPushed :: "Pod \<Rightarrow> string \<Rightarrow> string \<Rightarrow> string \<Rightarrow> ('e, unit) act" where
  "EmitPushed pod digest targetRef sourceNode =
     Eventf pod EventTypeNormal ReasonPushed actionPushing
       (''Image '' @ digest @ '' pushed to backup registry '' @ targetRef @ '' from node '' @ sourceNode @ ''.'')"

definition EmitPushFailed :: "Pod \<Rightarrow> string \<Rightarrow> string \<Rightarrow> string \<Rightarrow> ('e, unit) act" where
  "EmitPushFailed pod digest targetRef reason =
     Eventf pod EventTypeWarning ReasonPushFailed actionPushing
       (''Registry push failed for '' @ digest @ '' to '' @ targetRef @ '': '' @ reason)"

definition EmitResolvedButUncached :: "Pod \<Rightarrow> string \<Rightarrow> string \<Rightarrow> ('e, unit) act" where
  "EmitResolvedButUncached pod img digest =
     Eventf pod EventTypeWarning ReasonResolvedUncached actionDetected
       (''Tag '' @ img @ '' resolved to '' @ digest @
        '' via registry, but no node has it cached. Image exists in registry but was never pulled to this cluster.'')"

lemmas reason_defs = ReasonSalvageable_def ReasonNotActionable_def ReasonSalvaged_def
  ReasonSalvageFailed_def ReasonCorruptImage_def ReasonResolvedUncached_def ReasonPushed_def
  ReasonPushFailed_def

lemmas action_defs = actionDetected_def actionSalvaged_def actionSalvaging_def actionCleaning_def actionPushing_def

lemmas emitter_defs = EmitSalvageable_def EmitNotActionable_def EmitSalvaged_def EmitSalvageFailed_def
  EmitCorruptImage_def EmitPushed_def EmitPushFailed_def EmitResolvedButUncached_def Eventf_def

definition is_recorded :: "effect \<Rightarrow> bool" where
  "is_recorded x = (case x of Recorded _ \<Rightarrow> True | _ \<Rightarrow> False)"

definition is_posted :: "effect \<Rightarrow> bool" where
  "is_posted x = (case x of Posted _ _ \<Rightarrow> True | _ \<Rightarrow> False)"

definition is_telemetry :: "effect \<Rightarrow> bool" where
  "is_telemetry x \<longleftrightarrow> is_recorded x \<or> is_posted x"

lemma telemetry_simps [simp]:
  "is_recorded (Recorded e)" "\<not> is_recorded (Posted u n)" "\<not> is_recorded (PodDelete a b)"
  "\<not> is_recorded (RecordCreate r)" "\<not> is_recorded (RecordDelete a b)" "\<not> is_recorded (AgentCall p c)"
  "is_posted (Posted u n)" "\<not> is_posted (Recorded e)" "\<not> is_posted (PodDelete a b)"
  "\<not> is_posted (RecordCreate r)" "\<not> is_posted (RecordDelete a b)" "\<not> is_posted (AgentCall p c)"
  by (simp_all add: is_recorded_def is_posted_def)

lemma Eventf_rel [rel_intros]:
  "rel_act (emits_only is_recorded) (Eventf pod ty reason action note)"
  "rel_act (keeps semaphore) (Eventf pod ty reason action note)"
  "rel_act (keeps sessions) (Eventf pod ty reason action note)"
  "rel_act (keeps metrics) (Eventf pod ty reason action note)"
  by (simp_all add: Eventf_def emits_only_emit rel_intros)

section \<open>Webhook notifications\<close>

record Notifier =
  notif_URL :: string
  notif_Events :: "string set"

definition NewNotifier :: "string \<Rightarrow> string list \<Rightarrow> Notifier" where
  "NewNotifier url eventTypes =
     \<lparr>notif_URL = url, notif_Events = fold insert eventTypes {}\<rparr>"

definition empty_event :: NotifyEvent where
  "empty_event = \<lparr>ne_Type = '''', ne_PodName = '''', ne_Namespace = '''', ne_ImageRef = '''', ne_Digest = '''',
     ne_SourceNode = '''', ne_TargetNode = '''', ne_Error = '''', ne_Timestamp = ''''\<rparr>"

text \<open>\<open>json.Marshal\<close> of an event: the members by their tags, in the order of the fields, without the empty ones that are
  marked \<open>omitempty\<close>. It never fails.\<close>

definition omitempty :: "string \<Rightarrow> string \<Rightarrow> (string \<times> string) list" where
  "omitempty k v = (if v = '''' then [] else [(k, v)])"

definition event_members :: "NotifyEvent \<Rightarrow> (string \<times> string) list" where
  "event_members evt =
     [(''type'', ne_Type evt), (''pod_name'', ne_PodName evt), (''namespace'', ne_Namespace evt)] @
     omitempty ''image_ref'' (ne_ImageRef evt) @ omitempty ''digest'' (ne_Digest evt) @
     omitempty ''source_node'' (ne_SourceNode evt) @ omitempty ''target_node'' (ne_TargetNode evt) @
     omitempty ''error'' (ne_Error evt) @ [(''timestamp'', ne_Timestamp evt)]"

definition MarshalEvent :: "NotifyEvent \<Rightarrow> string result" where
  "MarshalEvent evt = Inr (marshal (event_members evt))"

definition Notify :: "'e env_ops \<Rightarrow> Notifier option \<Rightarrow> NotifyEvent \<Rightarrow> ('e, unit result) act" where
  "Notify ops notifier evt =
     (case notifier of
        None \<Rightarrow> return (Inr ())
      | Some n \<Rightarrow>
          if notif_URL n = '''' then return (Inr ())
          else if notif_Events n \<noteq> {} \<and> ne_Type evt \<notin> notif_Events n then return (Inr ())
          else do {
            now \<leftarrow> ext (time_Now ops);
            let evt = evt\<lparr>ne_Timestamp := format_RFC3339 now\<rparr>;
            case MarshalEvent evt of
              Inl e \<Rightarrow> return (Inl (wrapf ''marshaling event'' e))
            | Inr body \<Rightarrow>
                (case http_NewRequest ops (notif_URL n) body of
                   Inl e \<Rightarrow> return (Inl (wrapf ''creating request'' e))
                 | Inr _ \<Rightarrow> do {
                     emit (Posted (notif_URL n) evt);
                     resp \<leftarrow> ext (http_Do ops (notif_URL n) body);
                     return (case resp of
                         Inl e \<Rightarrow> Inl (wrapf ''sending webhook'' e)
                       | Inr status \<Rightarrow>
                           if status \<ge> 400 then Inl (errorf (''webhook returned status '' @ fmt_int status))
                           else Inr ())
                   })
          })"

text \<open>The notifications a notifier lets through: to its URL, of an event type it was configured with.\<close>

definition allowed_post :: "Notifier option \<Rightarrow> NotifyEvent \<Rightarrow> effect \<Rightarrow> bool" where
  "allowed_post notifier evt x \<longleftrightarrow>
     (\<exists>n ts. notifier = Some n \<and> x = Posted (notif_URL n) (evt\<lparr>ne_Timestamp := ts\<rparr>)
        \<and> notif_URL n \<noteq> '''' \<and> (notif_Events n = {} \<or> ne_Type evt \<in> notif_Events n))"

lemma Notify_allowed: "rel_act (emits_only (allowed_post notifier evt)) (Notify ops notifier evt)"
  unfolding Notify_def
  by (intro em.rel_rules rel_intros emits_only_emit) (auto simp: allowed_post_def)

lemma Notify_rel [rel_intros]:
  "rel_act (emits_only is_posted) (Notify ops notifier evt)"
  "rel_act (keeps semaphore) (Notify ops notifier evt)"
  "rel_act (keeps sessions) (Notify ops notifier evt)"
  "rel_act (keeps metrics) (Notify ops notifier evt)"
proof -
  show "rel_act (emits_only is_posted) (Notify ops notifier evt)"
    by (rule emits_only_mono[OF Notify_allowed]) (auto simp: allowed_post_def)
qed (unfold Notify_def, (intro kp.rel_rules rel_intros)+)

text \<open>The event that the receiver of a body sees: a missing member is an empty string.\<close>

definition event_of :: "(string \<times> string) list \<Rightarrow> NotifyEvent" where
  "event_of kvs = (let get = (\<lambda>k. case map_of kvs k of None \<Rightarrow> '''' | Some v \<Rightarrow> v)
     in \<lparr>ne_Type = get ''type'', ne_PodName = get ''pod_name'', ne_Namespace = get ''namespace'', ne_ImageRef = get ''image_ref'',
         ne_Digest = get ''digest'', ne_SourceNode = get ''source_node'', ne_TargetNode = get ''target_node'',
         ne_Error = get ''error'', ne_Timestamp = get ''timestamp''\<rparr>)"

definition valid_event :: "NotifyEvent \<Rightarrow> NotifyEvent" where
  "valid_event evt = \<lparr>ne_Type = to_valid (ne_Type evt), ne_PodName = to_valid (ne_PodName evt), ne_Namespace = to_valid (ne_Namespace evt),
     ne_ImageRef = to_valid (ne_ImageRef evt), ne_Digest = to_valid (ne_Digest evt), ne_SourceNode = to_valid (ne_SourceNode evt),
     ne_TargetNode = to_valid (ne_TargetNode evt), ne_Error = to_valid (ne_Error evt), ne_Timestamp = to_valid (ne_Timestamp evt)\<rparr>"

lemma to_valid_tags:
  "to_valid ''type'' = ''type''" "to_valid ''pod_name'' = ''pod_name''" "to_valid ''namespace'' = ''namespace''"
  "to_valid ''image_ref'' = ''image_ref''" "to_valid ''digest'' = ''digest''" "to_valid ''source_node'' = ''source_node''"
  "to_valid ''target_node'' = ''target_node''" "to_valid ''error'' = ''error''" "to_valid ''timestamp'' = ''timestamp''"
  by (simp_all add: to_valid_ascii)

lemma map_of_omitempty:
  "map_of (map (map_prod to_valid to_valid) (omitempty k v) @ kvs) j =
     (if v \<noteq> '''' \<and> j = to_valid k then Some (to_valid v) else map_of kvs j)"
  by (simp add: omitempty_def)

lemma event_of_members: "event_of (map (map_prod to_valid to_valid) (event_members evt)) = valid_event evt"
  unfolding event_of_def event_members_def valid_event_def
  by (simp add: map_of_omitempty to_valid_tags Let_def del: map_of_append)

section \<open>Properties\<close>

text \<open>A notification posts at most one request, to the configured URL, carrying the caller's
  event with only its timestamp filled in, and none for an event type outside a non-empty filter
  or without a URL; it touches neither metrics nor sessions nor the semaphore.\<close>

theorem Notify_filters:
  assumes "run_state (Notify ops (Some (NewNotifier url types)) evt) w = (r, w')"
  shows "\<exists>es. trace w' = trace w @ es \<and> length es \<le> 1 \<and>
     list_all (\<lambda>x. \<exists>ts. x = Posted url (evt\<lparr>ne_Timestamp := ts\<rparr>)
        \<and> url \<noteq> '''' \<and> (types = [] \<or> ne_Type evt \<in> set types)) es
     \<and> metrics w' = metrics w \<and> sessions w' = sessions w \<and> semaphore w' = semaphore w"
proof -
  have types: "notif_Events (NewNotifier url types) = set types" "notif_URL (NewNotifier url types) = url"
    using union_set_fold[of types "{}"] by (simp_all add: NewNotifier_def)
  show ?thesis using assms
    by (auto simp: Notify_def Let_def types split: if_splits sum.splits prod.splits)
qed

theorem Notify_filters_witness:
  "\<exists>es. trace (snd (run_state (Notify failing_ops (Some (NewNotifier ''http://h'' [''salvaged'']))
          (empty_event\<lparr>ne_Type := ''salvaged''\<rparr>)) (init_world ()))) = [] @ es \<and> length es \<le> 1"
  using Notify_filters[of failing_ops "''http://h''" "[''salvaged'']" "empty_event\<lparr>ne_Type := ''salvaged''\<rparr>"
      "init_world ()", OF prod.collapse[symmetric]]
  by (auto simp: init_world_def)

text \<open>C10: the webhook's receiver gets the event. When \<open>Notify\<close> sends, the body is a JSON object that reads back as
  the caller's event with the current time (up to the year 9999, in whole seconds) as its timestamp, whatever bytes
  the pod's names, image references and errors contain; only bytes that are not valid UTF-8 are replaced. The
  answer of the endpoint decides the result.\<close>

theorem Notify_payload:
  assumes n: "notif_URL n \<noteq> ''''" "notif_Events n = {} \<or> ne_Type evt \<in> notif_Events n"
    and ok: "\<And>b. http_NewRequest ops (notif_URL n) b = Inr ()"
    and now: "time_Now ops (env w) = (now, e1)" "0 \<le> now" "now < year10000"
  shows "\<exists>body kvs ts. unmarshal body = Some kvs \<and> event_of kvs = valid_event (evt\<lparr>ne_Timestamp := ts\<rparr>)
     \<and> parse_RFC3339 ts = Inr (now - now mod Second)
     \<and> run_state (Notify ops (Some n) evt) w = (case http_Do ops (notif_URL n) body e1 of (resp, e2) \<Rightarrow>
          (case resp of Inl e \<Rightarrow> Inl (wrapf ''sending webhook'' e)
             | Inr status \<Rightarrow> if status \<ge> 400 then Inl (errorf (''webhook returned status '' @ fmt_int status)) else Inr (),
           w\<lparr>trace := trace w @ [Posted (notif_URL n) (evt\<lparr>ne_Timestamp := ts\<rparr>)], env := e2\<rparr>))"
proof -
  let ?evt = "evt\<lparr>ne_Timestamp := format_RFC3339 now\<rparr>"
  show ?thesis
    using n ok now(1) unmarshal_marshal[of "event_members ?evt"] event_of_members[of ?evt] parse_format[OF now(2,3)]
    by (intro exI[of _ "marshal (event_members ?evt)"] exI[of _ "map (map_prod to_valid to_valid) (event_members ?evt)"]
          exI[of _ "format_RFC3339 now"])
       (auto simp: Notify_def MarshalEvent_def Let_def split: prod.splits)
qed

theorem Notify_payload_witness:
  "\<exists>body kvs ts. unmarshal body = Some kvs \<and> event_of kvs = valid_event (empty_event\<lparr>ne_Type := ''salvaged'', ne_Timestamp := ts\<rparr>)
     \<and> parse_RFC3339 ts = Inr 0"
  using Notify_payload[of "NewNotifier ''http://h'' []" "empty_event\<lparr>ne_Type := ''salvaged''\<rparr>" failing_ops "init_world ()" 0 "()"]
  by (auto simp: NewNotifier_def failing_ops_def year10000_def Second_def)

text \<open>Contrary to its doc comment (errors are logged but never returned to the caller), \<open>Notify\<close>
  returns an error whenever the webhook answers with a status of 400 or more.\<close>

theorem Notify_returns_errors:
  assumes "url \<noteq> ''''" and "400 \<le> status"
  shows "fst (run_state (Notify (failing_ops\<lparr>http_Do := \<lambda>u b. Pair (Inr status)\<rparr>) (Some (NewNotifier url [])) evt) w)
     = Inl (errorf (''webhook returned status '' @ fmt_int status))"
  using assms by (simp add: Notify_def NewNotifier_def failing_ops_def MarshalEvent_def)

theorem Notify_returns_errors_witness:
  "fst (run_state (Notify (failing_ops\<lparr>http_Do := \<lambda>u b. Pair (Inr 500)\<rparr>) (Some (NewNotifier ''http://h'' []))
       empty_event) (init_world ())) = Inl (errorf (''webhook returned status '' @ fmt_int 500))"
  by (rule Notify_returns_errors) simp_all

end
