(* ===== verification/Image_Refs.thy ===== *)
theory Image_Refs
  imports Tote_Prelude
begin

text \<open>
  Parsing and rewriting of image references: \<open>internal/resolver/resolver.go\<close> (does a reference pin a
  digest?) and \<open>internal/registry/ref.go\<close> (the reference under which a salvaged image is pushed to
  the backup registry).
\<close>

section \<open>resolver.Resolve\<close>

record Resolution =
  res_Original :: string
  res_Digest :: string
  res_Actionable :: bool

definition Resolve :: "string \<Rightarrow> Resolution" where
  "Resolve img =
     (let r = \<lparr>res_Original = img, res_Digest = '''', res_Actionable = False\<rparr>
      in case str_LastIndex img ''@'' of
           None \<Rightarrow> r
         | Some idx \<Rightarrow>
             (let digest = drop (idx + 1) img
              in if HasPrefix digest ''sha256:'' \<and> length digest = 71
                 then r\<lparr>res_Digest := digest, res_Actionable := True\<rparr>
                 else r))"

section \<open>registry.BackupRef\<close>

definition stripDigest :: "string \<Rightarrow> string" where
  "stripDigest ref = (case str_Index ref ''@'' of None \<Rightarrow> ref | Some idx \<Rightarrow> take idx ref)"

definition addLatest :: "string \<Rightarrow> string" where
  "addLatest ref =
     (if \<not> str_Contains ref '':'' \<or>
         (str_Contains ref ''/'' \<and>
          \<not> str_Contains (drop (case str_LastIndex ref ''/'' of None \<Rightarrow> 0 | Some i \<Rightarrow> i) ref) '':'')
      then ref @ '':latest'' else ref)"

definition BackupRef :: "string \<Rightarrow> string \<Rightarrow> string result" where
  "BackupRef originalRef backupRegistry =
     (if backupRegistry = '''' then Inl (errorf ''backup registry is empty'')
      else
        let ref = addLatest (stripDigest originalRef)
        in case SplitN2 ref ''/'' of
             [p0, p1] \<Rightarrow>
               (if ContainsAny p0 ''.:'' then Inr (backupRegistry @ ''/'' @ p1)
                else Inr (backupRegistry @ ''/'' @ ref))
           | _ \<Rightarrow> Inr (backupRegistry @ ''/'' @ ref))"

section \<open>Lemmas\<close>

lemma stripDigest_no_at: "CHR ''@'' \<notin> set (stripDigest ref)"
  using str_Index_char_split[of ref "CHR ''@''"] str_Index_char_None[of ref "CHR ''@''"]
  by (auto simp: stripDigest_def split: option.splits)

lemma stripDigest_app: "CHR ''@'' \<notin> set r \<Longrightarrow> stripDigest (r @ CHR ''@'' # d) = r"
  by (simp add: stripDigest_def str_Index_char_append)

lemma stripDigest_id: "CHR ''@'' \<notin> set r \<Longrightarrow> stripDigest r = r"
  by (simp add: stripDigest_def str_Index_char_None[THEN iffD2])

lemma split_last_char:
  assumes "c \<in> set s"
  obtains a b where "s = a @ c # b" and "c \<notin> set b"
  using assms by (metis split_list_last)

text \<open>The part of a reference after its last slash carries the tag.\<close>

definition tagged :: "string \<Rightarrow> bool" where
  "tagged ref \<longleftrightarrow> (\<exists>a b. ref = a @ b \<and> (a = '''' \<or> last a = CHR ''/'') \<and> CHR ''/'' \<notin> set b \<and> CHR '':'' \<in> set b)"

lemma tagged_no_slash: "CHR ''/'' \<notin> set b \<Longrightarrow> tagged b \<longleftrightarrow> CHR '':'' \<in> set b"
  unfolding tagged_def by (metis append_Nil in_set_conv_decomp last_in_set set_append Un_iff append.assoc)

lemma tagged_slash: "CHR ''/'' \<notin> set b \<Longrightarrow> CHR '':'' \<in> set b \<Longrightarrow> tagged (a @ CHR ''/'' # b)"
  unfolding tagged_def by (rule exI[of _ "a @ ''/''"], rule exI[of _ b]) simp

lemma addLatest_slash_tag:
  assumes "CHR ''/'' \<notin> set b"
  shows "addLatest (a @ CHR ''/'' # b) = a @ CHR ''/'' # (if CHR '':'' \<in> set b then b else b @ '':latest'')"
  using str_LastIndex_char_append[OF assms, of a] by (auto simp: addLatest_def)

lemma addLatest_tagged: "tagged (addLatest ref)"
proof (cases "CHR ''/'' \<in> set ref")
  case False
  then show ?thesis by (auto simp: addLatest_def tagged_no_slash)
next
  case True
  then obtain a b where ref: "ref = a @ CHR ''/'' # b" and b: "CHR ''/'' \<notin> set b"
    by (rule split_last_char)
  show ?thesis
    unfolding ref addLatest_slash_tag[OF b] using b by (intro tagged_slash) auto
qed

lemma addLatest_no_at: "CHR ''@'' \<notin> set r \<Longrightarrow> CHR ''@'' \<notin> set (addLatest r)"
  by (simp add: addLatest_def)

lemma tagged_suffix: "tagged (p @ CHR ''/'' # q) \<Longrightarrow> CHR ''/'' \<notin> set p \<Longrightarrow> tagged q"
  unfolding tagged_def
proof (elim exE conjE)
  fix a b
  assume eq: "p @ CHR ''/'' # q = a @ b" and a: "a = '''' \<or> last a = CHR ''/''"
    and b: "CHR ''/'' \<notin> set b" "CHR '':'' \<in> set b" and p: "CHR ''/'' \<notin> set p"
  from eq b(1) obtain a' where "a = p @ CHR ''/'' # a'" and "q = a' @ b"
    by (auto simp: append_eq_append_conv2 Cons_eq_append_conv append_eq_Cons_conv)
  with a b show "\<exists>a b. q = a @ b \<and> (a = '''' \<or> last a = CHR ''/'') \<and> CHR ''/'' \<notin> set b \<and> CHR '':'' \<in> set b"
    by (intro exI[of _ a'] exI[of _ b]) (auto split: if_splits)
qed

section \<open>Properties\<close>

text \<open>C35: an image reference is actionable exactly when it ends in \<open>@sha256:\<close> followed by 64 bytes
  other than @, and the digest returned is then that ending without the @ sign; for every other
  reference the digest is empty.\<close>

theorem Resolve_exact:
  "(res_Actionable (Resolve img) \<longleftrightarrow>
      (\<exists>repo hex. img = repo @ ''@sha256:'' @ hex \<and> length hex = 64 \<and> CHR ''@'' \<notin> set hex))
   \<and> (if res_Actionable (Resolve img)
      then \<exists>repo. img = repo @ ''@'' @ res_Digest (Resolve img) \<and> length (res_Digest (Resolve img)) = 71
      else res_Digest (Resolve img) = '''')"
  (is "(?A \<longleftrightarrow> ?B) \<and> ?C")
proof -
  have AC: "?B \<and> (\<exists>repo. img = repo @ ''@'' @ res_Digest (Resolve img) \<and> length (res_Digest (Resolve img)) = 71)"
    if act: ?A
  proof -
    from act obtain idx where idx: "str_LastIndex img ''@'' = Some idx"
      and pre: "prefix ''sha256:'' (drop (Suc idx) img)" and len: "length (drop (Suc idx) img) = 71"
      by (auto simp: Resolve_def Let_def HasPrefix_def split: option.splits if_splits)
    then have dig: "res_Digest (Resolve img) = drop (Suc idx) img"
      by (simp add: Resolve_def HasPrefix_def)
    have eq: "img = take idx img @ ''@'' @ drop (Suc idx) img" and at: "CHR ''@'' \<notin> set (drop (Suc idx) img)"
      using str_LastIndex_char_split[OF idx] by simp_all
    from pre obtain hex where hex: "drop (Suc idx) img = ''sha256:'' @ hex" by (auto simp: prefix_def)
    have "img = take idx img @ ''@sha256:'' @ hex" using eq hex by simp
    moreover have "length hex = 64" using len hex by simp
    moreover have "CHR ''@'' \<notin> set hex" using at hex by simp
    ultimately show ?thesis using eq dig len by metis
  qed
  have BA: ?A if ?B
  proof -
    from that obtain repo hex where img: "img = repo @ CHR ''@'' # (''sha256:'' @ hex)"
      and len: "length hex = 64" and at: "CHR ''@'' \<notin> set (''sha256:'' @ hex)" by auto
    have "str_LastIndex img ''@'' = Some (length repo)"
      unfolding img by (rule str_LastIndex_char_append[OF at])
    then show ?thesis using img len by (simp add: Resolve_def HasPrefix_def)
  qed
  have NC: "res_Digest (Resolve img) = ''''" if "\<not> ?A"
    using that by (auto simp: Resolve_def Let_def split: option.splits if_splits)
  show ?thesis using AC BA NC by auto
qed

text \<open>With a backup registry configured, the push reference always exists; it is the backup host,
  a slash and a reference that carries no digest and whose last path component has a tag.\<close>

theorem BackupRef_wellformed:
  assumes "backup \<noteq> ''''"
  shows "\<exists>rest. BackupRef ref backup = Inr (backup @ ''/'' @ rest) \<and> CHR ''@'' \<notin> set rest \<and> tagged rest"
proof -
  let ?r = "addLatest (stripDigest ref)"
  have r: "CHR ''@'' \<notin> set ?r" "tagged ?r"
    by (simp_all add: addLatest_no_at stripDigest_no_at addLatest_tagged)
  show ?thesis
  proof (cases "CHR ''/'' \<in> set ?r")
    case False
    then show ?thesis using assms r by (simp add: BackupRef_def Let_def SplitN2_char_notin)
  next
    case True
    then obtain p q where pq: "?r = p @ CHR ''/'' # q" and p: "CHR ''/'' \<notin> set p"
      by (metis split_list_first)
    then have "tagged q" "CHR ''@'' \<notin> set q" using r tagged_suffix[of p q] by auto
    then show ?thesis using assms r pq p by (simp add: BackupRef_def Let_def SplitN2_char_in)
  qed
qed

theorem BackupRef_wellformed_witness:
  "\<exists>rest. BackupRef ''registry.example.com/team/app@sha256:ab'' ''backup.example.com:5000''
       = Inr (''backup.example.com:5000'' @ ''/'' @ rest) \<and> CHR ''@'' \<notin> set rest \<and> tagged rest"
  by (rule BackupRef_wellformed) simp

text \<open>A reference with a registry host (a first component with a dot or a colon) keeps its
  repository path and tag and changes only the host; a trailing digest is dropped.\<close>

theorem BackupRef_replaces_host:
  assumes "backup \<noteq> ''''" and "ContainsAny host ''.:''" and "CHR ''/'' \<notin> set host"
    and "CHR ''@'' \<notin> set host" and "CHR ''@'' \<notin> set path"
    and "CHR ''@'' \<notin> set name" and "CHR ''/'' \<notin> set name" and "CHR '':'' \<in> set name"
    and "path = '''' \<or> last path = CHR ''/''" and "dig = '''' \<or> hd dig = CHR ''@''"
  shows "BackupRef (host @ ''/'' @ path @ name @ dig) backup = Inr (backup @ ''/'' @ path @ name)"
proof -
  let ?r = "host @ ''/'' @ path @ name"
  have strip: "stripDigest (?r @ dig) = ?r"
    using assms by (cases dig) (simp_all add: stripDigest_id stripDigest_app[where r = ?r, simplified])
  have "\<exists>a. ?r = a @ CHR ''/'' # name"
    using assms(9) by (cases path rule: rev_cases) auto
  then obtain a where a: "?r = a @ CHR ''/'' # name" by blast
  have "addLatest ?r = ?r"
    unfolding a addLatest_slash_tag[OF assms(7)] using assms(8) by simp
  with strip assms show ?thesis
    using SplitN2_char_in[of "CHR ''/''" host "path @ name"] by (simp add: BackupRef_def Let_def)
qed

theorem BackupRef_replaces_host_witness:
  "BackupRef (''registry.example.com'' @ ''/'' @ ''team/'' @ ''app:v1'' @ ''@sha256:ab'') ''b:5000''
     = Inr (''b:5000'' @ ''/'' @ ''team/'' @ ''app:v1'')"
  by (rule BackupRef_replaces_host) (simp_all add: ContainsAny_def)

end
