(* ===== verification/Tote_Transfer.thy ===== *)
theory Tote_Transfer
  imports Telemetry Image_Refs
begin

text \<open>
  \<open>internal/transfer\<close>: finding agents (\<open>discovery.go\<close>) and running a salvage (\<open>transfer.go\<close>). The
  orchestrator's metrics, session store and semaphore are parts of the world; \<open>Orchestrator\<close> holds
  what is fixed after start-up. A deferred call runs after the calls it surrounds, so the body
  between a \<open>defer\<close> and the end of the function is a definition of its own: \<open>salvageLocked\<close> runs
  while the semaphore is held, \<open>salvageSession\<close> while the session exists, and \<open>salvaged\<close> is what
  follows a successful import. Logging is left out.
\<close>

section \<open>discovery.go\<close>

record Resolver =
  rs_Namespace :: string
  rs_Port :: int
  rs_TransportCreds :: "tls_Config option"

definition NewResolver :: "string \<Rightarrow> int \<Rightarrow> Resolver" where
  "NewResolver namespace port = \<lparr>rs_Namespace = namespace, rs_Port = port, rs_TransportCreds = None\<rparr>"

definition resolver_dialOption :: "Resolver \<Rightarrow> TransportCredentials" where
  "resolver_dialOption r = orInsecure (rs_TransportCreds r)"

definition agentLabels :: "string \<rightharpoonup> string" where
  "agentLabels = [''app.kubernetes.io/name'' \<mapsto> ''tote'', ''app.kubernetes.io/component'' \<mapsto> ''agent'']"

definition podEndpoint :: "Resolver \<Rightarrow> Pod \<Rightarrow> string" where
  "podEndpoint r p = pod_PodIP p @ '':'' @ fmt_int (rs_Port r)"

fun firstEndpoint :: "Resolver \<Rightarrow> string \<Rightarrow> Pod list \<Rightarrow> string result" where
  "firstEndpoint r nodeName [] = Inl (errorf (''no agent pod found on node '' @ nodeName))"
| "firstEndpoint r nodeName (p # ps) =
     (if pod_NodeName p = nodeName \<and> pod_PodIP p \<noteq> '''' then Inr (podEndpoint r p)
      else firstEndpoint r nodeName ps)"

definition EndpointForNode :: "'e env_ops \<Rightarrow> Resolver \<Rightarrow> string \<Rightarrow> ('e, string result) act" where
  "EndpointForNode ops r nodeName = do {
     pods \<leftarrow> ext (list_Pods ops (rs_Namespace r) agentLabels);
     return (case pods of
         Inl e \<Rightarrow> Inl (wrapf ''listing agent pods'' e)
       | Inr items \<Rightarrow> firstEndpoint r nodeName items)
   }"

definition resolveTagFromAgent :: "'e env_ops \<Rightarrow> Resolver \<Rightarrow> string \<Rightarrow> string \<Rightarrow> ('e, string result) act" where
  "resolveTagFromAgent ops r endpoint imageRef =
     (case grpc_NewClient ops endpoint (resolver_dialOption r) of
        Inl e \<Rightarrow> return (Inl e)
      | Inr _ \<Rightarrow> do {
          emit (AgentCall endpoint (CallResolveTag \<lparr>rt_ImageRef = imageRef\<rparr>));
          ext (rpc_ResolveTag ops endpoint \<lparr>rt_ImageRef = imageRef\<rparr>)
        })"

text \<open>The loop over the agent pods: agents without an address, with an error or without the image are
  passed over.\<close>

fun resolveLoop :: "'e env_ops \<Rightarrow> Resolver \<Rightarrow> string \<Rightarrow> Pod list \<Rightarrow> ('e, string \<times> string) act" where
  "resolveLoop ops r imageRef [] = return ('''', '''')"
| "resolveLoop ops r imageRef (p # ps) =
     (if pod_PodIP p = '''' then resolveLoop ops r imageRef ps
      else do {
        res \<leftarrow> resolveTagFromAgent ops r (podEndpoint r p) imageRef;
        case res of
          Inl e \<Rightarrow> resolveLoop ops r imageRef ps
        | Inr digest \<Rightarrow>
            (if digest = '''' then resolveLoop ops r imageRef ps
             else return (digest, pod_NodeName p))
      })"

definition ResolveTagViaAgents :: "'e env_ops \<Rightarrow> Resolver \<Rightarrow> string \<Rightarrow> ('e, (string \<times> string) result) act" where
  "ResolveTagViaAgents ops r imageRef = do {
     pods \<leftarrow> ext (list_Pods ops (rs_Namespace r) agentLabels);
     case pods of
       Inl e \<Rightarrow> return (Inl (wrapf ''listing agent pods'' e))
     | Inr items \<Rightarrow> do {
         found \<leftarrow> resolveLoop ops r imageRef items;
         return (Inr found)
       }
   }"

definition RemoveImageOnNode :: "'e env_ops \<Rightarrow> Resolver \<Rightarrow> string \<Rightarrow> string \<Rightarrow> ('e, unit result) act" where
  "RemoveImageOnNode ops r nodeName imageRef = do {
     ep \<leftarrow> EndpointForNode ops r nodeName;
     case ep of
       Inl e \<Rightarrow> return (Inl e)
     | Inr endpoint \<Rightarrow>
         (case grpc_NewClient ops endpoint (resolver_dialOption r) of
            Inl e \<Rightarrow> return (Inl (wrapf ''connecting to agent'' e))
          | Inr _ \<Rightarrow> do {
              emit (AgentCall endpoint (CallRemoveImage \<lparr>rm_ImageRef = imageRef\<rparr>));
              ext (rpc_RemoveImage ops endpoint \<lparr>rm_ImageRef = imageRef\<rparr>)
            })
   }"

section \<open>transfer.go\<close>

record Orchestrator =
  or_Resolver :: Resolver
  or_SemCap :: nat
  or_SessionTTL :: int
  or_MaxImageSize :: int
  or_BackupRegistry :: string
  or_BackupRegistrySecret :: string
  or_BackupRegistryInsecure :: bool
  or_SecretNamespace :: string
  or_TransportCreds :: "tls_Config option"
  or_Notifier :: "Notifier option"

text \<open>Making a channel of negative capacity panics.\<close>

definition NewOrchestrator :: "Resolver \<Rightarrow> int \<Rightarrow> int \<Rightarrow> int \<Rightarrow> Orchestrator result" where
  "NewOrchestrator resolver maxConcurrent sessionTTL maxImageSize =
     (if maxConcurrent < 0 then Inl (errorf ''makechan: size out of range'')
      else Inr \<lparr>or_Resolver = resolver, or_SemCap = nat maxConcurrent, or_SessionTTL = sessionTTL,
                or_MaxImageSize = maxImageSize, or_BackupRegistry = '''', or_BackupRegistrySecret = '''',
                or_BackupRegistryInsecure = False, or_SecretNamespace = '''', or_TransportCreds = None,
                or_Notifier = None\<rparr>)"

definition SetBackupRegistry :: "string \<Rightarrow> string \<Rightarrow> string \<Rightarrow> bool \<Rightarrow> Orchestrator \<Rightarrow> Orchestrator" where
  "SetBackupRegistry reg secret namespace insec orch =
     orch\<lparr>or_BackupRegistry := reg, or_BackupRegistrySecret := secret,
          or_BackupRegistryInsecure := insec, or_SecretNamespace := namespace\<rparr>"

text \<open>The non-blocking send on the semaphore channel, and the receive that ends it.\<close>

definition tryAcquire :: "nat \<Rightarrow> nat \<Rightarrow> bool \<times> nat" where
  "tryAcquire cap n = (if n < cap then (True, Suc n) else (False, n))"

definition release :: "nat \<Rightarrow> unit \<times> nat" where
  "release n = ((), n - 1)"

definition fail_salvage :: "'e env_ops \<Rightarrow> Orchestrator \<Rightarrow> Pod \<Rightarrow> string \<Rightarrow> string \<Rightarrow> ('e, unit) act" where
  "fail_salvage ops orch pod digest reason = do {
     meter RecordSalvageFailure;
     EmitSalvageFailed pod digest reason;
     _ \<leftarrow> Notify ops (or_Notifier orch)
       (empty_event\<lparr>ne_Type := ''salvage_failed'', ne_PodName := pod_Name pod,
          ne_Namespace := pod_Namespace pod, ne_Digest := digest, ne_Error := reason\<rparr>);
     return ()
   }"

definition dialOption :: "Orchestrator \<Rightarrow> TransportCredentials" where
  "dialOption orch = orInsecure (or_TransportCreds orch)"

definition prepareExport :: "'e env_ops \<Rightarrow> Orchestrator \<Rightarrow> string \<Rightarrow> string \<Rightarrow> string \<Rightarrow> ('e, int result) act" where
  "prepareExport ops orch endpoint token digest =
     (case grpc_NewClient ops endpoint (dialOption orch) of
        Inl e \<Rightarrow> return (Inl (wrapf ''connecting to source'' e))
      | Inr _ \<Rightarrow> do {
          emit (AgentCall endpoint (CallPrepareExport \<lparr>pe_SessionToken = token, pe_Digest = digest\<rparr>));
          ext (rpc_PrepareExport ops endpoint \<lparr>pe_SessionToken = token, pe_Digest = digest\<rparr>)
        })"

definition importFrom ::
  "'e env_ops \<Rightarrow> Orchestrator \<Rightarrow> string \<Rightarrow> string \<Rightarrow> string \<Rightarrow> string \<Rightarrow> ('e, unit result) act" where
  "importFrom ops orch endpoint token digest sourceEndpoint =
     (case grpc_NewClient ops endpoint (dialOption orch) of
        Inl e \<Rightarrow> return (Inl (wrapf ''connecting to target'' e))
      | Inr _ \<Rightarrow> do {
          let req = \<lparr>if_SessionToken = token, if_Digest = digest, if_SourceEndpoint = sourceEndpoint\<rparr>;
          emit (AgentCall endpoint (CallImportFrom req));
          resp \<leftarrow> ext (rpc_ImportFrom ops endpoint req);
          return (case resp of
              Inl e \<Rightarrow> Inl e
            | Inr a \<Rightarrow> if \<not> ifr_Success a then Inl (errorf (ifr_Error a)) else Inr ())
        })"

definition shortDigest :: "string \<Rightarrow> string" where
  "shortDigest digest =
     (let sd = (case str_Index digest '':'' of None \<Rightarrow> digest | Some idx \<Rightarrow> drop (idx + 1) digest)
      in if length sd > 8 then take 8 sd else sd)"

definition salvageRecord ::
  "int \<Rightarrow> Pod \<Rightarrow> string \<Rightarrow> string \<Rightarrow> string \<Rightarrow> string \<Rightarrow> string \<Rightarrow> string \<Rightarrow> SalvageRecord" where
  "salvageRecord now pod digest imageRef sourceNode targetNode phase errMsg =
     \<lparr>rec_Name = pod_Name pod @ ''-'' @ shortDigest digest, rec_Namespace = pod_Namespace pod,
      rec_Spec = \<lparr>PodName = pod_Name pod, Digest = digest, ImageRef = imageRef,
                  SourceNode = sourceNode, TargetNode = targetNode\<rparr>,
      rec_Status = \<lparr>Phase = phase, CompletedAt = format_RFC3339 now, StatusError = errMsg\<rparr>\<rparr>"

definition createSalvageRecord ::
  "'e env_ops \<Rightarrow> Pod \<Rightarrow> string \<Rightarrow> string \<Rightarrow> string \<Rightarrow> string \<Rightarrow> string \<Rightarrow> string \<Rightarrow> ('e, unit result) act" where
  "createSalvageRecord ops pod digest imageRef sourceNode targetNode phase errMsg = do {
     now \<leftarrow> ext (time_Now ops);
     let rec = salvageRecord now pod digest imageRef sourceNode targetNode phase errMsg;
     emit (RecordCreate rec);
     ext (create_SalvageRecord ops rec)
   }"

definition loadRegistryCredentials :: "'e env_ops \<Rightarrow> Orchestrator \<Rightarrow> ('e, (string \<times> string) result) act" where
  "loadRegistryCredentials ops orch =
     (if or_BackupRegistrySecret orch = '''' then return (Inr ('''', ''''))
      else do {
        s \<leftarrow> ext (get_Secret ops (or_SecretNamespace orch) (or_BackupRegistrySecret orch));
        let key = or_SecretNamespace orch @ ''/'' @ or_BackupRegistrySecret orch;
        return (case s of
            Inl e \<Rightarrow> Inl (wrapf (''reading secret '' @ key) e)
          | Inr secret \<Rightarrow>
              (case secret ''.dockerconfigjson'' of
                 None \<Rightarrow> Inl (errorf (''secret '' @ key @ '' missing .dockerconfigjson key''))
               | Some dat \<Rightarrow> ExtractCredentials (json_Error ops) dat (or_BackupRegistry orch)))
      })"

definition pushImage ::
  "'e env_ops \<Rightarrow> Orchestrator \<Rightarrow> string \<Rightarrow> string \<Rightarrow> string \<Rightarrow> string \<Rightarrow> string \<Rightarrow> ('e, unit result) act" where
  "pushImage ops orch endpoint digest targetRef username password =
     (case grpc_NewClient ops endpoint (dialOption orch) of
        Inl e \<Rightarrow> return (Inl (wrapf ''connecting to source for push'' e))
      | Inr _ \<Rightarrow> do {
          let req = \<lparr>pi_Digest = digest, pi_TargetRef = targetRef, pi_RegistryUsername = username,
                     pi_RegistryPassword = password, pi_Insecure = or_BackupRegistryInsecure orch\<rparr>;
          emit (AgentCall endpoint (CallPushImage req));
          resp \<leftarrow> ext (rpc_PushImage ops endpoint req);
          return (case resp of
              Inl e \<Rightarrow> Inl e
            | Inr a \<Rightarrow> if \<not> pir_Success a then Inl (errorf (pir_Error a)) else Inr ())
        })"

definition push_failure :: "Pod \<Rightarrow> string \<Rightarrow> string \<Rightarrow> err \<Rightarrow> ('e, unit) act" where
  "push_failure pod digest targetRef e = do {
     meter RecordPushFailure;
     EmitPushFailed pod digest targetRef (emsg e)
   }"

definition push_success ::
  "'e env_ops \<Rightarrow> Orchestrator \<Rightarrow> Pod \<Rightarrow> string \<Rightarrow> string \<Rightarrow> string \<Rightarrow> int \<Rightarrow> ('e, unit) act" where
  "push_success ops orch pod digest targetRef sourceNode pushStart = do {
     meter RecordPushSuccess;
     now \<leftarrow> ext (time_Now ops);
     meter (RecordPushDuration (now - pushStart));
     EmitPushed pod digest targetRef sourceNode;
     _ \<leftarrow> Notify ops (or_Notifier orch)
       (empty_event\<lparr>ne_Type := ''pushed'', ne_PodName := pod_Name pod,
          ne_Namespace := pod_Namespace pod, ne_Digest := digest\<rparr>);
     return ()
   }"

definition pushToBackupRegistry ::
  "'e env_ops \<Rightarrow> Orchestrator \<Rightarrow> Pod \<Rightarrow> string \<Rightarrow> string \<Rightarrow> string \<Rightarrow> string \<Rightarrow> ('e, unit) act" where
  "pushToBackupRegistry ops orch pod digest imageRef sourceEndpoint sourceNode = do {
     pushStart \<leftarrow> ext (time_Now ops);
     case BackupRef imageRef (or_BackupRegistry orch) of
       Inl e \<Rightarrow> return ()
     | Inr targetRef \<Rightarrow> do {
         meter RecordPushAttempt;
         creds \<leftarrow> loadRegistryCredentials ops orch;
         case creds of
           Inl e \<Rightarrow> push_failure pod digest targetRef e
         | Inr (username, password) \<Rightarrow> do {
             res \<leftarrow> pushImage ops orch sourceEndpoint digest targetRef username password;
             case res of
               Inl e \<Rightarrow> push_failure pod digest targetRef e
             | Inr _ \<Rightarrow> push_success ops orch pod digest targetRef sourceNode pushStart
           }
       }
   }"

definition backup ::
  "'e env_ops \<Rightarrow> Orchestrator \<Rightarrow> Pod \<Rightarrow> string \<Rightarrow> string \<Rightarrow> string \<Rightarrow> string \<Rightarrow> ('e, unit) act" where
  "backup ops orch pod digest imageRef sourceEndpoint sourceNode =
     (if or_BackupRegistry orch \<noteq> ''''
      then pushToBackupRegistry ops orch pod digest imageRef sourceEndpoint sourceNode
      else return ())"

definition deletePod :: "'e env_ops \<Rightarrow> Pod \<Rightarrow> ('e, unit result) act" where
  "deletePod ops pod = do {
     emit (PodDelete (pod_Namespace pod) (pod_Name pod));
     ext (delete_Pod ops pod)
   }"

definition recreate :: "'e env_ops \<Rightarrow> Pod \<Rightarrow> ('e, unit) act" where
  "recreate ops pod =
     (if pod_OwnerReferences pod \<noteq> [] then do { _ \<leftarrow> deletePod ops pod; return () } else return ())"

definition salvaged ::
  "'e env_ops \<Rightarrow> Orchestrator \<Rightarrow> Pod \<Rightarrow> string \<Rightarrow> string \<Rightarrow> string \<Rightarrow> string \<Rightarrow> string \<Rightarrow> int \<Rightarrow> ('e, unit) act" where
  "salvaged ops orch pod digest imageRef sourceNode targetNode sourceEndpoint start = do {
     meter RecordSalvageSuccess;
     now \<leftarrow> ext (time_Now ops);
     meter (RecordSalvageDuration (now - start));
     EmitSalvaged pod digest sourceNode targetNode;
     _ \<leftarrow> Notify ops (or_Notifier orch)
       (empty_event\<lparr>ne_Type := ''salvaged'', ne_PodName := pod_Name pod, ne_Namespace := pod_Namespace pod,
          ne_Digest := digest, ne_SourceNode := sourceNode, ne_TargetNode := targetNode\<rparr>);
     _ \<leftarrow> createSalvageRecord ops pod digest imageRef sourceNode targetNode ''Completed'' '''';
     backup ops orch pod digest imageRef sourceEndpoint sourceNode;
     recreate ops pod
   }"

definition salvageImport ::
  "'e env_ops \<Rightarrow> Orchestrator \<Rightarrow> Pod \<Rightarrow> string \<Rightarrow> string \<Rightarrow> string \<Rightarrow> string \<Rightarrow> string \<Rightarrow> string \<Rightarrow> int \<Rightarrow> string
     \<Rightarrow> ('e, unit result) act" where
  "salvageImport ops orch pod digest imageRef sourceNode targetNode sourceEndpoint targetEndpoint start token = do {
     imp \<leftarrow> importFrom ops orch targetEndpoint token digest sourceEndpoint;
     case imp of
       Inl e \<Rightarrow> do {
         fail_salvage ops orch pod digest (''import: '' @ emsg e);
         return (Inl e)
       }
     | Inr _ \<Rightarrow> do {
         salvaged ops orch pod digest imageRef sourceNode targetNode sourceEndpoint start;
         return (Inr ())
       }
   }"

definition salvageSession ::
  "'e env_ops \<Rightarrow> Orchestrator \<Rightarrow> Pod \<Rightarrow> string \<Rightarrow> string \<Rightarrow> string \<Rightarrow> string \<Rightarrow> string \<Rightarrow> string \<Rightarrow> int \<Rightarrow> string
     \<Rightarrow> ('e, unit result) act" where
  "salvageSession ops orch pod digest imageRef sourceNode targetNode sourceEndpoint targetEndpoint start token = do {
     size \<leftarrow> prepareExport ops orch sourceEndpoint token digest;
     case size of
       Inl e \<Rightarrow> do {
         fail_salvage ops orch pod digest (''prepare export: '' @ emsg e);
         return (Inl e)
       }
     | Inr sizeBytes \<Rightarrow>
         (if or_MaxImageSize orch > 0 \<and> sizeBytes > or_MaxImageSize orch then do {
            let reason = ''image '' @ digest @ '' is '' @ fmt_int sizeBytes @ '' bytes, exceeds limit '' @
                  fmt_int (or_MaxImageSize orch) @ '' bytes'';
            fail_salvage ops orch pod digest reason;
            return (Inl (errorf (''image size exceeded: '' @ reason)))
          }
          else salvageImport ops orch pod digest imageRef sourceNode targetNode sourceEndpoint targetEndpoint start token)
   }"

definition salvageLocked ::
  "'e env_ops \<Rightarrow> Orchestrator \<Rightarrow> Pod \<Rightarrow> string \<Rightarrow> string \<Rightarrow> string \<Rightarrow> string \<Rightarrow> int \<Rightarrow> ('e, unit result) act" where
  "salvageLocked ops orch pod digest imageRef sourceNode targetNode start = do {
     src \<leftarrow> EndpointForNode ops (or_Resolver orch) sourceNode;
     case src of
       Inl e \<Rightarrow> do {
         fail_salvage ops orch pod digest (''resolving source agent: '' @ emsg e);
         return (Inl e)
       }
     | Inr sourceEndpoint \<Rightarrow> do {
         tgt \<leftarrow> EndpointForNode ops (or_Resolver orch) targetNode;
         case tgt of
           Inl e \<Rightarrow> do {
             fail_salvage ops orch pod digest (''resolving target agent: '' @ emsg e);
             return (Inl e)
           }
         | Inr targetEndpoint \<Rightarrow> do {
             uuid \<leftarrow> ext (uuid_New ops);
             now \<leftarrow> ext (time_Now ops);
             sess \<leftarrow> on_sessions (Create uuid now digest sourceNode targetNode (or_SessionTTL orch));
             r \<leftarrow> salvageSession ops orch pod digest imageRef sourceNode targetNode
                     sourceEndpoint targetEndpoint start (sess_Token sess);
             on_sessions (\<lambda>s. ((), Delete (sess_Token sess) s));
             return r
           }
       }
   }"

definition errRateLimited :: err where
  "errRateLimited = errorf ''rate limited: max concurrent salvages reached''"

definition Salvage ::
  "'e env_ops \<Rightarrow> Orchestrator \<Rightarrow> Pod \<Rightarrow> string \<Rightarrow> string \<Rightarrow> string \<Rightarrow> ('e, unit result) act" where
  "Salvage ops orch pod digest imageRef sourceNode = do {
     meter RecordSalvageAttempt;
     start \<leftarrow> ext (time_Now ops);
     let targetNode = pod_NodeName pod;
     acquired \<leftarrow> on_semaphore (tryAcquire (or_SemCap orch));
     (if acquired then do {
        r \<leftarrow> salvageLocked ops orch pod digest imageRef sourceNode targetNode start;
        on_semaphore release;
        return r
      }
      else return (Inl errRateLimited))
   }"

section \<open>What a salvage changes\<close>

text \<open>
  The view of a world keeps what a salvage is accountable for and forgets the rest: the salvage
  counters, the semaphore, the session store and the calls made on the cluster and on agents;
  events, notifications, push counters and the environment are left out. The lemmas below say how
  each method changes the view, in the order of the code.
\<close>

definition acts :: "effect list \<Rightarrow> effect list" where
  "acts = filter (\<lambda>x. \<not> is_telemetry x)"

record view =
  v_attempts :: nat
  v_successes :: nat
  v_failures :: nat
  v_semaphore :: nat
  v_sessions :: Store
  v_acts :: "effect list"

definition view_of :: "'e world \<Rightarrow> view" where
  "view_of w = \<lparr>v_attempts = SalvageAttempts (metrics w), v_successes = SalvageSuccesses (metrics w),
     v_failures = SalvageFailures (metrics w), v_semaphore = semaphore w, v_sessions = sessions w,
     v_acts = acts (trace w)\<rparr>"

lemma acts_simps [simp]:
  "acts [] = []" "acts (xs @ ys) = acts xs @ acts ys"
  "acts (x # xs) = (if is_telemetry x then acts xs else x # acts xs)"
  by (simp_all add: acts_def)

lemma is_telemetry_simps [simp]:
  "is_telemetry (Recorded e)" "is_telemetry (Posted u n)" "\<not> is_telemetry (PodDelete a b)"
  "\<not> is_telemetry (RecordCreate r)" "\<not> is_telemetry (RecordDelete a b)" "\<not> is_telemetry (AgentCall p c)"
  by (simp_all add: is_telemetry_def)

definition appending :: "effect list \<Rightarrow> view \<Rightarrow> view" where
  "appending xs v = v\<lparr>v_acts := v_acts v @ xs\<rparr>"

lemma appending_simps [simp]:
  "appending [] v = v" "appending ys (appending xs v) = appending (xs @ ys) v"
  "v_acts (appending xs v) = v_acts v @ xs" "v_attempts (appending xs v) = v_attempts v"
  "v_successes (appending xs v) = v_successes v" "v_failures (appending xs v) = v_failures v"
  "v_semaphore (appending xs v) = v_semaphore v" "v_sessions (appending xs v) = v_sessions v"
  by (simp_all add: appending_def)

lemma view_updates [simp]:
  "view_of (w\<lparr>env := e\<rparr>) = view_of w"
  "view_of (w\<lparr>sessions := s\<rparr>) = (view_of w)\<lparr>v_sessions := s\<rparr>"
  "view_of (w\<lparr>semaphore := n\<rparr>) = (view_of w)\<lparr>v_semaphore := n\<rparr>"
  "view_of (w\<lparr>trace := trace w @ [x]\<rparr>) = appending (acts [x]) (view_of w)"
  by (simp_all add: view_of_def appending_def)

lemma view_meters [simp]:
  "view_of (w\<lparr>metrics := RecordSalvageAttempt (metrics w)\<rparr>) = (view_of w)\<lparr>v_attempts := Suc (v_attempts (view_of w))\<rparr>"
  "view_of (w\<lparr>metrics := RecordSalvageSuccess (metrics w)\<rparr>) = (view_of w)\<lparr>v_successes := Suc (v_successes (view_of w))\<rparr>"
  "view_of (w\<lparr>metrics := RecordSalvageFailure (metrics w)\<rparr>) = (view_of w)\<lparr>v_failures := Suc (v_failures (view_of w))\<rparr>"
  by (simp_all add: view_of_def record_metric_defs)

definition uncounted :: "(Counters \<Rightarrow> Counters) \<Rightarrow> bool" where
  "uncounted f \<longleftrightarrow> (\<forall>c. SalvageAttempts (f c) = SalvageAttempts c \<and> SalvageSuccesses (f c) = SalvageSuccesses c
     \<and> SalvageFailures (f c) = SalvageFailures c)"

lemma uncounted_meters [simp]:
  "uncounted RecordDetected" "uncounted RecordSalvageable" "uncounted RecordNotActionable"
  "uncounted RecordCorruptImage" "uncounted RecordPushAttempt" "uncounted RecordPushSuccess"
  "uncounted RecordPushFailure" "uncounted (RecordSalvageDuration d)" "uncounted (RecordPushDuration d)"
  "uncounted (RecordRegistryResolve res)" "uncounted (RecordRegistryResolveDuration d)"
  by (simp_all add: uncounted_def record_metric_defs)

lemma keeps_view_prims [rel_intros]:
  "rel_act (keeps view_of) (ext f)"
  "uncounted g \<Longrightarrow> rel_act (keeps view_of) (meter g)"
  "is_telemetry x \<Longrightarrow> rel_act (keeps view_of) (emit x)"
  by (auto simp: rel_act_def keeps_def view_of_def uncounted_def split: prod.splits)

lemma Eventf_view [rel_intros]: "rel_act (keeps view_of) (Eventf pod ty reason action note)"
  unfolding Eventf_def by (rule keeps_view_prims) simp

lemma Emit_view [rel_intros]:
  "rel_act (keeps view_of) (EmitSalvageable pod img nodes)"
  "rel_act (keeps view_of) (EmitNotActionable pod img)"
  "rel_act (keeps view_of) (EmitSalvaged pod img src tgt)"
  "rel_act (keeps view_of) (EmitSalvageFailed pod img reason)"
  "rel_act (keeps view_of) (EmitCorruptImage pod img nodeName)"
  "rel_act (keeps view_of) (EmitPushed pod digest ref src)"
  "rel_act (keeps view_of) (EmitPushFailed pod digest ref reason)"
  "rel_act (keeps view_of) (EmitResolvedButUncached pod img digest)"
  unfolding EmitSalvageable_def EmitNotActionable_def EmitSalvaged_def EmitSalvageFailed_def
    EmitCorruptImage_def EmitPushed_def EmitPushFailed_def EmitResolvedButUncached_def
  by (rule Eventf_view)+

lemma Notify_view [rel_intros]: "rel_act (keeps view_of) (Notify ops notifier evt)"
  unfolding Notify_def by (intro kp.rel_rules rel_intros) simp_all

lemma EndpointForNode_view [rel_intros]: "rel_act (keeps view_of) (EndpointForNode ops r nodeName)"
  unfolding EndpointForNode_def by (intro kp.rel_rules rel_intros)

lemma loadRegistryCredentials_view [rel_intros]: "rel_act (keeps view_of) (loadRegistryCredentials ops orch)"
  unfolding loadRegistryCredentials_def by (intro kp.rel_rules rel_intros)

lemma push_failure_view [rel_intros]: "rel_act (keeps view_of) (push_failure pod digest ref e)"
  unfolding push_failure_def by (intro kp.rel_rules rel_intros) simp_all

lemma push_success_view [rel_intros]: "rel_act (keeps view_of) (push_success ops orch pod digest ref src start)"
  unfolding push_success_def by (intro kp.rel_rules rel_intros) simp_all

lemma view_of_quiet: "rel_act (keeps view_of) m \<Longrightarrow> run_state m w = (r, w') \<Longrightarrow> view_of w' = view_of w"
  by (drule rel_actD) (simp_all add: keeps_def)

lemmas quiet_runs = Emit_view[THEN view_of_quiet] Notify_view[THEN view_of_quiet]
  EndpointForNode_view[THEN view_of_quiet] loadRegistryCredentials_view[THEN view_of_quiet]
  push_failure_view[THEN view_of_quiet] push_success_view[THEN view_of_quiet]

definition failed_view :: "view \<Rightarrow> view" where
  "failed_view v = v\<lparr>v_failures := Suc (v_failures v)\<rparr>"

definition ok_view :: "view \<Rightarrow> view" where
  "ok_view v = v\<lparr>v_successes := Suc (v_successes v)\<rparr>"

lemma outcome_view_simps [simp]:
  "failed_view (appending xs v) = appending xs (failed_view v)" "ok_view (appending xs v) = appending xs (ok_view v)"
  by (simp_all add: failed_view_def ok_view_def appending_def)

lemma fail_salvage_view:
  "run_state (fail_salvage ops orch pod digest reason) w = (u, w') \<Longrightarrow>
   view_of w' = failed_view (view_of w)"
  by (auto simp: fail_salvage_def failed_view_def split: prod.splits dest!: quiet_runs)

lemma prepareExport_view:
  assumes "run_state (prepareExport ops orch ep tok d) w = (r, w')"
  shows "\<exists>es. view_of w' = appending es (view_of w)
     \<and> prefix es [AgentCall ep (CallPrepareExport \<lparr>pe_SessionToken = tok, pe_Digest = d\<rparr>)]
     \<and> (\<forall>size. r = Inr size \<longrightarrow> es = [AgentCall ep (CallPrepareExport \<lparr>pe_SessionToken = tok, pe_Digest = d\<rparr>)]
          \<and> (\<exists>e e'. rpc_PrepareExport ops ep \<lparr>pe_SessionToken = tok, pe_Digest = d\<rparr> e = (Inr size, e')))"
proof (cases "grpc_NewClient ops ep (dialOption orch)")
  case (Inl e)
  then show ?thesis using assms by (intro exI[of _ "[]"]) (auto simp: prepareExport_def)
next
  case (Inr u)
  then show ?thesis using assms
    by (intro exI[of _ "[AgentCall ep (CallPrepareExport \<lparr>pe_SessionToken = tok, pe_Digest = d\<rparr>)]"])
       (auto simp: prepareExport_def split: prod.splits)
qed

lemma importFrom_view:
  assumes "run_state (importFrom ops orch ep tok d src) w = (r, w')"
  shows "\<exists>es. view_of w' = appending es (view_of w)
     \<and> prefix es [AgentCall ep (CallImportFrom \<lparr>if_SessionToken = tok, if_Digest = d, if_SourceEndpoint = src\<rparr>)]
     \<and> (is_ok r \<longrightarrow> es = [AgentCall ep (CallImportFrom \<lparr>if_SessionToken = tok, if_Digest = d, if_SourceEndpoint = src\<rparr>)]
          \<and> (\<exists>e e' resp. rpc_ImportFrom ops ep \<lparr>if_SessionToken = tok, if_Digest = d, if_SourceEndpoint = src\<rparr> e
               = (Inr resp, e') \<and> ifr_Success resp))"
proof (cases "grpc_NewClient ops ep (dialOption orch)")
  case (Inl e)
  then show ?thesis using assms by (intro exI[of _ "[]"]) (auto simp: importFrom_def)
next
  case (Inr u)
  let ?req = "\<lparr>if_SessionToken = tok, if_Digest = d, if_SourceEndpoint = src\<rparr>"
  from Inr assms show ?thesis
    by (intro exI[of _ "[AgentCall ep (CallImportFrom ?req)]"])
       (auto simp: importFrom_def Let_def split: prod.splits sum.splits if_splits)
qed

definition push_calls :: "Orchestrator \<Rightarrow> string \<Rightarrow> string \<Rightarrow> string \<Rightarrow> effect list \<Rightarrow> bool" where
  "push_calls orch digest imageRef ep es \<longleftrightarrow> es = [] \<or>
     (or_BackupRegistry orch \<noteq> '''' \<and>
      (\<exists>ref user pass. BackupRef imageRef (or_BackupRegistry orch) = Inr ref \<and>
         es = [AgentCall ep (CallPushImage \<lparr>pi_Digest = digest, pi_TargetRef = ref, pi_RegistryUsername = user,
                 pi_RegistryPassword = pass, pi_Insecure = or_BackupRegistryInsecure orch\<rparr>)]))"

lemma pushImage_view:
  assumes "run_state (pushImage ops orch ep d ref user pass) w = (r, w')"
  shows "\<exists>es. view_of w' = appending es (view_of w) \<and> prefix es [AgentCall ep (CallPushImage
     \<lparr>pi_Digest = d, pi_TargetRef = ref, pi_RegistryUsername = user, pi_RegistryPassword = pass,
      pi_Insecure = or_BackupRegistryInsecure orch\<rparr>)]"
proof (cases "grpc_NewClient ops ep (dialOption orch)")
  case (Inl e)
  then show ?thesis using assms by (intro exI[of _ "[]"]) (auto simp: pushImage_def)
next
  case (Inr u)
  let ?req = "\<lparr>pi_Digest = d, pi_TargetRef = ref, pi_RegistryUsername = user, pi_RegistryPassword = pass,
      pi_Insecure = or_BackupRegistryInsecure orch\<rparr>"
  from Inr assms show ?thesis
    by (intro exI[of _ "[AgentCall ep (CallPushImage ?req)]"]) (auto simp: pushImage_def Let_def split: prod.splits)
qed

text \<open>The part of the push that follows the call is quiet.\<close>

lemma pushToBackupRegistry_view:
  assumes "run_state (pushToBackupRegistry ops orch pod d imageRef ep src) w = (u, w')"
    and "or_BackupRegistry orch \<noteq> ''''"
  shows "\<exists>es. push_calls orch d imageRef ep es \<and> view_of w' = appending es (view_of w)"
proof (cases "BackupRef imageRef (or_BackupRegistry orch)")
  case (Inl e)
  then show ?thesis using assms(1)
    by (intro exI[of _ "[]"]) (auto simp: pushToBackupRegistry_def push_calls_def split: prod.splits)
next
  case (Inr ref)
  obtain now e1 where now: "time_Now ops (env w) = (now, e1)" by fastforce
  let ?w1 = "w\<lparr>env := e1, metrics := RecordPushAttempt (metrics w)\<rparr>"
  have w1: "view_of ?w1 = view_of w" by (simp add: view_of_def record_metric_defs)
  obtain creds w2 where creds: "run_state (loadRegistryCredentials ops orch) ?w1 = (creds, w2)" by fastforce
  then have w2: "view_of w2 = view_of w" using w1 by (auto dest: quiet_runs)
  show ?thesis
  proof (cases creds)
    case (Inl e)
    with assms(1) now creds Inr have "run_state (push_failure pod d ref e) w2 = (u, w')"
      by (simp add: pushToBackupRegistry_def)
    with w2 show ?thesis by (intro exI[of _ "[]"]) (auto simp: push_calls_def dest: quiet_runs)
  next
    case (Inr up)
    obtain user pass where up: "up = (user, pass)" by fastforce
    obtain res w3 where push: "run_state (pushImage ops orch ep d ref user pass) w2 = (res, w3)" by fastforce
    from pushImage_view[OF push] obtain es where es: "view_of w3 = appending es (view_of w2)"
      and "prefix es [AgentCall ep (CallPushImage \<lparr>pi_Digest = d, pi_TargetRef = ref, pi_RegistryUsername = user,
        pi_RegistryPassword = pass, pi_Insecure = or_BackupRegistryInsecure orch\<rparr>)]" by blast
    then have calls: "push_calls orch d imageRef ep es"
      using \<open>BackupRef imageRef _ = Inr ref\<close> assms(2) by (auto simp: push_calls_def prefix_Cons)
    have "view_of w' = view_of w3"
      using assms(1) now creds Inr up push \<open>BackupRef imageRef _ = Inr ref\<close>
      by (auto simp: pushToBackupRegistry_def split: sum.splits prod.splits dest!: quiet_runs)
    with es w2 calls show ?thesis by auto
  qed
qed

text \<open>What follows a successful import: one record, at most one push, and the deletion of an owned pod,
  in this order.\<close>

definition is_record_of :: "Pod \<Rightarrow> string \<Rightarrow> string \<Rightarrow> string \<Rightarrow> effect \<Rightarrow> bool" where
  "is_record_of pod digest imageRef sourceNode x \<longleftrightarrow>
     (\<exists>now. x = RecordCreate (salvageRecord now pod digest imageRef sourceNode (pod_NodeName pod) ''Completed'' ''''))"

definition pod_deletes :: "Pod \<Rightarrow> effect list" where
  "pod_deletes pod = (if pod_OwnerReferences pod \<noteq> [] then [PodDelete (pod_Namespace pod) (pod_Name pod)] else [])"

lemma createSalvageRecord_view:
  assumes "run_state (createSalvageRecord ops pod d imageRef src (pod_NodeName pod) ''Completed'' '''') w = (r, w')"
  shows "\<exists>rc. is_record_of pod d imageRef src rc \<and> view_of w' = appending [rc] (view_of w)"
proof -
  obtain now e where "time_Now ops (env w) = (now, e)" by fastforce
  with assms show ?thesis
    by (intro exI[of _ "RecordCreate (salvageRecord now pod d imageRef src (pod_NodeName pod) ''Completed'' '''')"])
       (auto simp: createSalvageRecord_def is_record_of_def Let_def split: prod.splits)
qed

lemma backup_view:
  assumes "run_state (backup ops orch pod d imageRef ep src) w = (u, w')"
  shows "\<exists>es. push_calls orch d imageRef ep es \<and> view_of w' = appending es (view_of w)"
proof (cases "or_BackupRegistry orch = ''''")
  case True
  then show ?thesis using assms by (intro exI[of _ "[]"]) (simp add: backup_def push_calls_def)
next
  case False
  then show ?thesis using assms by (intro pushToBackupRegistry_view) (simp_all add: backup_def)
qed

lemma recreate_view:
  "run_state (recreate ops pod) w = (u, w') \<Longrightarrow> view_of w' = appending (pod_deletes pod) (view_of w)"
  by (auto simp: recreate_def deletePod_def pod_deletes_def split: if_splits prod.splits)

lemma salvaged_view:
  assumes "run_state (salvaged ops orch pod d imageRef src (pod_NodeName pod) ep start) w = (u, w')"
  shows "\<exists>rc push. is_record_of pod d imageRef src rc \<and> push_calls orch d imageRef ep push \<and>
     view_of w' = appending (rc # push @ pod_deletes pod) (ok_view (view_of w))"
proof -
  let ?v = "ok_view (view_of w)"
  obtain now e1 where now: "time_Now ops (env w) = (now, e1)" by fastforce
  let ?w1 = "w\<lparr>metrics := RecordSalvageSuccess (metrics w), env := e1,
     metrics := RecordSalvageDuration (now - start) (RecordSalvageSuccess (metrics w))\<rparr>"
  have w1: "view_of ?w1 = ?v" by (simp add: ok_view_def view_of_def record_metric_defs)
  obtain w2 where w2: "run_state (EmitSalvaged pod d src (pod_NodeName pod)) ?w1 = ((), w2)"
    by (metis (full_types) old.unit.exhaust surj_pair)
  let ?evt = "empty_event\<lparr>ne_Type := ''salvaged'', ne_PodName := pod_Name pod, ne_Namespace := pod_Namespace pod,
     ne_Digest := d, ne_SourceNode := src, ne_TargetNode := pod_NodeName pod\<rparr>"
  obtain r3 w3 where w3: "run_state (Notify ops (or_Notifier orch) ?evt) w2 = (r3, w3)" by fastforce
  have v3: "view_of w3 = ?v" using w1 w2 w3 by (auto dest!: quiet_runs)
  obtain r4 w4 where w4: "run_state (createSalvageRecord ops pod d imageRef src (pod_NodeName pod) ''Completed'' '''') w3 = (r4, w4)"
    by fastforce
  then obtain rc where rc: "is_record_of pod d imageRef src rc" and v4: "view_of w4 = appending [rc] ?v"
    using v3 createSalvageRecord_view[OF w4] by auto
  obtain u5 w5 where w5: "run_state (backup ops orch pod d imageRef ep src) w4 = (u5, w5)" by (rule prod.exhaust)
  from backup_view[OF w5] v4 obtain push where push: "push_calls orch d imageRef ep push"
    and v5: "view_of w5 = appending (rc # push) ?v" by auto
  have "run_state (recreate ops pod) w5 = (u, w')"
    using assms now w2 w3 w4 w5 by (simp add: salvaged_def)
  then have "view_of w' = appending (pod_deletes pod) (view_of w5)" by (rule recreate_view)
  with rc push v5 show ?thesis by (intro exI[of _ rc] exI[of _ push]) simp
qed

text \<open>The calls of one salvage under a token: prepare on the source, import on the target, what follows.\<close>

definition prepare_call :: "string \<Rightarrow> string \<Rightarrow> string \<Rightarrow> effect" where
  "prepare_call src tok d = AgentCall src (CallPrepareExport \<lparr>pe_SessionToken = tok, pe_Digest = d\<rparr>)"

definition import_call :: "string \<Rightarrow> string \<Rightarrow> string \<Rightarrow> string \<Rightarrow> effect" where
  "import_call tgt tok d src =
     AgentCall tgt (CallImportFrom \<lparr>if_SessionToken = tok, if_Digest = d, if_SourceEndpoint = src\<rparr>)"

definition within_limit :: "'e env_ops \<Rightarrow> Orchestrator \<Rightarrow> string \<Rightarrow> string \<Rightarrow> string \<Rightarrow> bool" where
  "within_limit ops orch src tok d \<longleftrightarrow>
     (\<exists>size e e'. rpc_PrepareExport ops src \<lparr>pe_SessionToken = tok, pe_Digest = d\<rparr> e = (Inr size, e')
        \<and> (or_MaxImageSize orch > 0 \<longrightarrow> size \<le> or_MaxImageSize orch))"

lemma prefix_one: "prefix es [a] \<Longrightarrow> prefix es [a, b] \<and> length es \<noteq> 2"
  by (cases es) auto

lemma salvageImport_view:
  assumes run: "run_state (salvageImport ops orch pod d imageRef sn (pod_NodeName pod) src tgt start tok) w = (r, w')"
  shows "case r of
      Inr _ \<Rightarrow> \<exists>rc push. is_record_of pod d imageRef sn rc \<and> push_calls orch d imageRef src push
        \<and> view_of w' = appending (import_call tgt tok d src # rc # push @ pod_deletes pod) (ok_view (view_of w))
    | Inl e \<Rightarrow> \<exists>es. prefix es [import_call tgt tok d src] \<and> view_of w' = appending es (failed_view (view_of w))"
proof -
  obtain imp w1 where imp: "run_state (importFrom ops orch tgt tok d src) w = (imp, w1)" by fastforce
  from importFrom_view[OF imp] obtain cs where cs: "view_of w1 = appending cs (view_of w)"
    "prefix cs [import_call tgt tok d src]" "is_ok imp \<longrightarrow> cs = [import_call tgt tok d src]"
    unfolding import_call_def by blast
  show ?thesis
  proof (cases imp)
    case (Inl e)
    with run imp have "r = Inl e" "view_of w' = failed_view (view_of w1)"
      by (auto simp: salvageImport_def split: prod.splits dest!: fail_salvage_view)
    with cs(1,2) show ?thesis by (auto intro!: exI[of _ cs])
  next
    case (Inr u)
    with run imp have "r = Inr ()"
      and "run_state (salvaged ops orch pod d imageRef sn (pod_NodeName pod) src start) w1 = ((), w')"
      by (auto simp: salvageImport_def split: prod.splits)
    with salvaged_view[OF this(2)] cs Inr show ?thesis by auto
  qed
qed

lemma salvageSession_view:
  assumes run: "run_state (salvageSession ops orch pod d imageRef sn (pod_NodeName pod) src tgt start tok) w = (r, w')"
  shows "case r of
      Inr _ \<Rightarrow> \<exists>rc push. is_record_of pod d imageRef sn rc \<and> push_calls orch d imageRef src push
        \<and> within_limit ops orch src tok d
        \<and> view_of w' = appending (prepare_call src tok d # import_call tgt tok d src # rc # push @ pod_deletes pod)
             (ok_view (view_of w))
    | Inl e \<Rightarrow> \<exists>es. prefix es [prepare_call src tok d, import_call tgt tok d src]
        \<and> (length es = 2 \<longrightarrow> within_limit ops orch src tok d)
        \<and> view_of w' = appending es (failed_view (view_of w))"
proof -
  obtain size w1 where prep: "run_state (prepareExport ops orch src tok d) w = (size, w1)" by fastforce
  from prepareExport_view[OF prep] obtain es where es: "view_of w1 = appending es (view_of w)"
      "prefix es [prepare_call src tok d]"
    and ok: "\<And>n. size = Inr n \<Longrightarrow> es = [prepare_call src tok d]
       \<and> (\<exists>e e'. rpc_PrepareExport ops src \<lparr>pe_SessionToken = tok, pe_Digest = d\<rparr> e = (Inr n, e'))"
    unfolding prepare_call_def by blast
  consider (failed) "\<exists>e. r = Inl e" "view_of w' = failed_view (view_of w1)"
    | (import) n where "size = Inr n" "or_MaxImageSize orch > 0 \<longrightarrow> n \<le> or_MaxImageSize orch"
      "run_state (salvageImport ops orch pod d imageRef sn (pod_NodeName pod) src tgt start tok) w1 = (r, w')"
    using run prep
    by (auto simp: salvageSession_def Let_def split: sum.splits if_splits prod.splits dest!: fail_salvage_view)
  then show ?thesis
  proof cases
    case failed
    with es(1) prefix_one[OF es(2)] show ?thesis by (auto intro!: exI[of _ es])
  next
    case (import n)
    have lim: "within_limit ops orch src tok d" using ok[OF import(1)] import(2) by (force simp: within_limit_def)
    have w1: "view_of w1 = appending [prepare_call src tok d] (view_of w)" using es(1) ok[OF import(1)] by simp
    show ?thesis
    proof (cases r)
      case (Inl e)
      with salvageImport_view[OF import(3)] obtain cs where "prefix cs [import_call tgt tok d src]"
        "view_of w' = appending cs (failed_view (view_of w1))" by auto
      with Inl w1 lim show ?thesis by (auto intro!: exI[of _ "prepare_call src tok d # cs"])
    next
      case (Inr u)
      with salvageImport_view[OF import(3)] w1 lim show ?thesis by auto
    qed
  qed
qed

lemma firstEndpoint_sound:
  "firstEndpoint r nodeName ps = Inr ep \<Longrightarrow>
   \<exists>p \<in> set ps. pod_NodeName p = nodeName \<and> pod_PodIP p \<noteq> '''' \<and> ep = podEndpoint r p"
  by (induction ps) (auto split: if_splits)

definition agent_endpoint :: "'e env_ops \<Rightarrow> Resolver \<Rightarrow> string \<Rightarrow> string \<Rightarrow> bool" where
  "agent_endpoint ops r nodeName ep \<longleftrightarrow>
     (\<exists>e e' pods. list_Pods ops (rs_Namespace r) agentLabels e = (Inr pods, e')
        \<and> (\<exists>p \<in> set pods. pod_NodeName p = nodeName \<and> pod_PodIP p \<noteq> '''' \<and> ep = podEndpoint r p))"

lemma EndpointForNode_agent:
  assumes "run_state (EndpointForNode ops r nodeName) w = (Inr ep, w')"
  shows "agent_endpoint ops r nodeName ep"
  using assms
  by (auto simp: EndpointForNode_def agent_endpoint_def split: prod.splits sum.splits dest!: firstEndpoint_sound)

text \<open>The calls a salvage with outcome \<open>r\<close> may make.\<close>

definition salvage_calls ::
  "'e env_ops \<Rightarrow> Orchestrator \<Rightarrow> Pod \<Rightarrow> string \<Rightarrow> string \<Rightarrow> string \<Rightarrow> unit result \<Rightarrow> effect list \<Rightarrow> bool" where
  "salvage_calls ops orch pod d imageRef sn r es \<longleftrightarrow>
     (es = [] \<and> \<not> is_ok r) \<or>
     (\<exists>tok src tgt. agent_endpoint ops (or_Resolver orch) sn src
        \<and> agent_endpoint ops (or_Resolver orch) (pod_NodeName pod) tgt \<and>
        (case r of
           Inr _ \<Rightarrow> \<exists>rc push. is_record_of pod d imageRef sn rc \<and> push_calls orch d imageRef src push
             \<and> within_limit ops orch src tok d
             \<and> es = prepare_call src tok d # import_call tgt tok d src # rc # push @ pod_deletes pod
         | Inl e \<Rightarrow> prefix es [prepare_call src tok d, import_call tgt tok d src]
             \<and> (length es = 2 \<longrightarrow> within_limit ops orch src tok d)))"

definition outcome_view :: "unit result \<Rightarrow> view \<Rightarrow> view" where
  "outcome_view r v = (if is_ok r then ok_view v else failed_view v)"

text \<open>A session store from which at most tokens drawn by the generator have been removed.\<close>

definition sessions_restored :: "'e env_ops \<Rightarrow> Store \<Rightarrow> Store \<Rightarrow> bool" where
  "sessions_restored ops s s' \<longleftrightarrow> s' = s \<or> (\<exists>uuid e e'. uuid_New ops e = (uuid, e') \<and> s' = Delete uuid s)"

lemma Delete_Create [simp]: "Delete uuid (snd (Create uuid now d sn tn ttl s)) = Delete uuid s"
  by (simp add: session_defs)

lemma Create_token [simp]: "sess_Token (fst (Create uuid now d sn tn ttl s)) = uuid"
  by (simp add: session_defs)

lemma view_set_sessions_simps [simp]:
  "appending es (v\<lparr>v_sessions := s\<rparr>) = (appending es v)\<lparr>v_sessions := s\<rparr>"
  "ok_view (v\<lparr>v_sessions := s\<rparr>) = (ok_view v)\<lparr>v_sessions := s\<rparr>"
  "failed_view (v\<lparr>v_sessions := s\<rparr>) = (failed_view v)\<lparr>v_sessions := s\<rparr>"
  "outcome_view r (v\<lparr>v_sessions := s\<rparr>) = (outcome_view r v)\<lparr>v_sessions := s\<rparr>"
  "v_sessions (ok_view v) = v_sessions v" "v_sessions (failed_view v) = v_sessions v"
  "v_sessions (outcome_view r v) = v_sessions v" "v_sessions (view_of w) = sessions w"
  by (simp_all add: appending_def ok_view_def failed_view_def outcome_view_def view_of_def)

lemma salvageSession_calls:
  assumes "run_state (salvageSession ops orch pod d imageRef sn (pod_NodeName pod) src tgt start tok) w = (r, w')"
    and "agent_endpoint ops (or_Resolver orch) sn src" "agent_endpoint ops (or_Resolver orch) (pod_NodeName pod) tgt"
  shows "\<exists>es. salvage_calls ops orch pod d imageRef sn r es \<and> view_of w' = appending es (outcome_view r (view_of w))"
proof (cases r)
  case (Inl e)
  then show ?thesis using salvageSession_view[OF assms(1)] assms(2,3)
    by (auto simp: salvage_calls_def outcome_view_def)
next
  case (Inr u)
  with salvageSession_view[OF assms(1)] obtain rc push where
    *: "is_record_of pod d imageRef sn rc" "push_calls orch d imageRef src push" "within_limit ops orch src tok d"
    "view_of w' = appending (prepare_call src tok d # import_call tgt tok d src # rc # push @ pod_deletes pod) (ok_view (view_of w))"
    by auto
  show ?thesis
    unfolding salvage_calls_def Inr
    by (rule exI, intro conjI disjI2 exI) (use * assms(2,3) in \<open>auto simp: outcome_view_def\<close>)
qed

lemma salvageLocked_view:
  assumes run: "run_state (salvageLocked ops orch pod d imageRef sn (pod_NodeName pod) start) w = (r, w')"
  shows "\<exists>es s. salvage_calls ops orch pod d imageRef sn r es \<and> sessions_restored ops (sessions w) s
     \<and> view_of w' = (appending es (outcome_view r (view_of w)))\<lparr>v_sessions := s\<rparr>"
proof -
  have failed: ?thesis if "\<exists>e. r = Inl e" "view_of w' = failed_view (view_of w)"
    using that
    by (intro exI[of _ "[]"] exI[of _ "sessions w"])
       (auto simp: salvage_calls_def sessions_restored_def outcome_view_def failed_view_def view_of_def)
  obtain se w1 where 1: "run_state (EndpointForNode ops (or_Resolver orch) sn) w = (se, w1)" by fastforce
  obtain te w2 where 2: "run_state (EndpointForNode ops (or_Resolver orch) (pod_NodeName pod)) w1 = (te, w2)" by fastforce
  have v1: "view_of w1 = view_of w" and v2: "view_of w2 = view_of w" using 1 2 by (auto dest!: quiet_runs)
  consider (failed) "\<exists>e. r = Inl e" "view_of w' = failed_view (view_of w)"
    | (found) src tgt where "se = Inr src" "te = Inr tgt"
    using run 1 2 v1 v2
    by (cases se; cases te) (auto simp: salvageLocked_def split: prod.splits dest!: fail_salvage_view)
  then show ?thesis
  proof cases
    case (found src tgt)
    obtain uuid e1 where u: "uuid_New ops (env w2) = (uuid, e1)" by fastforce
    obtain now e2 where now: "time_Now ops e1 = (now, e2)" by fastforce
    let ?cr = "Create uuid now d sn (pod_NodeName pod) (or_SessionTTL orch) (sessions w2)"
    let ?w3 = "w2\<lparr>env := e1, env := e2, sessions := snd ?cr\<rparr>"
    obtain w4 where 4: "run_state (salvageSession ops orch pod d imageRef sn (pod_NodeName pod) src tgt start uuid) ?w3 = (r, w4)"
      and w': "w' = w4\<lparr>sessions := Delete uuid (sessions w4)\<rparr>"
      using run 1 2 found u now
      by (auto simp: salvageLocked_def split: prod.splits) (metis Create_token fst_conv snd_conv)
    from salvageSession_calls[OF 4] EndpointForNode_agent 1 2 found obtain es where
      es: "salvage_calls ops orch pod d imageRef sn r es" "view_of w4 = appending es (outcome_view r (view_of ?w3))"
      by blast
    have s4: "sessions w4 = snd ?cr" using arg_cong[OF es(2), of v_sessions] by simp
    have s2: "sessions w2 = sessions w" using arg_cong[OF v2, of v_sessions] by simp
    have "view_of w' = (appending es (outcome_view r (view_of w)))\<lparr>v_sessions := Delete uuid (sessions w)\<rparr>"
      using es(2) w' s4 s2 v2 by simp
    moreover have "sessions_restored ops (sessions w) (Delete uuid (sessions w))"
      using u by (auto simp: sessions_restored_def)
    ultimately show ?thesis using es(1) by blast
  qed (rule failed)
qed

lemma Salvage_view:
  assumes run: "run_state (Salvage ops orch pod d imageRef sn) w = (r, w')"
  shows "if semaphore w < or_SemCap orch
     then \<exists>es s. salvage_calls ops orch pod d imageRef sn r es \<and> sessions_restored ops (sessions w) s
       \<and> view_of w' = (appending es (outcome_view r (view_of w)))
            \<lparr>v_attempts := Suc (SalvageAttempts (metrics w)), v_sessions := s\<rparr>
     else r = Inl errRateLimited \<and> view_of w' = (view_of w)\<lparr>v_attempts := Suc (SalvageAttempts (metrics w))\<rparr>"
proof -
  obtain start e1 where start: "time_Now ops (env w) = (start, e1)" by fastforce
  let ?w1 = "w\<lparr>metrics := RecordSalvageAttempt (metrics w), env := e1\<rparr>"
  show ?thesis
  proof (cases "semaphore w < or_SemCap orch")
    case True
    let ?w2 = "?w1\<lparr>semaphore := Suc (semaphore w)\<rparr>"
    obtain w3 where 3: "run_state (salvageLocked ops orch pod d imageRef sn (pod_NodeName pod) start) ?w2 = (r, w3)"
      and w': "w' = w3\<lparr>semaphore := semaphore w3 - 1\<rparr>"
      using run start True by (auto simp: Salvage_def Let_def tryAcquire_def release_def split: prod.splits)
    from salvageLocked_view[OF 3] obtain es s where
      es: "salvage_calls ops orch pod d imageRef sn r es" "sessions_restored ops (sessions w) s"
      and v3: "view_of w3 = (appending es (outcome_view r (view_of ?w2)))\<lparr>v_sessions := s\<rparr>" by auto
    have sem: "semaphore w3 = Suc (semaphore w)"
      using arg_cong[OF v3, of v_semaphore]
      by (simp add: view_of_def appending_def outcome_view_def ok_view_def failed_view_def)
    have "view_of w' = (appending es (outcome_view r (view_of w)))\<lparr>v_attempts := Suc (SalvageAttempts (metrics w)), v_sessions := s\<rparr>"
      using v3 sem by (cases "is_ok r") (simp_all add: w' appending_def outcome_view_def ok_view_def failed_view_def view_of_def record_metric_defs)
    with es True show ?thesis by auto
  next
    case False
    with run start show ?thesis
      by (auto simp: Salvage_def Let_def tryAcquire_def view_of_def)
         (simp_all add: record_metric_defs)
  qed
qed

lemma firstEndpoint_complete:
  "p \<in> set ps \<Longrightarrow> pod_NodeName p = nodeName \<Longrightarrow> pod_PodIP p \<noteq> '''' \<Longrightarrow> \<exists>ep. firstEndpoint r nodeName ps = Inr ep"
  by (induction ps) auto

lemma firstEndpoint_none:
  "(\<And>p. p \<in> set ps \<Longrightarrow> pod_PodIP p = '''') \<Longrightarrow> \<not> is_ok (firstEndpoint r nodeName ps)"
  by (induction ps) auto

lemma EndpointForNode_result:
  assumes "\<And>e. fst (list_Pods ops (rs_Namespace r) agentLabels e) = Inr pods"
  shows "fst (run_state (EndpointForNode ops r nodeName) w) = firstEndpoint r nodeName pods"
proof -
  obtain e' where "list_Pods ops (rs_Namespace r) agentLabels (env w) = (Inr pods, e')"
    using assms[of "env w"] by (metis prod.collapse)
  then show ?thesis by (simp add: EndpointForNode_def)
qed

lemma loadRegistryCredentials_metrics: "rel_act (keeps metrics) (loadRegistryCredentials ops orch)"
  unfolding loadRegistryCredentials_def by (intro kp.rel_rules rel_intros)

lemma pushImage_metrics: "rel_act (keeps metrics) (pushImage ops orch ep d ref us pa)"
  unfolding pushImage_def by (intro kp.rel_rules rel_intros)

lemma push_failure_metrics:
  "run_state (push_failure pod d ref e) w = (u, w') \<Longrightarrow> metrics w' = RecordPushFailure (metrics w)"
  using rel_actD[OF Eventf_rel(4)] by (auto simp: push_failure_def EmitPushFailed_def keeps_def Eventf_def)

lemma push_success_metrics:
  assumes "run_state (push_success ops orch pod d ref sn start) w = (u, w')"
  shows "\<exists>dur. metrics w' = RecordPushDuration dur (RecordPushSuccess (metrics w))"
proof -
  have "metrics w2 = metrics w1" if "run_state (Notify ops (or_Notifier orch) evt) w1 = (r, w2)" for evt w1 w2 r
    using rel_actD[OF Notify_rel(4) that] by (simp add: keeps_def)
  then show ?thesis using assms
    by (auto simp: push_success_def EmitPushed_def Eventf_def split: prod.splits)
qed

lemma prepareExport_result:
  assumes "\<And>ep. is_ok (grpc_NewClient ops ep (dialOption orch))"
    and "\<And>ep req e. fst (rpc_PrepareExport ops ep req e) = Inr sz"
  shows "fst (run_state (prepareExport ops orch ep tok d) w) = Inr sz"
proof -
  let ?req = "\<lparr>pe_SessionToken = tok, pe_Digest = d\<rparr>"
  obtain e' where "rpc_PrepareExport ops ep ?req (env w) = (Inr sz, e')"
    using assms(2)[of ep ?req "env w"] by (metis prod.collapse)
  then show ?thesis
    using assms(1)[of ep] by (cases "grpc_NewClient ops ep (dialOption orch)") (auto simp: prepareExport_def)
qed

lemma importFrom_result:
  assumes "\<And>ep. is_ok (grpc_NewClient ops ep (dialOption orch))"
    and "\<And>ep req e. \<exists>resp. fst (rpc_ImportFrom ops ep req e) = Inr resp \<and> ifr_Success resp"
  shows "fst (run_state (importFrom ops orch ep tok d src) w) = Inr ()"
proof -
  let ?req = "\<lparr>if_SessionToken = tok, if_Digest = d, if_SourceEndpoint = src\<rparr>"
  obtain resp e' where "rpc_ImportFrom ops ep ?req (env w) = (Inr resp, e')" "ifr_Success resp"
    using assms(2)[of ep ?req "env w"] by (metis prod.collapse)
  then show ?thesis
    using assms(1)[of ep] by (cases "grpc_NewClient ops ep (dialOption orch)") (auto simp: importFrom_def Let_def)
qed

lemma salvageSession_result:
  assumes "\<And>ep. is_ok (grpc_NewClient ops ep (dialOption orch))"
    and "\<And>ep req e. fst (rpc_PrepareExport ops ep req e) = Inr sz"
    and "or_MaxImageSize orch > 0 \<longrightarrow> sz \<le> or_MaxImageSize orch"
    and "\<And>ep req e. \<exists>resp. fst (rpc_ImportFrom ops ep req e) = Inr resp \<and> ifr_Success resp"
  shows "fst (run_state (salvageSession ops orch pod d imageRef sn tn src tgt start tok) w) = Inr ()"
proof -
  obtain w1 where 1: "run_state (prepareExport ops orch src tok d) w = (Inr sz, w1)"
    using prepareExport_result[OF assms(1,2)] by (metis prod.collapse)
  obtain w2 where 2: "run_state (importFrom ops orch tgt tok d src) w1 = (Inr (), w2)"
    using importFrom_result[OF assms(1,4)] by (metis prod.collapse)
  from assms(3) 1 2 show ?thesis
    by (auto simp: salvageSession_def salvageImport_def split: prod.splits)
qed

lemma Salvage_ok:
  assumes "semaphore w < or_SemCap orch"
    and pods: "\<And>e. fst (list_Pods ops (rs_Namespace (or_Resolver orch)) agentLabels e) = Inr pods"
    and src: "\<exists>p \<in> set pods. pod_NodeName p = sn \<and> pod_PodIP p \<noteq> ''''"
    and tgt: "\<exists>p \<in> set pods. pod_NodeName p = pod_NodeName pod \<and> pod_PodIP p \<noteq> ''''"
    and rpc: "\<And>ep. is_ok (grpc_NewClient ops ep (dialOption orch))"
      "\<And>ep req e. fst (rpc_PrepareExport ops ep req e) = Inr sz"
      "or_MaxImageSize orch > 0 \<longrightarrow> sz \<le> or_MaxImageSize orch"
      "\<And>ep req e. \<exists>resp. fst (rpc_ImportFrom ops ep req e) = Inr resp \<and> ifr_Success resp"
  shows "fst (run_state (Salvage ops orch pod d imageRef sn) w) = Inr ()"
proof -
  from src tgt obtain s t where ep: "firstEndpoint (or_Resolver orch) sn pods = Inr s"
    "firstEndpoint (or_Resolver orch) (pod_NodeName pod) pods = Inr t"
    by (metis firstEndpoint_complete)
  have e: "\<exists>w'. run_state (EndpointForNode ops (or_Resolver orch) n) w = (firstEndpoint (or_Resolver orch) n pods, w')" for n w
    using EndpointForNode_result[OF pods] by (metis prod.collapse)
  have "fst (run_state (salvageLocked ops orch pod d imageRef sn (pod_NodeName pod) start) w0) = Inr ()" for start w0
  proof -
    obtain w1 where 1: "run_state (EndpointForNode ops (or_Resolver orch) sn) w0 = (Inr s, w1)" using e ep(1) by metis
    obtain w2 where 2: "run_state (EndpointForNode ops (or_Resolver orch) (pod_NodeName pod)) w1 = (Inr t, w2)"
      using e ep(2) by metis
    show ?thesis
      using 1 2 salvageSession_result[OF rpc, of pod d imageRef sn "pod_NodeName pod" s t start]
      by (auto simp: salvageLocked_def split: prod.splits) (metis fst_conv)
  qed
  then show ?thesis using assms(1)
    by (auto simp: Salvage_def Let_def tryAcquire_def split: prod.splits) (metis fst_conv)
qed

section \<open>Which effects a salvage may have\<close>

definition for_pod :: "Pod \<Rightarrow> effect \<Rightarrow> bool" where
  "for_pod pod x =
     (case x of
        Recorded ev \<Rightarrow> re_Namespace ev = pod_Namespace pod \<and> re_Pod ev = pod_Name pod
      | Posted u ev \<Rightarrow> ne_Namespace ev = pod_Namespace pod \<and> ne_PodName ev = pod_Name pod
      | _ \<Rightarrow> False)"

definition salvage_effect :: "Pod \<Rightarrow> string \<Rightarrow> string \<Rightarrow> effect \<Rightarrow> bool" where
  "salvage_effect pod d sn x \<longleftrightarrow> for_pod pod x \<or>
     (case x of
        PodDelete ns n \<Rightarrow> ns = pod_Namespace pod \<and> n = pod_Name pod \<and> pod_OwnerReferences pod \<noteq> []
      | RecordCreate rc \<Rightarrow> rec_Namespace rc = pod_Namespace pod \<and> PodName (rec_Spec rc) = pod_Name pod
          \<and> Digest (rec_Spec rc) = d \<and> SourceNode (rec_Spec rc) = sn \<and> TargetNode (rec_Spec rc) = pod_NodeName pod
      | AgentCall ep (CallPrepareExport q) \<Rightarrow> pe_Digest q = d
      | AgentCall ep (CallImportFrom q) \<Rightarrow> if_Digest q = d
      | AgentCall ep (CallPushImage q) \<Rightarrow> pi_Digest q = d
      | _ \<Rightarrow> False)"

lemma for_pod_simps [simp]:
  "for_pod pod (Recorded ev) \<longleftrightarrow> re_Namespace ev = pod_Namespace pod \<and> re_Pod ev = pod_Name pod"
  "for_pod pod (Posted u n) \<longleftrightarrow> ne_Namespace n = pod_Namespace pod \<and> ne_PodName n = pod_Name pod"
  by (simp_all add: for_pod_def)

lemma Eventf_for_pod: "rel_act (emits_only (for_pod pod)) (Eventf pod ty reason action note)"
  unfolding Eventf_def by (rule emits_only_emit) simp

lemma Emit_for_pod:
  "rel_act (emits_only (for_pod pod)) (EmitSalvageable pod img nodes)"
  "rel_act (emits_only (for_pod pod)) (EmitNotActionable pod img)"
  "rel_act (emits_only (for_pod pod)) (EmitSalvaged pod img src tgt)"
  "rel_act (emits_only (for_pod pod)) (EmitSalvageFailed pod img reason)"
  "rel_act (emits_only (for_pod pod)) (EmitCorruptImage pod img nodeName)"
  "rel_act (emits_only (for_pod pod)) (EmitPushed pod digest ref src)"
  "rel_act (emits_only (for_pod pod)) (EmitPushFailed pod digest ref reason)"
  "rel_act (emits_only (for_pod pod)) (EmitResolvedButUncached pod img digest)"
  unfolding EmitSalvageable_def EmitNotActionable_def EmitSalvaged_def EmitSalvageFailed_def
    EmitCorruptImage_def EmitPushed_def EmitPushFailed_def EmitResolvedButUncached_def
  by (rule Eventf_for_pod)+

lemma Notify_for_pod:
  "ne_Namespace evt = pod_Namespace pod \<Longrightarrow> ne_PodName evt = pod_Name pod \<Longrightarrow>
   rel_act (emits_only (for_pod pod)) (Notify ops notifier evt)"
  by (rule emits_only_mono[OF Notify_allowed]) (auto simp: allowed_post_def)

lemma for_pod_salvage: "for_pod pod x \<Longrightarrow> salvage_effect pod d sn x"
  by (simp add: salvage_effect_def)

lemmas Emit_salvage_effect = Emit_for_pod[THEN emits_only_mono, OF for_pod_salvage]
  Notify_for_pod[THEN emits_only_mono, OF _ _ for_pod_salvage]

lemma salvage_effect_simps [simp]:
  "salvage_effect pod d sn (PodDelete ns n) \<longleftrightarrow> ns = pod_Namespace pod \<and> n = pod_Name pod \<and> pod_OwnerReferences pod \<noteq> []"
  "salvage_effect pod d sn (RecordCreate rc) \<longleftrightarrow> rec_Namespace rc = pod_Namespace pod \<and> PodName (rec_Spec rc) = pod_Name pod
     \<and> Digest (rec_Spec rc) = d \<and> SourceNode (rec_Spec rc) = sn \<and> TargetNode (rec_Spec rc) = pod_NodeName pod"
  "salvage_effect pod d sn (AgentCall ep (CallPrepareExport q)) \<longleftrightarrow> pe_Digest q = d"
  "salvage_effect pod d sn (AgentCall ep (CallImportFrom iq)) \<longleftrightarrow> if_Digest iq = d"
  "salvage_effect pod d sn (AgentCall ep (CallPushImage pq)) \<longleftrightarrow> pi_Digest pq = d"
  "\<not> salvage_effect pod d sn (AgentCall ep (CallResolveTag rq))" "\<not> salvage_effect pod d sn (AgentCall ep (CallRemoveImage mq))"
  "\<not> salvage_effect pod d sn (RecordDelete ns n)"
  by (simp_all add: salvage_effect_def for_pod_def)

lemma EndpointForNode_silent [rel_intros]: "rel_act (emits_only P) (EndpointForNode ops r nodeName)"
  unfolding EndpointForNode_def by (intro em.rel_rules rel_intros)

lemma fail_salvage_effect: "rel_act (emits_only (salvage_effect pod d sn)) (fail_salvage ops orch pod d reason)"
  unfolding fail_salvage_def by (intro em.rel_rules rel_intros Emit_salvage_effect) simp_all

lemma recreate_effect: "rel_act (emits_only (salvage_effect pod d sn)) (recreate ops pod)"
  unfolding recreate_def deletePod_def by (intro em.rel_rules rel_intros emits_only_emit) simp_all

lemma backup_effect:
  "rel_act (emits_only (salvage_effect pod d sn)) (backup ops orch pod d imageRef ep sn)"
  unfolding backup_def pushToBackupRegistry_def loadRegistryCredentials_def pushImage_def push_failure_def push_success_def
  by (intro em.rel_rules rel_intros emits_only_emit Emit_salvage_effect) simp_all

lemma salvaged_effect:
  "rel_act (emits_only (salvage_effect pod d sn)) (salvaged ops orch pod d imageRef sn (pod_NodeName pod) ep start)"
  unfolding salvaged_def createSalvageRecord_def
  by (intro em.rel_rules rel_intros emits_only_emit Emit_salvage_effect backup_effect recreate_effect)
     (simp_all add: salvageRecord_def)

lemma Salvage_effect: "rel_act (emits_only (salvage_effect pod d sn)) (Salvage ops orch pod d imageRef sn)"
  unfolding Salvage_def salvageLocked_def salvageSession_def salvageImport_def prepareExport_def importFrom_def
  by (intro em.rel_rules rel_intros emits_only_emit fail_salvage_effect) (simp_all add: salvaged_effect)

lemma Salvage_semaphore [rel_intros]: "rel_act (keeps semaphore) (Salvage ops orch pod d imageRef sn)"
  unfolding rel_act_def keeps_def
proof
  fix w
  obtain r w' where run: "run_state (Salvage ops orch pod d imageRef sn) w = (r, w')" by fastforce
  from Salvage_view[OF run] have "v_semaphore (view_of w') = v_semaphore (view_of w)"
    by (auto simp: appending_def outcome_view_def ok_view_def failed_view_def split: if_splits)
  then show "semaphore (snd (run_state (Salvage ops orch pod d imageRef sn) w)) = semaphore w"
    using run by (simp add: view_of_def)
qed

lemma Salvage_acts:
  assumes "run_state (Salvage ops orch pod d imageRef sn) w = (r, w')"
  shows "\<exists>es. acts (trace w') = acts (trace w) @ es \<and> salvage_calls ops orch pod d imageRef sn r es"
proof (cases "semaphore w < or_SemCap orch")
  case True
  with Salvage_view[OF assms] show ?thesis
    by (auto simp: view_of_def appending_def outcome_view_def ok_view_def failed_view_def split: if_splits)
next
  case False
  with Salvage_view[OF assms] show ?thesis
    by (intro exI[of _ "[]"]) (auto simp: view_of_def salvage_calls_def)
qed

section \<open>Asking the agents\<close>

text \<open>What an agent pod contributes to the resolution of a tag: nothing without an address, on an error or
  without the image.\<close>

definition tag_answer :: "(string \<Rightarrow> string result) \<Rightarrow> Resolver \<Rightarrow> Pod \<Rightarrow> string" where
  "tag_answer ans r p =
     (if pod_PodIP p = '''' then '''' else case ans (podEndpoint r p) of Inl _ \<Rightarrow> '''' | Inr d \<Rightarrow> d)"

definition tag_calls :: "Resolver \<Rightarrow> string \<Rightarrow> Pod list \<Rightarrow> effect list" where
  "tag_calls r ref ps =
     map (\<lambda>p. AgentCall (podEndpoint r p) (CallResolveTag \<lparr>rt_ImageRef = ref\<rparr>)) (filter (\<lambda>p. pod_PodIP p \<noteq> '''') ps)"

lemma resolveLoop_first:
  assumes ans: "\<And>ep e. rpc_ResolveTag ops ep \<lparr>rt_ImageRef = ref\<rparr> e = (ans ep, e)"
    and conn: "\<And>ep. grpc_NewClient ops ep (resolver_dialOption r) = Inr ()"
  shows "run_state (resolveLoop ops r ref ps) w =
     (case dropWhile (\<lambda>p. tag_answer ans r p = '''') ps of [] \<Rightarrow> ('''', '''') | p # _ \<Rightarrow> (tag_answer ans r p, pod_NodeName p),
      w\<lparr>trace := trace w @ tag_calls r ref (takeWhile (\<lambda>p. tag_answer ans r p = '''') ps
          @ take 1 (dropWhile (\<lambda>p. tag_answer ans r p = '''') ps))\<rparr>)"
proof (induction ps arbitrary: w)
  case (Cons p ps)
  then show ?case
    by (cases "ans (podEndpoint r p)")
       (auto simp: resolveTagFromAgent_def ans conn tag_answer_def tag_calls_def)
qed (simp add: tag_calls_def)

section \<open>Salvages in parallel\<close>

text \<open>
  Salvages run concurrently share the semaphore and the session store. The steps of one salvage that
  touch them are: taking a place (or being turned away), opening a session, closing it and giving
  the place back, in the order of the deferred calls; a salvage without agents gives its place
  back without a session. \<open>conc_step\<close> interleaves the steps of any number of salvages, each drawing
  a token that is not in use.
\<close>

datatype phase = Outside | Holding | InSession string | Leaving

record sys =
  sy_sem :: nat
  sy_store :: Store
  sy_phase :: "nat \<Rightarrow> phase"

definition sys_init :: sys where
  "sys_init = \<lparr>sy_sem = 0, sy_store = NewStore, sy_phase = (\<lambda>_. Outside)\<rparr>"

inductive conc_step :: "nat \<Rightarrow> sys \<Rightarrow> sys \<Rightarrow> bool" for cap where
  take: "sy_phase s i = Outside \<Longrightarrow> tryAcquire cap (sy_sem s) = (True, n) \<Longrightarrow>
    conc_step cap s (s\<lparr>sy_sem := n, sy_phase := (sy_phase s)(i := Holding)\<rparr>)"
| turned_away: "sy_phase s i = Outside \<Longrightarrow> tryAcquire cap (sy_sem s) = (False, n) \<Longrightarrow>
    conc_step cap s (s\<lparr>sy_sem := n\<rparr>)"
| open_session: "sy_phase s i = Holding \<Longrightarrow> (\<forall>j. sy_phase s j \<noteq> InSession uuid) \<Longrightarrow>
    Create uuid now d src tgt ttl (sy_store s) = (sess, st') \<Longrightarrow>
    conc_step cap s (s\<lparr>sy_store := st', sy_phase := (sy_phase s)(i := InSession (sess_Token sess))\<rparr>)"
| close_session: "sy_phase s i = InSession tok \<Longrightarrow>
    conc_step cap s (s\<lparr>sy_store := Delete tok (sy_store s), sy_phase := (sy_phase s)(i := Leaving)\<rparr>)"
| leave: "sy_phase s i = Holding \<or> sy_phase s i = Leaving \<Longrightarrow> release (sy_sem s) = (u, n) \<Longrightarrow>
    conc_step cap s (s\<lparr>sy_sem := n, sy_phase := (sy_phase s)(i := Outside)\<rparr>)"

inductive_cases conc_stepE: "conc_step cap s s'"

definition active :: "sys \<Rightarrow> nat set" where
  "active s = {i. sy_phase s i \<noteq> Outside}"

definition tokens :: "(nat \<Rightarrow> phase) \<Rightarrow> string set" where
  "tokens ph = {tok. \<exists>i. ph i = InSession tok}"

definition exclusive :: "(nat \<Rightarrow> phase) \<Rightarrow> bool" where
  "exclusive ph \<longleftrightarrow> (\<forall>i j tok. ph i = InSession tok \<longrightarrow> ph j = InSession tok \<longrightarrow> i = j)"

definition conc_inv :: "nat \<Rightarrow> sys \<Rightarrow> bool" where
  "conc_inv cap s \<longleftrightarrow> finite (active s) \<and> sy_sem s = card (active s) \<and> sy_sem s \<le> cap
     \<and> exclusive (sy_phase s) \<and> dom (store_sessions (sy_store s)) = tokens (sy_phase s)"

lemma tokens_no_session:
  assumes "\<And>t. ph i \<noteq> InSession t" and "\<And>t. p \<noteq> InSession t"
  shows "tokens (ph(i := p)) = tokens ph" and "exclusive ph \<Longrightarrow> exclusive (ph(i := p))"
proof -
  show "tokens (ph(i := p)) = tokens ph"
  proof (intro set_eqI iffI)
    fix tok assume "tok \<in> tokens ph"
    then obtain j where "ph j = InSession tok" by (auto simp: tokens_def)
    with assms(1)[of tok] have "(ph(i := p)) j = InSession tok" by auto
    then show "tok \<in> tokens (ph(i := p))" unfolding tokens_def by blast
  qed (use assms(2) in \<open>auto simp: tokens_def split: if_splits\<close>)
  show "exclusive ph \<Longrightarrow> exclusive (ph(i := p))"
    using assms(2) by (auto simp: exclusive_def)
qed

lemma tokens_open:
  assumes "\<And>t. ph i \<noteq> InSession t" and "\<And>j. ph j \<noteq> InSession tok"
  shows "tokens (ph(i := InSession tok)) = insert tok (tokens ph)"
    and "exclusive ph \<Longrightarrow> exclusive (ph(i := InSession tok))"
proof -
  show "tokens (ph(i := InSession tok)) = insert tok (tokens ph)"
  proof (intro set_eqI iffI)
    fix x assume "x \<in> insert tok (tokens ph)"
    then consider "x = tok" | j where "ph j = InSession x" by (auto simp: tokens_def)
    then have "\<exists>j. (ph(i := InSession tok)) j = InSession x"
    proof cases
      case (2 j)
      with assms(1) have "(ph(i := InSession tok)) j = InSession x" by auto
      then show ?thesis ..
    qed (auto intro: exI[of _ i])
    then show "x \<in> tokens (ph(i := InSession tok))" by (simp add: tokens_def)
  qed (auto simp: tokens_def split: if_splits)
  show "exclusive ph \<Longrightarrow> exclusive (ph(i := InSession tok))"
    using assms(2) by (auto simp: exclusive_def)
qed

lemma tokens_close:
  assumes "exclusive ph" and "ph i = InSession tok" and "\<And>t. p \<noteq> InSession t"
  shows "tokens (ph(i := p)) = tokens ph - {tok}" and "exclusive (ph(i := p))"
proof -
  show "tokens (ph(i := p)) = tokens ph - {tok}"
  proof (intro set_eqI iffI)
    fix x assume "x \<in> tokens ph - {tok}"
    then obtain j where "ph j = InSession x" "x \<noteq> tok" by (auto simp: tokens_def)
    with assms(2) have "(ph(i := p)) j = InSession x" by auto
    then show "x \<in> tokens (ph(i := p))" unfolding tokens_def by blast
  next
    fix x assume "x \<in> tokens (ph(i := p))"
    then obtain j where "j \<noteq> i" "ph j = InSession x" using assms(3) by (auto simp: tokens_def split: if_splits)
    with assms(1,2) show "x \<in> tokens ph - {tok}" unfolding tokens_def exclusive_def by blast
  qed
  show "exclusive (ph(i := p))" using assms(1,3) by (auto simp: exclusive_def)
qed

lemma conc_inv_step: "conc_step cap s s' \<Longrightarrow> conc_inv cap s \<Longrightarrow> conc_inv cap s'"
proof (induction rule: conc_step.induct)
  case (take s i n)
  then have "active (s\<lparr>sy_sem := n, sy_phase := (sy_phase s)(i := Holding)\<rparr>) = insert i (active s)" "i \<notin> active s"
    by (auto simp: active_def)
  with take show ?case by (auto simp: conc_inv_def tryAcquire_def tokens_no_session split: if_splits)
next
  case (turned_away s i n)
  then show ?case by (auto simp: conc_inv_def tryAcquire_def active_def split: if_splits)
next
  case (open_session s i uuid now d src tgt ttl sess st')
  then have "active (s\<lparr>sy_store := st', sy_phase := (sy_phase s)(i := InSession (sess_Token sess))\<rparr>) = active s"
    by (auto simp: active_def)
  moreover from open_session have "sess_Token sess = uuid" "dom (store_sessions st') = insert uuid (dom (store_sessions (sy_store s)))"
    by (auto simp: Create_def Let_def)
  ultimately show ?case using open_session by (simp add: conc_inv_def tokens_open)
next
  case (close_session s i tok)
  then have "active (s\<lparr>sy_store := Delete tok (sy_store s), sy_phase := (sy_phase s)(i := Leaving)\<rparr>) = active s"
    by (auto simp: active_def)
  with close_session show ?case by (auto simp: conc_inv_def Delete_def tokens_close)
next
  case (leave s i u n)
  then have "active (s\<lparr>sy_sem := n, sy_phase := (sy_phase s)(i := Outside)\<rparr>) = active s - {i}" "i \<in> active s"
    by (auto simp: active_def)
  moreover from leave have "\<And>t. sy_phase s i \<noteq> InSession t" by auto
  ultimately show ?case using leave by (auto simp: conc_inv_def release_def tokens_no_session)
qed

lemma conc_inv_init: "conc_inv cap sys_init"
  by (simp add: conc_inv_def sys_init_def active_def NewStore_def tokens_def exclusive_def)

lemma conc_inv_reachable: "(conc_step cap)\<^sup>*\<^sup>* sys_init s \<Longrightarrow> conc_inv cap s"
  by (induction rule: rtranclp_induct) (auto intro: conc_inv_init conc_inv_step)

section \<open>An example cluster\<close>

text \<open>Two agents that answer every call, on nodes a and b, and an owned pod on node b; the state of the
  outside is trivial.\<close>

definition agent_pod :: "string \<Rightarrow> string \<Rightarrow> Pod" where
  "agent_pod nodeName ip = blank_pod\<lparr>pod_NodeName := nodeName, pod_PodIP := ip\<rparr>"

definition example_cluster :: "unit env_ops" where
  "example_cluster = failing_ops
     \<lparr>list_Pods := (\<lambda>ns l. Pair (Inr [agent_pod ''a'' ''10.0.0.1'', agent_pod ''b'' ''10.0.0.2''])),
      rpc_PrepareExport := (\<lambda>ep req. Pair (Inr 3)),
      rpc_ImportFrom := (\<lambda>ep req. Pair (Inr \<lparr>ifr_Success = True, ifr_Error = ''''\<rparr>)),
      rpc_ResolveTag := (\<lambda>ep req. Pair (if ep = ''10.0.0.2:9090'' then Inr ''sha256:x'' else Inr ''''))\<rparr>"

definition example_orchestrator :: Orchestrator where
  "example_orchestrator = \<lparr>or_Resolver = NewResolver ''tote-system'' 9090, or_SemCap = 2, or_SessionTTL = 5 * Minute,
     or_MaxImageSize = 10, or_BackupRegistry = '''', or_BackupRegistrySecret = '''', or_BackupRegistryInsecure = False,
     or_SecretNamespace = '''', or_TransportCreds = None, or_Notifier = None\<rparr>"

definition owned_pod :: Pod where
  "owned_pod = blank_pod\<lparr>pod_NodeName := ''b'', pod_Meta := blank_meta\<lparr>meta_Name := ''web-1'', meta_Namespace := ''prod'',
     meta_OwnerReferences := [\<lparr>owner_Kind = ''ReplicaSet'', owner_Name = ''web''\<rparr>]\<rparr>\<rparr>"

section \<open>Properties\<close>

text \<open>C8: every salvage is counted once as attempted and, unless the limit of concurrent salvages is
  reached, once as succeeded or failed, in agreement with what it returns; at the limit it only
  returns the rate-limit error, without any call. Whatever happens, it gives its place in the
  semaphore back, and the session it opened is gone: no session appears, and only a token drawn
  for this salvage can disappear.\<close>

theorem Salvage_accounts_and_restores:
  assumes "run_state (Salvage ops orch pod d imageRef sn) w = (r, w')"
  shows "SalvageAttempts (metrics w') = Suc (SalvageAttempts (metrics w))
     \<and> SalvageSuccesses (metrics w') = SalvageSuccesses (metrics w) + (if is_ok r then 1 else 0)
     \<and> SalvageFailures (metrics w') = SalvageFailures (metrics w) + (if is_ok r \<or> or_SemCap orch \<le> semaphore w then 0 else 1)
     \<and> (or_SemCap orch \<le> semaphore w \<longrightarrow> r = Inl errRateLimited \<and> acts (trace w') = acts (trace w))
     \<and> semaphore w' = semaphore w
     \<and> (\<forall>tok. store_sessions (sessions w') tok = store_sessions (sessions w) tok
          \<or> store_sessions (sessions w') tok = None \<and> (\<exists>e. fst (uuid_New ops e) = tok))"
proof (cases "semaphore w < or_SemCap orch")
  case True
  with Salvage_view[OF assms] obtain es s where s: "sessions_restored ops (sessions w) s"
    and v: "view_of w' = (appending es (outcome_view r (view_of w)))
            \<lparr>v_attempts := Suc (SalvageAttempts (metrics w)), v_sessions := s\<rparr>" by auto
  from s have "store_sessions s tok = store_sessions (sessions w) tok
      \<or> store_sessions s tok = None \<and> (\<exists>e. fst (uuid_New ops e) = tok)" for tok
    unfolding sessions_restored_def by (auto simp: Delete_def) (metis fst_conv)
  with v True show ?thesis
    by (auto simp: view_of_def appending_def outcome_view_def ok_view_def failed_view_def split: if_splits)
next
  case False
  with Salvage_view[OF assms] show ?thesis by (auto simp: view_of_def)
qed

theorem Salvage_accounts_and_restores_witness:
  "let w' = snd (run_state (Salvage example_cluster (example_orchestrator\<lparr>or_SemCap := 0\<rparr>) owned_pod ''sha256:x'' ''web:1'' ''a'')
      (init_world ()))
   in SalvageAttempts (metrics w') = 1 \<and> SalvageFailures (metrics w') = 0 \<and> semaphore w' = 0"
  using Salvage_accounts_and_restores[OF prod.collapse[symmetric], of example_cluster
      "example_orchestrator\<lparr>or_SemCap := 0\<rparr>" owned_pod "''sha256:x''" "''web:1''" "''a''" "init_world ()"]
  by (simp add: init_world_def NewCounters_def Let_def)

text \<open>C1: the calls a salvage makes on agents and on the cluster. If it succeeds they are, in this
  order: prepare on an agent of the source node, import on an agent of the pod's node with the same
  token, one SalvageRecord, at most one push to a configured backup registry, and the deletion of
  the pod exactly if it has an owner. If it fails they are a prefix of prepare and import: no
  record is made and no pod is deleted. No import is asked for unless the announced size is within
  the configured limit.\<close>

theorem Salvage_calls:
  assumes "run_state (Salvage ops orch pod d imageRef sn) w = (r, w')"
  shows "\<exists>es. acts (trace w') = acts (trace w) @ es \<and> salvage_calls ops orch pod d imageRef sn r es"
  by (rule Salvage_acts[OF assms])

theorem Salvage_calls_witness:
  "\<exists>es. acts (trace (snd (run_state (Salvage example_cluster example_orchestrator owned_pod ''sha256:x'' ''web:1'' ''a'')
        (init_world ())))) = es
     \<and> salvage_calls example_cluster example_orchestrator owned_pod ''sha256:x'' ''web:1'' ''a''
         (fst (run_state (Salvage example_cluster example_orchestrator owned_pod ''sha256:x'' ''web:1'' ''a'') (init_world ()))) es"
  using Salvage_calls[OF prod.collapse[symmetric], of example_cluster example_orchestrator owned_pod
      "''sha256:x''" "''web:1''" "''a''" "init_world ()"]
  by (simp add: init_world_def)

text \<open>A salvage goes through when it can: if there is room in the semaphore, the source and the
  target node each run an agent with an address, connections can be made, the source announces a
  size within the limit and the target reports a successful import, then the salvage succeeds,
  even if the record cannot be created, the push fails or the pod cannot be deleted.\<close>

theorem Salvage_succeeds:
  assumes "semaphore w < or_SemCap orch"
    and "\<And>e. fst (list_Pods ops (rs_Namespace (or_Resolver orch)) agentLabels e) = Inr pods"
    and "\<exists>p \<in> set pods. pod_NodeName p = sn \<and> pod_PodIP p \<noteq> ''''"
    and "\<exists>p \<in> set pods. pod_NodeName p = pod_NodeName pod \<and> pod_PodIP p \<noteq> ''''"
    and "\<And>ep. is_ok (grpc_NewClient ops ep (dialOption orch))"
      "\<And>ep req e. fst (rpc_PrepareExport ops ep req e) = Inr sz"
      "or_MaxImageSize orch > 0 \<longrightarrow> sz \<le> or_MaxImageSize orch"
      "\<And>ep req e. \<exists>resp. fst (rpc_ImportFrom ops ep req e) = Inr resp \<and> ifr_Success resp"
  shows "fst (run_state (Salvage ops orch pod d imageRef sn) w) = Inr ()"
  by (rule Salvage_ok[OF assms])

theorem Salvage_succeeds_witness:
  "fst (run_state (Salvage example_cluster example_orchestrator owned_pod ''sha256:x'' ''web:1'' ''a'') (init_world ())) = Inr ()"
  by (rule Salvage_succeeds[where sz = 3 and pods = "[agent_pod ''a'' ''10.0.0.1'', agent_pod ''b'' ''10.0.0.2'']"])
     (simp_all add: example_cluster_def example_orchestrator_def failing_ops_def init_world_def agent_pod_def owned_pod_def)

text \<open>The push to the backup registry never changes the outcome of a salvage and is itself accounted
  for: an attempt is counted when a target reference could be built, and every attempt is counted
  as exactly one success or one failure.\<close>

theorem pushToBackupRegistry_accounts:
  assumes "run_state (pushToBackupRegistry ops orch pod d imageRef ep sn) w = (u, w')"
  shows "PushAttempts (metrics w') = PushAttempts (metrics w) + (if is_ok (BackupRef imageRef (or_BackupRegistry orch)) then 1 else 0)
     \<and> PushSuccesses (metrics w') + PushFailures (metrics w') + PushAttempts (metrics w)
         = PushSuccesses (metrics w) + PushFailures (metrics w) + PushAttempts (metrics w')
     \<and> SalvageSuccesses (metrics w') = SalvageSuccesses (metrics w)
     \<and> SalvageFailures (metrics w') = SalvageFailures (metrics w)"
proof -
  obtain now e1 where now: "time_Now ops (env w) = (now, e1)" by fastforce
  have kept: "metrics w2 = metrics w1" if "run_state (loadRegistryCredentials ops orch) w1 = (r, w2)" for w1 w2 r
    using rel_actD[OF loadRegistryCredentials_metrics that] by (simp add: keeps_def)
  have kept': "metrics w2 = metrics w1" if "run_state (pushImage ops orch ep d ref us pa) w1 = (r, w2)" for ref us pa w1 w2 r
    using rel_actD[OF pushImage_metrics that] by (simp add: keeps_def)
  show ?thesis
    using assms now
    by (auto simp: pushToBackupRegistry_def split: sum.splits prod.splits
        dest!: kept kept' push_failure_metrics push_success_metrics) (simp_all add: record_metric_defs)
qed

theorem pushToBackupRegistry_accounts_witness:
  "PushAttempts (metrics (snd (run_state (pushToBackupRegistry example_cluster
      (SetBackupRegistry ''backup.io'' '''' '''' False example_orchestrator) owned_pod ''sha256:x'' ''web:1'' ''10.0.0.1:9090'' ''a'')
      (init_world ())))) = 1"
proof -
  have "is_ok (BackupRef ''web:1'' ''backup.io'')" by code_simp
  then show ?thesis
    using pushToBackupRegistry_accounts[OF prod.collapse[symmetric], of example_cluster
        "SetBackupRegistry ''backup.io'' '''' '''' False example_orchestrator" owned_pod "''sha256:x''" "''web:1''"
        "''10.0.0.1:9090''" "''a''" "init_world ()"]
    by (simp add: SetBackupRegistry_def init_world_def NewCounters_def)
qed

text \<open>Asking the agents for a tag returns the answer of the first agent pod, in the order listed, that
  has an address and knows the image, together with that pod's node, and the empty strings when
  there is none; exactly the agents with an address up to that one are asked.\<close>

theorem ResolveTagViaAgents_first:
  assumes pods: "list_Pods ops (rs_Namespace r) agentLabels (env w) = (Inr ps, env w)"
    and ans: "\<And>ep e. rpc_ResolveTag ops ep \<lparr>rt_ImageRef = ref\<rparr> e = (ans ep, e)"
    and conn: "\<And>ep. grpc_NewClient ops ep (resolver_dialOption r) = Inr ()"
  shows "run_state (ResolveTagViaAgents ops r ref) w =
     (Inr (case dropWhile (\<lambda>p. tag_answer ans r p = '''') ps of
             [] \<Rightarrow> ('''', '''') | p # _ \<Rightarrow> (tag_answer ans r p, pod_NodeName p)),
      w\<lparr>trace := trace w @ tag_calls r ref (takeWhile (\<lambda>p. tag_answer ans r p = '''') ps
          @ take 1 (dropWhile (\<lambda>p. tag_answer ans r p = '''') ps))\<rparr>)"
  using pods by (simp add: ResolveTagViaAgents_def resolveLoop_first[OF ans conn])

theorem ResolveTagViaAgents_first_witness:
  "fst (run_state (ResolveTagViaAgents example_cluster (NewResolver ''tote-system'' 9090) ''web:1'') (init_world ()))
     = Inr (''sha256:x'', ''b'')"
proof -
  let ?ans = "\<lambda>ep. if ep = ''10.0.0.2:9090'' then Inr ''sha256:x'' else Inr ''''"
  let ?r = "NewResolver ''tote-system'' 9090"
  have port: "fmt_int 9090 = ''9090''" by (simp add: fmt_int_def fmt_nat.simps char_of_def bit_numeral_rec bit_Suc_0_iff)
  show ?thesis
    by (subst ResolveTagViaAgents_first[where ans = ?ans and ps = "[agent_pod ''a'' ''10.0.0.1'', agent_pod ''b'' ''10.0.0.2'']"])
       (simp_all add: example_cluster_def failing_ops_def init_world_def agent_pod_def NewResolver_def tag_answer_def
          podEndpoint_def port)
qed

text \<open>C9: for any interleaving of any number of salvages, never more than the configured number of them
  hold a place, the semaphore counts exactly those that do (so giving a place back never blocks),
  and the sessions in the store are exactly those of the salvages in progress: no salvage's
  clean-up removes the session of another, and when all are done the store is empty.\<close>

theorem concurrent_salvages_bounded:
  assumes "(conc_step cap)\<^sup>*\<^sup>* sys_init s"
  shows "sy_sem s = card (active s) \<and> finite (active s) \<and> card (active s) \<le> cap
     \<and> (\<forall>i. sy_phase s i \<noteq> Outside \<longrightarrow> 0 < sy_sem s)
     \<and> (\<forall>tok. store_sessions (sy_store s) tok \<noteq> None \<longleftrightarrow> (\<exists>!i. sy_phase s i = InSession tok))
     \<and> (active s = {} \<longrightarrow> sy_sem s = 0 \<and> store_sessions (sy_store s) = Map.empty)"
proof -
  have inv: "conc_inv cap s" by (rule conc_inv_reachable[OF assms])
  have dom: "store_sessions (sy_store s) tok \<noteq> None \<longleftrightarrow> (\<exists>i. sy_phase s i = InSession tok)" for tok
    using inv by (auto simp: conc_inv_def dom_def set_eq_iff tokens_def)
  have uniq: "(\<exists>i. sy_phase s i = InSession tok) \<longleftrightarrow> (\<exists>!i. sy_phase s i = InSession tok)" for tok
    using inv unfolding conc_inv_def exclusive_def by blast
  have "0 < sy_sem s" if "sy_phase s i \<noteq> Outside" for i
    using that inv card_gt_0_iff[of "active s"] by (auto simp: conc_inv_def active_def)
  moreover have "store_sessions (sy_store s) = Map.empty" if "active s = {}"
    using that dom by (auto simp: active_def fun_eq_iff)
  ultimately show ?thesis using inv dom uniq by (auto simp: conc_inv_def)
qed

theorem concurrent_salvages_bounded_witness:
  "\<exists>s. (conc_step 1)\<^sup>*\<^sup>* sys_init s \<and> sy_sem s = 1 \<and> card (active s) \<le> 1"
proof -
  let ?s = "sys_init\<lparr>sy_sem := 1, sy_phase := (sy_phase sys_init)(0 := Holding)\<rparr>"
  have "conc_step 1 sys_init ?s"
    by (rule conc_step.take) (simp_all add: sys_init_def tryAcquire_def)
  then have "(conc_step 1)\<^sup>*\<^sup>* sys_init ?s" by (rule r_into_rtranclp)
  moreover from concurrent_salvages_bounded[OF this] have "card (active ?s) \<le> 1" by blast
  ultimately show ?thesis by (intro exI[of _ ?s]) simp
qed

end
