(* ===== verification/Agent_Server.thy ===== *)
theory Agent_Server
  imports Kube_Types Session Registry
begin

text \<open>
  \<open>internal/agent/server.go\<close>: the gRPC service every node runs. A handler is an action on the
  agent's state: its image store, its session store and the outside (clock, other agents,
  registries), whose operations are the fields of \<open>agent_ops\<close>. The two handlers that move image
  data run a producer and a consumer over an \<open>io.Pipe\<close>: the bytes that pass are modelled as lists
  of writes and of chunks, and the one scheduling choice that can change a result (whether the
  receiver's error is already in its channel when \<open>Import\<close> returns without having read to the end
  of the stream) is an outside choice. Theory \<open>Agent_Pipe\<close> has the goroutines step by step, and
  \<open>Cmd_Root\<close> has \<open>Start\<close>.
\<close>

section \<open>State and surroundings\<close>

record 'i Server =
  srv_Store :: "'i ImageStore"
  srv_Port :: int
  srv_ServerCreds :: "tls_Config option"
  srv_ClientCreds :: "tls_Config option"

definition NewServer :: "'i ImageStore \<Rightarrow> int \<Rightarrow> 'i Server" where
  "NewServer store port = \<lparr>srv_Store = store, srv_Port = port, srv_ServerCreds = None, srv_ClientCreds = None\<rparr>"

record ('i, 'e) agent =
  ag_store :: 'i
  ag_sessions :: Store
  ag_env :: 'e

text \<open>A stream either fails to start or delivers chunks and then ends, regularly (\<open>io.EOF\<close>) or with an
  error.\<close>

record 'e agent_ops =
  ao_Now :: "'e \<Rightarrow> int \<times> 'e"
  ao_NewClient :: "string \<Rightarrow> TransportCredentials \<Rightarrow> unit result"
  ao_ExportImage :: "string \<Rightarrow> ExportImageRequest \<Rightarrow> 'e \<Rightarrow> (bytes list \<times> unit result) result \<times> 'e"
  ao_ErrReported :: "'e \<Rightarrow> bool \<times> 'e"
  ao_Registry :: "'e registry_ops"
  ao_Quote :: "string \<Rightarrow> string"

type_synonym ('i, 'e, 'a) handler = "(('i, 'e) agent, 'a) state"

abbreviation reply :: "'a \<Rightarrow> ('i, 'e, 'a) handler" where
  "reply \<equiv> State_Monad.return"

definition on_store :: "('i \<Rightarrow> 'a \<times> 'i) \<Rightarrow> ('i, 'e, 'a) handler" where
  "on_store f = State (\<lambda>a. case f (ag_store a) of (x, s) \<Rightarrow> (x, a\<lparr>ag_store := s\<rparr>))"

definition on_agent_sessions :: "(Store \<Rightarrow> 'a \<times> Store) \<Rightarrow> ('i, 'e, 'a) handler" where
  "on_agent_sessions f = State (\<lambda>a. case f (ag_sessions a) of (x, s) \<Rightarrow> (x, a\<lparr>ag_sessions := s\<rparr>))"

definition outside :: "('e \<Rightarrow> 'a \<times> 'e) \<Rightarrow> ('i, 'e, 'a) handler" where
  "outside f = State (\<lambda>a. case f (ag_env a) of (x, e) \<Rightarrow> (x, a\<lparr>ag_env := e\<rparr>))"

lemma run_handler_prims [simp]:
  "run_state (on_store f) a = (case f (ag_store a) of (x, s) \<Rightarrow> (x, a\<lparr>ag_store := s\<rparr>))"
  "run_state (on_agent_sessions g) a = (case g (ag_sessions a) of (x, s) \<Rightarrow> (x, a\<lparr>ag_sessions := s\<rparr>))"
  "run_state (outside h) a = (case h (ag_env a) of (x, e) \<Rightarrow> (x, a\<lparr>ag_env := e\<rparr>))"
  by (simp_all add: on_store_def on_agent_sessions_def outside_def)

section \<open>Streaming through a pipe\<close>

definition exportChunkSize :: nat where
  "exportChunkSize = 32 * 1024"

text \<open>Reads with a buffer of \<open>n\<close> bytes empty one write after the other; an empty write is a read of no
  bytes, for which nothing is sent.\<close>

function pieces :: "nat \<Rightarrow> bytes \<Rightarrow> bytes list" where
  "pieces n xs = (if xs = [] \<or> n = 0 then [] else take n xs # pieces n (drop n xs))"
  by pat_completeness auto
termination
  by (relation "measure (\<lambda>(n, xs). length xs)") (auto simp: length_greater_0_conv)

declare pieces.simps [simp del]

definition pipe_reads :: "bytes list \<Rightarrow> bytes list" where
  "pipe_reads writes = concat (map (pieces exportChunkSize) writes)"

text \<open>Sending the chunks in order: \<open>send i\<close> is the outcome of the \<open>i\<close>-th send.\<close>

fun send_loop :: "(nat \<Rightarrow> unit result) \<Rightarrow> nat \<Rightarrow> bytes list \<Rightarrow> bytes list \<times> unit result" where
  "send_loop send i [] = ([], Inr ())"
| "send_loop send i (c # cs) =
     (case send i of
        Inl e \<Rightarrow> ([], Inl (wrapf ''sending chunk'' e))
      | Inr _ \<Rightarrow> (case send_loop send (Suc i) cs of (sent, r) \<Rightarrow> (c # sent, r)))"

section \<open>Handlers\<close>

definition PrepareExport ::
  "'e agent_ops \<Rightarrow> 'i Server \<Rightarrow> PrepareExportRequest \<Rightarrow> ('i, 'e, int result) handler" where
  "PrepareExport ao srv req =
     (if pe_SessionToken req = '''' \<or> pe_Digest req = ''''
      then reply (Inl (errorf ''session_token and digest are required''))
      else do {
        has \<leftarrow> on_store (st_Has (srv_Store srv) (pe_Digest req));
        case has of
          Inl e \<Rightarrow> reply (Inl (wrapf ''checking image'' e))
        | Inr False \<Rightarrow> reply (Inl (errorf (''image '' @ pe_Digest req @ '' not found locally'')))
        | Inr True \<Rightarrow> do {
            sz \<leftarrow> on_store (st_Size (srv_Store srv) (pe_Digest req));
            case sz of
              Inl e \<Rightarrow> reply (Inl (wrapf ''getting image size'' e))
            | Inr sizeBytes \<Rightarrow> do {
                now \<leftarrow> outside (ao_Now ao);
                _ \<leftarrow> on_agent_sessions (Register now (pe_SessionToken req) (pe_Digest req) (5 * Minute));
                reply (Inr sizeBytes)
              }
          }
      })"

text \<open>The chunks that reached the client, and the handler's error.\<close>

definition ExportImage ::
  "'e agent_ops \<Rightarrow> 'i Server \<Rightarrow> (nat \<Rightarrow> unit result) \<Rightarrow> ExportImageRequest \<Rightarrow> ('i, 'e, bytes list \<times> unit result) handler" where
  "ExportImage ao srv send req =
     (if ei_SessionToken req = '''' then reply ([], Inl (errorf ''session_token is required''))
      else do {
        now \<leftarrow> outside (ao_Now ao);
        v \<leftarrow> on_agent_sessions (Validate now (ei_SessionToken req));
        case v of
          None \<Rightarrow> reply ([], Inl (errorf ''invalid or expired session token''))
        | Some sess \<Rightarrow> do {
            exported \<leftarrow> on_store (st_Export (srv_Store srv) (sess_Digest sess));
            case exported of (writes, exportErr) \<Rightarrow>
              (case send_loop send 0 (pipe_reads writes) of
                 (sent, Inl e) \<Rightarrow> reply (sent, Inl e)
               | (sent, Inr _) \<Rightarrow>
                   (case exportErr of
                      Inl e \<Rightarrow> reply (sent, Inl (wrapf ''export'' e))
                    | Inr _ \<Rightarrow> reply (sent, Inr ())))
          }
      })"

definition dialCreds :: "'i Server \<Rightarrow> TransportCredentials" where
  "dialCreds srv = orInsecure (srv_ClientCreds srv)"

lemma dialCreds_simps [simp]:
  "dialCreds \<lparr>srv_Store = st, srv_Port = p, srv_ServerCreds = sc, srv_ClientCreds = cc\<rparr> = orInsecure cc"
  by (simp add: dialCreds_def)

definition import_failed :: "string \<Rightarrow> ImportFromResponse" where
  "import_failed msg = \<lparr>ifr_Success = False, ifr_Error = msg\<rparr>"

definition import_ok :: ImportFromResponse where
  "import_ok = \<lparr>ifr_Success = True, ifr_Error = ''''\<rparr>"

definition verifyImported :: "'i Server \<Rightarrow> string \<Rightarrow> string \<Rightarrow> ('i, 'e, ImportFromResponse) handler" where
  "verifyImported srv digest requested =
     (if digest \<noteq> requested then do {
        has \<leftarrow> on_store (st_Has (srv_Store srv) requested);
        (if has = Inr True then reply import_ok
         else reply (import_failed (''imported digest '' @ digest @ '' does not match requested '' @ requested)))
      }
      else reply import_ok)"

definition finishImport :: "'i Server \<Rightarrow> unit result \<Rightarrow> string \<Rightarrow> string \<Rightarrow> ('i, 'e, ImportFromResponse) handler" where
  "finishImport srv streamErr digest requested =
     (case streamErr of
        Inl e \<Rightarrow> reply (import_failed (''stream error: receiving chunk: '' @ emsg e))
      | Inr _ \<Rightarrow> verifyImported srv digest requested)"

definition ImportFrom ::
  "'e agent_ops \<Rightarrow> 'i Server \<Rightarrow> ImportFromRequest \<Rightarrow> ('i, 'e, ImportFromResponse) handler" where
  "ImportFrom ao srv req =
     (if if_SessionToken req = '''' \<or> if_Digest req = '''' \<or> if_SourceEndpoint req = ''''
      then reply (import_failed ''session_token, digest, and source_endpoint are required'')
      else case ao_NewClient ao (if_SourceEndpoint req) (dialCreds srv) of
        Inl e \<Rightarrow> reply (import_failed (''connecting to source: '' @ emsg e))
      | Inr _ \<Rightarrow> do {
          stream \<leftarrow> outside (ao_ExportImage ao (if_SourceEndpoint req) \<lparr>ei_SessionToken = if_SessionToken req\<rparr>);
          case stream of
            Inl e \<Rightarrow> reply (import_failed (''starting export stream: '' @ emsg e))
          | Inr (chunks, streamEnd) \<Rightarrow> do {
              imp \<leftarrow> on_store (st_Import (srv_Store srv) (concat chunks));
              case imp of (r, eof) \<Rightarrow>
                (case r of
                   Inl e \<Rightarrow> reply (import_failed (''importing image: '' @ emsg e))
                 | Inr digest \<Rightarrow> do {
                     reported \<leftarrow> (if eof then State_Monad.return True else outside (ao_ErrReported ao));
                     finishImport srv (if reported then streamEnd else Inr ()) digest (if_Digest req)
                   })
            }
        })"

definition ListImages :: "'i Server \<Rightarrow> ('i, 'e, string list result) handler" where
  "ListImages srv = do {
     r \<leftarrow> on_store (st_List (srv_Store srv));
     reply (case r of Inl e \<Rightarrow> Inl (wrapf ''listing images'' e) | Inr digests \<Rightarrow> Inr digests)
   }"

definition agent_ResolveTag :: "'i Server \<Rightarrow> ResolveTagRequest \<Rightarrow> ('i, 'e, string result) handler" where
  "agent_ResolveTag srv req =
     (if rt_ImageRef req = '''' then reply (Inl (errorf ''image_ref is required''))
      else do {
        r \<leftarrow> on_store (st_ResolveTag (srv_Store srv) (rt_ImageRef req));
        reply (case r of Inl e \<Rightarrow> Inl (wrapf ''resolving tag'' e) | Inr digest \<Rightarrow> Inr digest)
      })"

definition RemoveImage :: "'i Server \<Rightarrow> RemoveImageRequest \<Rightarrow> ('i, 'e, unit result) handler" where
  "RemoveImage srv req =
     (if rm_ImageRef req = '''' then reply (Inl (errorf ''image_ref is required''))
      else do {
        r \<leftarrow> on_store (st_Remove (srv_Store srv) (rm_ImageRef req));
        reply (case r of Inl e \<Rightarrow> Inl (wrapf ''removing image'' e) | Inr _ \<Rightarrow> Inr ())
      })"

definition push_failed :: "string \<Rightarrow> PushImageResponse" where
  "push_failed msg = \<lparr>pir_Success = False, pir_Error = msg\<rparr>"

definition PushImage ::
  "'e agent_ops \<Rightarrow> 'i Server \<Rightarrow> PushImageRequest \<Rightarrow> ('i, 'e, PushImageResponse) handler" where
  "PushImage ao srv req =
     (if pi_Digest req = '''' \<or> pi_TargetRef req = ''''
      then reply (push_failed ''digest and target_ref are required'')
      else do {
        has \<leftarrow> on_store (st_Has (srv_Store srv) (pi_Digest req));
        case has of
          Inl e \<Rightarrow> reply (push_failed (''checking image: '' @ emsg e))
        | Inr False \<Rightarrow> reply (push_failed (''image '' @ pi_Digest req @ '' not found locally''))
        | Inr True \<Rightarrow> do {
            exported \<leftarrow> on_store (st_Export (srv_Store srv) (pi_Digest req));
            r \<leftarrow> outside (Push (ao_Registry ao) (ao_Quote ao) exported (pi_Digest req) (pi_TargetRef req)
                   (pi_RegistryUsername req) (pi_RegistryPassword req) (pi_Insecure req));
            reply (case r of
                Inl e \<Rightarrow> push_failed (''push failed: '' @ emsg e)
              | Inr _ \<Rightarrow> \<lparr>pir_Success = True, pir_Error = ''''\<rparr>)
          }
      })"

section \<open>Lemmas\<close>

lemma pieces_concat: "n > 0 \<Longrightarrow> concat (pieces n xs) = xs"
proof (induction n xs rule: pieces.induct)
  case (1 n xs)
  then show ?case by (subst pieces.simps) auto
qed

lemma pieces_bounds: "c \<in> set (pieces n xs) \<Longrightarrow> c \<noteq> [] \<and> length c \<le> n"
proof (induction n xs rule: pieces.induct)
  case (1 n xs)
  then show ?case by (subst (asm) (2) pieces.simps) (auto split: if_splits)
qed

lemma pipe_reads_concat: "concat (pipe_reads ws) = concat ws"
  by (induction ws) (simp_all add: pipe_reads_def pieces_concat exportChunkSize_def)

lemma pipe_reads_bounds: "c \<in> set (pipe_reads ws) \<Longrightarrow> c \<noteq> [] \<and> length c \<le> exportChunkSize"
  using pieces_bounds by (auto simp: pipe_reads_def)

lemma send_loop_sent:
  "send_loop send i cs = (sent, r) \<Longrightarrow> prefix sent cs \<and> (is_ok r \<longrightarrow> sent = cs)"
  by (induction send i cs arbitrary: sent r rule: send_loop.induct)
     (auto split: sum.splits prod.splits)

lemma send_loop_ok: "(\<And>i. is_ok (send i)) \<Longrightarrow> send_loop send i cs = (cs, Inr ())"
proof (induction cs arbitrary: i)
  case (Cons c cs)
  from Cons.prems[of i] obtain u where "send i = Inr u" by (cases "send i") auto
  with Cons show ?case by simp
qed simp

text \<open>What a run of the import handler did, read off its successful response.\<close>

lemma finishImport_success:
  assumes "run_state (finishImport srv se digest requested) a = (resp, a')" and "ifr_Success resp"
  shows "is_ok se \<and> (if digest = requested then ag_store a' = ag_store a
     else st_Has (srv_Store srv) requested (ag_store a) = (Inr True, ag_store a'))"
  using assms
  by (cases se) (auto simp: finishImport_def verifyImported_def import_failed_def split: if_splits prod.splits)

lemma ImportFrom_guard:
  assumes "run_state (ImportFrom ao srv req) a = (resp, a')" and "ifr_Success resp"
  shows "if_SessionToken req \<noteq> '''' \<and> if_Digest req \<noteq> '''' \<and> if_SourceEndpoint req \<noteq> '''' \<and>
     (\<exists>u. ao_NewClient ao (if_SourceEndpoint req) (dialCreds srv) = Inr u)"
  using assms by (auto simp: ImportFrom_def import_failed_def split: if_splits sum.splits)

lemma agent_update_order:
  "a\<lparr>ag_store := s, ag_env := e\<rparr> = a\<lparr>ag_env := e, ag_store := s\<rparr>"
  "a\<lparr>ag_env := e, ag_store := s, ag_env := e'\<rparr> = a\<lparr>ag_env := e', ag_store := s\<rparr>"
  by (cases a, simp)+

lemma ImportFrom_unfold:
  assumes "if_SessionToken req \<noteq> ''''" "if_Digest req \<noteq> ''''" "if_SourceEndpoint req \<noteq> ''''"
    and "ao_NewClient ao (if_SourceEndpoint req) (dialCreds srv) = Inr u"
  shows "run_state (ImportFrom ao srv req) a =
    (case ao_ExportImage ao (if_SourceEndpoint req) \<lparr>ei_SessionToken = if_SessionToken req\<rparr> (ag_env a) of
       (Inl e, e1) \<Rightarrow> (import_failed (''starting export stream: '' @ emsg e), a\<lparr>ag_env := e1\<rparr>)
     | (Inr (chunks, fin), e1) \<Rightarrow>
         (case st_Import (srv_Store srv) (concat chunks) (ag_store a) of
            ((Inl e, eof), s1) \<Rightarrow> (import_failed (''importing image: '' @ emsg e), a\<lparr>ag_env := e1, ag_store := s1\<rparr>)
          | ((Inr digest, eof), s1) \<Rightarrow>
              (case (if eof then (True, e1) else ao_ErrReported ao e1) of
                 (reported, e2) \<Rightarrow>
                   run_state (finishImport srv (if reported then fin else Inr ()) digest (if_Digest req))
                     (a\<lparr>ag_env := e2, ag_store := s1\<rparr>))))"
  using assms by (simp add: ImportFrom_def agent_update_order split: prod.splits sum.splits)

lemma ImportFrom_successE:
  assumes "run_state (ImportFrom ao srv req) a = (resp, a')" and "ifr_Success resp"
  obtains chunks streamEnd e1 eof digest s1 where
    "ao_ExportImage ao (if_SourceEndpoint req) \<lparr>ei_SessionToken = if_SessionToken req\<rparr> (ag_env a)
       = (Inr (chunks, streamEnd), e1)"
    "st_Import (srv_Store srv) (concat chunks) (ag_store a) = ((Inr digest, eof), s1)"
    "eof \<longrightarrow> is_ok streamEnd"
    "if digest = if_Digest req then ag_store a' = s1
     else st_Has (srv_Store srv) (if_Digest req) s1 = (Inr True, ag_store a')"
proof -
  from ImportFrom_guard[OF assms] obtain u where g: "if_SessionToken req \<noteq> ''''" "if_Digest req \<noteq> ''''"
    "if_SourceEndpoint req \<noteq> ''''" "ao_NewClient ao (if_SourceEndpoint req) (dialCreds srv) = Inr u"
    by blast
  note run = assms(1)[unfolded ImportFrom_unfold[OF g]]
  obtain st e1 where st: "ao_ExportImage ao (if_SourceEndpoint req) \<lparr>ei_SessionToken = if_SessionToken req\<rparr> (ag_env a)
      = (st, e1)" by fastforce
  with run assms(2) obtain chunks fin where st': "st = Inr (chunks, fin)"
    by (cases st) (auto simp: import_failed_def)
  obtain r eof s1 where imp: "st_Import (srv_Store srv) (concat chunks) (ag_store a) = ((r, eof), s1)"
    by (metis surj_pair)
  with run st st' assms(2) obtain digest where r: "r = Inr digest"
    by (cases r) (auto simp: import_failed_def)
  obtain rep e2 where rep: "(if eof then (True, e1) else ao_ErrReported ao e1) = (rep, e2)" by fastforce
  from run have "run_state (finishImport srv (if rep then fin else Inr ()) digest (if_Digest req))
      (a\<lparr>ag_env := e2, ag_store := s1\<rparr>) = (resp, a')"
    by (simp only: st st' imp r rep prod.case sum.case)
  note fin = finishImport_success[OF this assms(2)]
  show thesis
  proof (rule that[OF st[unfolded st'] imp[unfolded r]])
    show "eof \<longrightarrow> is_ok fin" using fin rep by auto
    show "if digest = if_Digest req then ag_store a' = s1
      else st_Has (srv_Store srv) (if_Digest req) s1 = (Inr True, ag_store a')"
      using fin[THEN conjunct2] by (cases "digest = if_Digest req") simp_all
  qed
qed

text \<open>Two agents connected: the outside of the importing agent is the exporting agent, whose handler
  produces the stream.\<close>

definition wired ::
  "'f agent_ops \<Rightarrow> 'j Server \<Rightarrow> (nat \<Rightarrow> unit result) \<Rightarrow> ('j, 'f) agent agent_ops \<Rightarrow> ('j, 'f) agent agent_ops" where
  "wired sao ssrv send ao = ao\<lparr>ao_ExportImage := (\<lambda>_ req src.
     case run_state (ExportImage sao ssrv send req) src of ((sent, r), src') \<Rightarrow> (Inr (sent, r), src'))\<rparr>"

lemma ExportImage_ok:
  assumes "ei_SessionToken req \<noteq> ''''" and "ao_Now ao (ag_env a) = (now, e)"
    and "valid_at (ag_sessions a) now (ei_SessionToken req) = Some sess"
    and "st_Export (srv_Store srv) (sess_Digest sess) (ag_store a) = ((writes, Inr u), s')"
    and "\<And>i. is_ok (send i)"
  shows "\<exists>a'. run_state (ExportImage ao srv send req) a = ((pipe_reads writes, Inr ()), a')"
proof -
  obtain S where "Validate now (ei_SessionToken req) (ag_sessions a) = (Some sess, S)"
    using assms(3) Validate_result by (metis prod.collapse)
  with assms send_loop_ok[of send 0 "pipe_reads writes", OF assms(5)] show ?thesis
    by (simp add: ExportImage_def)
qed

text \<open>The laws of the store interface carry over to the handlers, whatever the implementation.\<close>

context image_store
begin

lemma ImportFrom_holds:
  assumes "run_state (ImportFrom ao srv req) a = (resp, a')" and "ifr_Success resp"
    and "srv_Store srv = ims"
  shows "if_Digest req \<in> holds (ag_store a') \<and> holds (ag_store a) \<subseteq> holds (ag_store a')"
  using assms(1,2)
proof (rule ImportFrom_successE)
  fix chunks eof digest s1
  assume imp: "st_Import (srv_Store srv) (concat chunks) (ag_store a) = ((Inr digest, eof), s1)"
    and fin: "if digest = if_Digest req then ag_store a' = s1
      else st_Has (srv_Store srv) (if_Digest req) s1 = (Inr True, ag_store a')"
  show ?thesis
  proof (cases "digest = if_Digest req")
    case True
    then show ?thesis using import_adds[of "concat chunks"] import_keeps[of "concat chunks"] imp fin assms(3) by auto
  next
    case False
    then have "st_Has ims (if_Digest req) s1 = (Inr True, ag_store a')" using fin assms(3) by simp
    from has_sound[OF this] import_keeps[of "concat chunks"] imp assms(3) show ?thesis by auto
  qed
qed

end

context image_reader
begin

lemma PrepareExport_holds:
  assumes "run_state (PrepareExport ao srv req) a = (Inr n, a')" and "srv_Store srv = ims"
  shows "pe_Digest req \<in> holds (ag_store a)"
  using assms has_sound
  by (auto simp: PrepareExport_def split: if_splits sum.splits prod.splits bool.splits)

lemma PushImage_holds:
  assumes "run_state (PushImage ao srv req) a = (resp, a')" and "pir_Success resp" and "srv_Store srv = ims"
  shows "pi_Digest req \<in> holds (ag_store a)"
  using assms has_sound
  by (auto simp: PushImage_def push_failed_def split: if_splits sum.splits prod.splits bool.splits)

lemma ImportFrom_holds_or_returned:
  assumes "run_state (ImportFrom ao srv req) a = (resp, a')" and "ifr_Success resp"
    and "srv_Store srv = ims"
  shows "if_Digest req \<in> holds (ag_store a') \<or>
     (\<exists>data eof. st_Import ims data (ag_store a) = ((Inr (if_Digest req), eof), ag_store a'))"
  using assms(1,2)
proof (rule ImportFrom_successE)
  fix chunks eof digest s1
  assume imp: "st_Import (srv_Store srv) (concat chunks) (ag_store a) = ((Inr digest, eof), s1)"
    and fin: "if digest = if_Digest req then ag_store a' = s1
      else st_Has (srv_Store srv) (if_Digest req) s1 = (Inr True, ag_store a')"
  show ?thesis
    using has_sound[of "if_Digest req" s1 True "ag_store a'"] imp fin assms(3)
    by (cases "digest = if_Digest req") auto
qed

end

lemma wired_transfer:
  assumes prep: "run_state (PrepareExport sao (NewServer FakeStore p) \<lparr>pe_SessionToken = tok, pe_Digest = d\<rparr>) src = (Inr n, src1)"
    and within: "fst (ao_Now sao (ag_env src1)) \<le> fst (ao_Now sao (ag_env src)) + 5 * Minute"
    and works: "\<And>i. is_ok (send i)" "ao_NewClient ao ep InsecureCredentials = Inr u" "ep \<noteq> ''''"
    and run: "run_state (ImportFrom (wired sao (NewServer FakeStore p) send ao) (NewServer FakeStore p')
         \<lparr>if_SessionToken = tok, if_Digest = d, if_SourceEndpoint = ep\<rparr>)
         \<lparr>ag_store = tgt, ag_sessions = S, ag_env = src1\<rparr> = (resp, a')"
  shows "\<exists>data. map_of (fk_images (ag_store src)) d = Some data \<and> n = int (length data)
     \<and> st_Export FakeStore (fake_digest data) (ag_store a') = (([data], Inr ()), ag_store a')
     \<and> (ifr_Success resp \<longleftrightarrow> d = fake_digest data \<or> d \<in> fake_holds tgt)"
proof -
  from prep obtain data where data: "map_of (fk_images (ag_store src)) d = Some data" "n = int (length data)"
    and ne: "tok \<noteq> ''''" "d \<noteq> ''''" and store: "ag_store src1 = ag_store src"
    and sess: "ag_sessions src1 = snd (Register (fst (ao_Now sao (ag_env src))) tok d (5 * Minute) (ag_sessions src))"
    by (cases "map_of (fk_images (ag_store src)) d")
       (auto simp: PrepareExport_def NewServer_def fake_defs split: if_splits prod.splits)
  obtain t e where now: "ao_Now sao (ag_env src1) = (t, e)" by fastforce
  let ?req = "\<lparr>ei_SessionToken = tok\<rparr>"
  obtain se where v: "valid_at (ag_sessions src1) t tok = Some se" and d: "sess_Digest se = d"
    using within now by (auto simp: sess Register_def valid_at_def Let_def)
  have x: "st_Export (srv_Store (NewServer FakeStore p)) (sess_Digest se) (ag_store src1) = (([data], Inr ()), ag_store src)"
    using data store d by (simp add: NewServer_def fake_defs)
  from ExportImage_ok[where req = ?req and send = send, OF _ now _ x works(1)] v ne obtain src2 where
    ex: "run_state (ExportImage sao (NewServer FakeStore p) send ?req) src1 = ((pipe_reads [data], Inr ()), src2)"
    by auto
  have "concat (pipe_reads [data]) = data" using pipe_reads_concat[of "[data]"] by simp
  with run ex ne works(2,3) data show ?thesis
    by (auto simp: ImportFrom_def wired_def NewServer_def fake_defs finishImport_def verifyImported_def
        import_ok_def import_failed_def fake_holds_def Let_def split: if_splits)
qed

text \<open>An outside for the examples: the state is the clock, every connection works, and every export
  stream is one chunk of three bytes.\<close>

definition example_agent :: "int agent_ops" where
  "example_agent = \<lparr>ao_Now = (\<lambda>t. (t, t + Second)), ao_NewClient = (\<lambda>_ _. Inr ()),
     ao_ExportImage = (\<lambda>_ _ t. (Inr ([''abc''], Inr ()), t)), ao_ErrReported = (\<lambda>t. (False, t)),
     ao_Registry = example_registry, ao_Quote = id\<rparr>"

section \<open>Properties\<close>


definition example_source :: "(FakeImageStore, int) agent" where
  "example_source = \<lparr>ag_store = AddImage ''sha256:fake-3'' ''abc'' NewFakeImageStore, ag_sessions = NewStore, ag_env = 0\<rparr>"

definition prepared_source :: "(FakeImageStore, int) agent" where
  "prepared_source = example_source\<lparr>ag_env := Second,
     ag_sessions := snd (Register 0 ''tok'' ''sha256:fake-3'' (5 * Minute) NewStore)\<rparr>"

lemma example_prepare:
  "run_state (PrepareExport example_agent (NewServer FakeStore 9090) \<lparr>pe_SessionToken = ''tok'', pe_Digest = ''sha256:fake-3''\<rparr>)
     example_source = (Inr 3, prepared_source)"
  by (simp add: PrepareExport_def NewServer_def fake_defs prepared_source_def example_source_def example_agent_def
      AddImage_def map_set_def NewFakeImageStore_def split: prod.splits)


text \<open>C4: an agent streams image data only for a token it accepts at that moment, and then only the image
  that token was issued for: without a valid token nothing is sent and the store is not touched;
  with one, the chunks sent are non-empty, at most 32 KiB each, and are a prefix of the exported
  archive of the token's digest, the whole of it when the call ends without error.\<close>

theorem ExportImage_authorised:
  assumes "run_state (ExportImage ao srv send req) a = ((sent, r), a')" and "ao_Now ao (ag_env a) = (now, e')"
  shows "case (if ei_SessionToken req = '''' then None else valid_at (ag_sessions a) now (ei_SessionToken req)) of
      None \<Rightarrow> sent = [] \<and> \<not> is_ok r \<and> ag_store a' = ag_store a
    | Some sess \<Rightarrow>
        (\<exists>writes xr s'. st_Export (srv_Store srv) (sess_Digest sess) (ag_store a) = ((writes, xr), s')
           \<and> prefix (concat sent) (concat writes)
           \<and> list_all (\<lambda>c. c \<noteq> [] \<and> length c \<le> 32768) sent
           \<and> (is_ok r \<longrightarrow> is_ok xr \<and> concat sent = concat writes))"
proof (cases "if ei_SessionToken req = '''' then None else valid_at (ag_sessions a) now (ei_SessionToken req)")
  case None
  then show ?thesis using assms
    by (auto simp: ExportImage_def Validate_result[symmetric] split: if_splits prod.splits option.splits)
next
  case (Some sess)
  then have tok: "ei_SessionToken req \<noteq> ''''" and v: "fst (Validate now (ei_SessionToken req) (ag_sessions a)) = Some sess"
    by (auto simp: Validate_result split: if_splits)
  obtain writes xr s' where x: "st_Export (srv_Store srv) (sess_Digest sess) (ag_store a) = ((writes, xr), s')"
    by (metis surj_pair)
  obtain sn q where l: "send_loop send 0 (pipe_reads writes) = (sn, q)" by fastforce
  from assms tok v x l have sent: "sent = sn" and ok: "is_ok r \<longrightarrow> is_ok q \<and> is_ok xr"
    by (auto simp: ExportImage_def split: prod.splits sum.splits)
  from send_loop_sent[OF l] have pre: "prefix sn (pipe_reads writes)" and all: "is_ok q \<longrightarrow> sn = pipe_reads writes"
    by simp_all
  from pre obtain ys where ys: "pipe_reads writes = sn @ ys" by (auto simp: prefix_def)
  have "prefix (concat sn) (concat writes)"
    using pipe_reads_concat[of writes] by (simp add: ys prefix_def) metis
  moreover have "list_all (\<lambda>c. c \<noteq> [] \<and> length c \<le> 32768) sn"
    using pipe_reads_bounds[of _ writes] by (auto simp: ys list_all_iff exportChunkSize_def)
  ultimately show ?thesis
    using Some x sent ok all by (auto simp: pipe_reads_concat)
qed

theorem ExportImage_authorised_witness:
  "\<exists>writes xr s'. st_Export FakeStore ''sha256:fake-3'' (ag_store prepared_source) = ((writes, xr), s')
     \<and> concat [''abc''] = concat writes"
proof -
  have "pieces 32768 ''abc'' = [''abc'']" by (simp add: pieces.simps)
  then have "run_state (ExportImage example_agent (NewServer FakeStore 9090) (\<lambda>_. Inr ()) \<lparr>ei_SessionToken = ''tok''\<rparr>)
      prepared_source = (([''abc''], Inr ()), prepared_source\<lparr>ag_env := 2 * Second\<rparr>)"
    by (simp add: ExportImage_def NewServer_def fake_defs prepared_source_def example_source_def example_agent_def
      AddImage_def map_set_def NewFakeImageStore_def Register_def Validate_def Let_def pipe_reads_def exportChunkSize_def
      Minute_def Second_def)
  from ExportImage_authorised[OF this, of Second "2 * Second"] show ?thesis
    by (simp add: NewServer_def prepared_source_def example_source_def example_agent_def valid_at_def Register_def
      NewStore_def Let_def Minute_def Second_def)
       blast
qed

text \<open>With a store that holds the digests it returns (as the fake store does), a successful answer to
  \<open>ImportFrom\<close> means that the requested digest is in the node's store, and that nothing was lost.\<close>

theorem ImportFrom_success_holds:
  assumes "run_state (ImportFrom ao (NewServer FakeStore port) req) a = (resp, a')" and "ifr_Success resp"
  shows "if_Digest req \<in> fake_holds (ag_store a') \<and> fake_holds (ag_store a) \<subseteq> fake_holds (ag_store a')"
  by (rule fake.ImportFrom_holds[OF assms]) (simp add: NewServer_def)

theorem ImportFrom_success_holds_witness:
  "\<exists>s'. ''sha256:fake-3'' \<in> fake_holds s' \<and> fake_holds NewFakeImageStore \<subseteq> fake_holds s'"
proof -
  let ?a = "\<lparr>ag_store = NewFakeImageStore, ag_sessions = NewStore, ag_env = 0\<rparr>"
  let ?req = "\<lparr>if_SessionToken = ''tok'', if_Digest = ''sha256:fake-3'', if_SourceEndpoint = ''10.0.0.1:9090''\<rparr>"
  have "fake_digest ''abc'' = ''sha256:fake-3''" by code_simp
  then have "\<exists>a'. run_state (ImportFrom example_agent (NewServer FakeStore 9090) ?req) ?a = (import_ok, a')"
    by (simp add: ImportFrom_def finishImport_def verifyImported_def NewServer_def fake_defs example_agent_def Let_def)
  then obtain a' where "run_state (ImportFrom example_agent (NewServer FakeStore 9090) ?req) ?a = (import_ok, a')" ..
  from ImportFrom_success_holds[OF this] show ?thesis by (auto simp: import_ok_def)
qed




text \<open>A transfer between two nodes moves exactly the image. When the source has accepted the
  preparation, and the target asks within five minutes with that token while the connection works,
  then the target's store afterwards exports, under the digest of the received data, exactly the
  bytes that the source holds for the requested digest, whose number is the announced size; the
  answer is a success exactly if that digest is the requested one or the requested one was there
  before.\<close>

theorem transfer_end_to_end:
  assumes "run_state (PrepareExport sao (NewServer FakeStore p) \<lparr>pe_SessionToken = tok, pe_Digest = d\<rparr>) src = (Inr n, src1)"
    and "fst (ao_Now sao (ag_env src1)) \<le> fst (ao_Now sao (ag_env src)) + 5 * Minute"
    and "\<And>i. is_ok (send i)" "ao_NewClient ao ep InsecureCredentials = Inr u" "ep \<noteq> ''''"
    and "run_state (ImportFrom (wired sao (NewServer FakeStore p) send ao) (NewServer FakeStore p')
         \<lparr>if_SessionToken = tok, if_Digest = d, if_SourceEndpoint = ep\<rparr>)
         \<lparr>ag_store = tgt, ag_sessions = S, ag_env = src1\<rparr> = (resp, a')"
  shows "\<exists>data. map_of (fk_images (ag_store src)) d = Some data \<and> n = int (length data)
     \<and> st_Export FakeStore (fake_digest data) (ag_store a') = (([data], Inr ()), ag_store a')
     \<and> (ifr_Success resp \<longleftrightarrow> d = fake_digest data \<or> d \<in> fake_holds tgt)"
  by (rule wired_transfer[OF assms])

definition example_link :: "(FakeImageStore, int) agent agent_ops" where
  "example_link = \<lparr>ao_Now = (\<lambda>a. (0, a)), ao_NewClient = (\<lambda>_ _. Inr ()),
     ao_ExportImage = (\<lambda>_ _ a. (Inl (errorf ''unreachable''), a)), ao_ErrReported = (\<lambda>a. (False, a)),
     ao_Registry = example_registry, ao_Quote = id\<rparr>"

theorem transfer_end_to_end_witness:
  "let req = \<lparr>if_SessionToken = ''tok'', if_Digest = ''sha256:fake-3'', if_SourceEndpoint = ''10.0.0.1:9090''\<rparr>;
       (resp, a') = run_state (ImportFrom (wired example_agent (NewServer FakeStore 9090) (\<lambda>_. Inr ()) example_link)
         (NewServer FakeStore 9090) req) \<lparr>ag_store = NewFakeImageStore, ag_sessions = NewStore, ag_env = prepared_source\<rparr>
   in ifr_Success resp \<and> st_Export FakeStore ''sha256:fake-3'' (ag_store a') = (([''abc''], Inr ()), ag_store a')"
proof -
  let ?req = "\<lparr>if_SessionToken = ''tok'', if_Digest = ''sha256:fake-3'', if_SourceEndpoint = ''10.0.0.1:9090''\<rparr>"
  obtain resp a' where run: "run_state (ImportFrom (wired example_agent (NewServer FakeStore 9090) (\<lambda>_. Inr ()) example_link)
      (NewServer FakeStore 9090) ?req) \<lparr>ag_store = NewFakeImageStore, ag_sessions = NewStore, ag_env = prepared_source\<rparr>
      = (resp, a')" by fastforce
  have "fake_digest ''abc'' = ''sha256:fake-3''" by code_simp
  with transfer_end_to_end[OF example_prepare _ _ _ _ run]
  have "ifr_Success resp \<and> st_Export FakeStore ''sha256:fake-3'' (ag_store a') = (([''abc''], Inr ()), ag_store a')"
    by (auto simp: prepared_source_def example_source_def example_agent_def example_link_def Second_def Minute_def
        AddImage_def map_set_def NewFakeImageStore_def split: if_splits)
  then show ?thesis unfolding Let_def run prod.case .
qed



text \<open>Exporting does not use a token up: after any call of \<open>ExportImage\<close>, every token is accepted at
  every later time exactly as if the call had not been made. A token seen by a third party can
  therefore be replayed until it expires, five minutes after the preparation, whatever session
  lifetime the controller was configured with and whether or not it has closed the session.\<close>

theorem ExportImage_keeps_tokens:
  assumes "run_state (ExportImage ao srv send req) a = (x, a')" and "fst (ao_Now ao (ag_env a)) \<le> t"
  shows "valid_at (ag_sessions a') t = valid_at (ag_sessions a) t"
proof (cases "ei_SessionToken req = ''''")
  case True
  then show ?thesis using assms(1) by (auto simp: ExportImage_def)
next
  case False
  obtain now e where now: "ao_Now ao (ag_env a) = (now, e)" by fastforce
  have "ag_sessions a' = snd (Validate now (ei_SessionToken req) (ag_sessions a))"
    using assms(1) False now by (auto simp: ExportImage_def split: option.splits prod.splits sum.splits)
  with st.validate_later[of now t] assms(2) now show ?thesis by simp
qed

theorem ExportImage_keeps_tokens_witness:
  "valid_at (ag_sessions (snd (run_state (ExportImage example_agent (NewServer FakeStore 9090) (\<lambda>_. Inr ())
       \<lparr>ei_SessionToken = ''tok''\<rparr>) prepared_source))) (2 * Minute) ''tok'' \<noteq> None"
  using ExportImage_keeps_tokens[OF prod.collapse[symmetric], of example_agent prepared_source "2 * Minute"
      "NewServer FakeStore 9090" "\<lambda>_. Inr ()" "\<lparr>ei_SessionToken = ''tok''\<rparr>"]
  by (simp add: prepared_source_def example_agent_def valid_at_def Register_def NewStore_def Second_def Minute_def Let_def)

end
