(* ===== verification/Cluster.thy ===== *)
theory Cluster
  imports Tote_Transfer Agent_Server
begin

text \<open>
  Controller and agents together: an outside in which the orchestrator's calls on an endpoint run the
  handlers of the agent there, and an importing agent pulls from the handlers of the source agent.
  The agents keep their images in \<open>FakeStore\<close>; every other service of the outside fails.
\<close>

record cluster =
  cu_pods :: "Pod list"
  cu_agents :: "string \<rightharpoonup> (FakeImageStore, int) agent"
  cu_drawn :: nat

definition cluster_uuid :: "cluster \<Rightarrow> string \<times> cluster" where
  "cluster_uuid e = (''token-'' @ fmt_nat (cu_drawn e), e\<lparr>cu_drawn := Suc (cu_drawn e)\<rparr>)"

definition cluster_PrepareExport ::
  "int \<Rightarrow> string \<Rightarrow> PrepareExportRequest \<Rightarrow> cluster \<Rightarrow> int result \<times> cluster" where
  "cluster_PrepareExport port ep req e =
     (case cu_agents e ep of
        None \<Rightarrow> (Inl (errorf ''connection refused''), e)
      | Some a \<Rightarrow>
          (case run_state (PrepareExport example_agent (NewServer FakeStore port) req) a of
             (r, a') \<Rightarrow> (r, e\<lparr>cu_agents := (cu_agents e)(ep \<mapsto> a')\<rparr>)))"

definition agent_import ::
  "int \<Rightarrow> ImportFromRequest \<Rightarrow> (FakeImageStore, int) agent \<Rightarrow> (FakeImageStore, int) agent
     \<Rightarrow> ImportFromResponse \<times> (FakeImageStore, (FakeImageStore, int) agent) agent" where
  "agent_import port req src tgt =
     run_state (ImportFrom (wired example_agent (NewServer FakeStore port) (\<lambda>_. Inr ()) example_link) (NewServer FakeStore port) req)
       \<lparr>ag_store = ag_store tgt, ag_sessions = ag_sessions tgt, ag_env = src\<rparr>"

definition cluster_ImportFrom ::
  "int \<Rightarrow> string \<Rightarrow> ImportFromRequest \<Rightarrow> cluster \<Rightarrow> ImportFromResponse result \<times> cluster" where
  "cluster_ImportFrom port ep req e =
     (case (cu_agents e ep, cu_agents e (if_SourceEndpoint req)) of
        (Some tgt, Some src) \<Rightarrow>
          (case agent_import port req src tgt of (resp, a') \<Rightarrow>
             (Inr resp, e\<lparr>cu_agents := (cu_agents e)(if_SourceEndpoint req \<mapsto> ag_env a',
                ep \<mapsto> \<lparr>ag_store = ag_store a', ag_sessions = ag_sessions a', ag_env = ag_env tgt\<rparr>)\<rparr>))
      | _ \<Rightarrow> (Inl (errorf ''connection refused''), e))"

definition cluster_ops :: "int \<Rightarrow> cluster env_ops" where
  "cluster_ops port = failing_ops
     \<lparr>list_Pods := (\<lambda>ns l e. (Inr (cu_pods e), e)), uuid_New := cluster_uuid,
      rpc_PrepareExport := cluster_PrepareExport port, rpc_ImportFrom := cluster_ImportFrom port\<rparr>"

lemma cluster_ops_simps [simp]:
  "time_Now (cluster_ops port) = Pair 0" "uuid_New (cluster_ops port) = cluster_uuid"
  "list_Pods (cluster_ops port) ns l = (\<lambda>e. (Inr (cu_pods e), e))"
  "grpc_NewClient (cluster_ops port) ep c = Inr ()"
  "rpc_PrepareExport (cluster_ops port) = cluster_PrepareExport port"
  "rpc_ImportFrom (cluster_ops port) = cluster_ImportFrom port"
  by (simp_all add: cluster_ops_def failing_ops_def)

section \<open>What leaves the agents alone\<close>

lemma keeps_env_prims:
  "(\<And>e. snd (f e) = e) \<Longrightarrow> rel_act (keeps env) (ext f)" "rel_act (keeps env) (emit x)" "rel_act (keeps env) (meter g)"
proof -
  assume f: "\<And>e. snd (f e) = e"
  show "rel_act (keeps env) (ext f)"
    unfolding rel_act_def keeps_def
  proof
    fix w :: "'a world"
    show "env (snd (run_state (ext f) w)) = env w" using f[of "env w"] by (cases "f (env w)") simp
  qed
qed (simp_all add: rel_act_def keeps_def)

lemma cluster_quiet:
  "snd (time_Now (cluster_ops port) e) = e" "snd (http_Do (cluster_ops port) u b e) = e"
  "snd (create_SalvageRecord (cluster_ops port) rc e) = e" "snd (delete_Pod (cluster_ops port) pod e) = e"
  "snd (get_Secret (cluster_ops port) ns n e) = e" "snd (rpc_PushImage (cluster_ops port) ep q e) = e"
  by (simp_all add: cluster_ops_def failing_ops_def unavailable_def)

lemma salvaged_env: "rel_act (keeps env) (salvaged (cluster_ops port) orch pod d img sn tn ep start)"
  unfolding salvaged_def createSalvageRecord_def backup_def pushToBackupRegistry_def loadRegistryCredentials_def
    pushImage_def push_failure_def push_success_def recreate_def deletePod_def Notify_def
    EmitSalvaged_def EmitPushed_def EmitPushFailed_def Eventf_def
  by (intro kp.rel_rules keeps_env_prims cluster_quiet)

section \<open>One transfer\<close>

lemma prepare_fake:
  assumes "map_of (fk_images (ag_store a)) d = Some data" and "tok \<noteq> ''''" and "d \<noteq> ''''"
  shows "\<exists>a1. run_state (PrepareExport example_agent (NewServer FakeStore port) \<lparr>pe_SessionToken = tok, pe_Digest = d\<rparr>) a
     = (Inr (int (length data)), a1) \<and> ag_store a1 = ag_store a \<and> ag_env a1 = ag_env a + Second"
  using assms by (simp add: PrepareExport_def NewServer_def fake_defs example_agent_def split: prod.splits)

lemma ExportImage_fake_store:
  "run_state (ExportImage ao (NewServer FakeStore port) send req) a = (x, a') \<Longrightarrow> ag_store a' = ag_store a"
  by (auto simp: ExportImage_def NewServer_def fake_defs split: if_splits prod.splits option.splits sum.splits)

lemma import_source_store:
  assumes "agent_import port req src tgt = (resp, a')"
  shows "ag_store (ag_env a') = ag_store src"
proof -
  obtain sent r src' where ex: "run_state (ExportImage example_agent (NewServer FakeStore port) (\<lambda>_. Inr ())
      \<lparr>ei_SessionToken = if_SessionToken req\<rparr>) src = ((sent, r), src')" by (metis surj_pair)
  from ExportImage_fake_store[OF ex] ex assms show ?thesis
    by (auto simp: agent_import_def ImportFrom_def wired_def finishImport_def verifyImported_def NewServer_def fake_defs
        example_link_def Let_def split: if_splits sum.splits)
qed

lemma import_fake:
  assumes prep: "run_state (PrepareExport example_agent (NewServer FakeStore port) \<lparr>pe_SessionToken = tok, pe_Digest = d\<rparr>) src = (Inr n, src1)"
    and "ag_env src1 = ag_env src + Second" and data: "map_of (fk_images (ag_store src)) d = Some data" "fake_digest data = d"
    and "ep \<noteq> ''''"
  shows "\<exists>resp a'. agent_import port \<lparr>if_SessionToken = tok, if_Digest = d, if_SourceEndpoint = ep\<rparr> src1 tgt = (resp, a')
     \<and> ifr_Success resp \<and> st_Export FakeStore d (ag_store a') = (([data], Inr ()), ag_store a') \<and> ag_store (ag_env a') = ag_store src1"
proof -
  obtain resp a' where run: "agent_import port \<lparr>if_SessionToken = tok, if_Digest = d, if_SourceEndpoint = ep\<rparr> src1 tgt = (resp, a')"
    by fastforce
  have "fst (ao_Now example_agent (ag_env src1)) \<le> fst (ao_Now example_agent (ag_env src)) + 5 * Minute"
    using assms(2) by (simp add: example_agent_def Second_def Minute_def)
  from wired_transfer[OF prep this _ _ assms(5) run[unfolded agent_import_def]] data import_source_store[OF run] run
  show ?thesis by (auto simp: example_link_def)
qed

section \<open>One salvage\<close>

definition moved :: "string \<Rightarrow> string \<Rightarrow> string \<Rightarrow> bytes \<Rightarrow> FakeImageStore \<Rightarrow> cluster \<Rightarrow> bool" where
  "moved src tgt d data s e \<longleftrightarrow>
     (\<exists>a b. cu_agents e src = Some a \<and> ag_store a = s \<and> cu_agents e tgt = Some b
        \<and> st_Export FakeStore d (ag_store b) = (([data], Inr ()), ag_store b))"

lemma cluster_session:
  assumes ag: "cu_agents (env w) src = Some a" "cu_agents (env w) tgt = Some b" "src \<noteq> tgt"
    and data: "map_of (fk_images (ag_store a)) d = Some data" "fake_digest data = d" "d \<noteq> ''''"
    and lim: "or_MaxImageSize orch > 0 \<longrightarrow> int (length data) \<le> or_MaxImageSize orch"
    and ne: "tok \<noteq> ''''" "src \<noteq> ''''"
  shows "\<exists>w'. run_state (salvageSession (cluster_ops port) orch pod d img sn tn src tgt start tok) w = (Inr (), w')
     \<and> moved src tgt d data (ag_store a) (env w')"
proof -
  let ?preq = "\<lparr>pe_SessionToken = tok, pe_Digest = d\<rparr>"
  let ?ireq = "\<lparr>if_SessionToken = tok, if_Digest = d, if_SourceEndpoint = src\<rparr>"
  obtain a1 where prep: "run_state (PrepareExport example_agent (NewServer FakeStore port) ?preq) a = (Inr (int (length data)), a1)"
    and a1: "ag_store a1 = ag_store a" "ag_env a1 = ag_env a + Second"
    using prepare_fake[OF data(1) ne(1) data(3)] by blast
  let ?e1 = "(env w)\<lparr>cu_agents := (cu_agents (env w))(src \<mapsto> a1)\<rparr>"
  let ?w1 = "w\<lparr>trace := trace w @ [prepare_call src tok d], env := ?e1\<rparr>"
  have 1: "run_state (prepareExport (cluster_ops port) orch src tok d) w = (Inr (int (length data)), ?w1)"
    using ag(1) prep by (simp add: prepareExport_def prepare_call_def cluster_PrepareExport_def)
  from import_fake[OF prep a1(2) data(1,2) ne(2), of b] obtain resp b1 where
    imp: "agent_import port ?ireq a1 b = (resp, b1)" "ifr_Success resp"
      "st_Export FakeStore d (ag_store b1) = (([data], Inr ()), ag_store b1)" "ag_store (ag_env b1) = ag_store a1" by blast
  let ?e2 = "?e1\<lparr>cu_agents := (cu_agents ?e1)(src \<mapsto> ag_env b1,
      tgt \<mapsto> \<lparr>ag_store = ag_store b1, ag_sessions = ag_sessions b1, ag_env = ag_env b\<rparr>)\<rparr>"
  let ?w2 = "?w1\<lparr>trace := trace ?w1 @ [import_call tgt tok d src], env := ?e2\<rparr>"
  have 2: "run_state (importFrom (cluster_ops port) orch tgt tok d src) ?w1 = (Inr (), ?w2)"
    using ag imp by (simp add: importFrom_def import_call_def cluster_ImportFrom_def Let_def)
  obtain u w3 where 3: "run_state (salvaged (cluster_ops port) orch pod d img sn tn src start) ?w2 = (u, w3)"
    by (rule prod.exhaust)
  have "env w3 = ?e2" using rel_actD[OF salvaged_env 3] by (simp add: keeps_def)
  moreover have "moved src tgt d data (ag_store a) ?e2"
    using ag(3) imp a1 by (simp add: moved_def)
  moreover have "run_state (salvageSession (cluster_ops port) orch pod d img sn tn src tgt start tok) w = (Inr (), w3)"
    using 1 2 3 lim by (auto simp: salvageSession_def salvageImport_def)
  ultimately show ?thesis by simp
qed

lemma cluster_endpoint:
  "run_state (EndpointForNode (cluster_ops port) r n) w = (firstEndpoint r n (cu_pods (env w)), w)"
  by (simp add: EndpointForNode_def)

lemma cluster_salvageLocked:
  assumes ep: "firstEndpoint (or_Resolver orch) sn (cu_pods (env w)) = Inr src"
      "firstEndpoint (or_Resolver orch) tn (cu_pods (env w)) = Inr tgt"
    and ag: "cu_agents (env w) src = Some a" "cu_agents (env w) tgt = Some b" "src \<noteq> tgt"
    and data: "map_of (fk_images (ag_store a)) d = Some data" "fake_digest data = d" "d \<noteq> ''''"
    and lim: "or_MaxImageSize orch > 0 \<longrightarrow> int (length data) \<le> or_MaxImageSize orch"
  shows "\<exists>w'. run_state (salvageLocked (cluster_ops port) orch pod d img sn tn start) w = (Inr (), w')
     \<and> moved src tgt d data (ag_store a) (env w')"
proof -
  obtain tok e1 where u: "cluster_uuid (env w) = (tok, e1)" by fastforce
  then have tok: "tok \<noteq> ''''" and e1: "cu_agents e1 = cu_agents (env w)" by (auto simp: cluster_uuid_def)
  have src: "src \<noteq> ''''" using firstEndpoint_sound[OF ep(1)] by (auto simp: podEndpoint_def)
  let ?cr = "Create tok 0 d sn tn (or_SessionTTL orch) (sessions w)"
  let ?w3 = "w\<lparr>env := e1, sessions := snd ?cr\<rparr>"
  have "cu_agents (env ?w3) src = Some a" "cu_agents (env ?w3) tgt = Some b" using ag e1 by simp_all
  from cluster_session[OF this ag(3) data lim tok src, of port pod img sn tn start] obtain w4 where
    4: "run_state (salvageSession (cluster_ops port) orch pod d img sn tn src tgt start tok) ?w3 = (Inr (), w4)"
      "moved src tgt d data (ag_store a) (env w4)" by blast
  obtain sess st' where cr: "?cr = (sess, st')" by fastforce
  then have sess: "sess_Token sess = tok" "snd ?cr = st'" using Create_token[of tok 0 d sn tn "or_SessionTTL orch" "sessions w"] by simp_all
  have "run_state (salvageLocked (cluster_ops port) orch pod d img sn tn start) w = (Inr (), w4\<lparr>sessions := Delete tok (sessions w4)\<rparr>)"
    using 4(1) ep u cr sess by (simp add: salvageLocked_def cluster_endpoint)
  with 4(2) show ?thesis by simp
qed

section \<open>Properties\<close>


definition example_nodes :: cluster where
  "example_nodes = \<lparr>cu_pods = [agent_pod ''a'' ''10.0.0.1'', agent_pod ''b'' ''10.0.0.2''],
     cu_agents = [''10.0.0.1:9090'' \<mapsto> example_source,
       ''10.0.0.2:9090'' \<mapsto> \<lparr>ag_store = NewFakeImageStore, ag_sessions = NewStore, ag_env = 0\<rparr>], cu_drawn = 0\<rparr>"

lemma example_port: "podEndpoint (NewResolver ns 9090) p = pod_PodIP p @ '':9090''"
  by (simp add: podEndpoint_def NewResolver_def fmt_int_def fmt_nat.simps char_of_def bit_numeral_rec bit_Suc_0_iff)


end
