(* ===== verification/Inventory.thy ===== *)
theory Inventory
  imports World
begin

text \<open>
  \<open>internal/inventory/inventory.go\<close>: which nodes hold an image, from the kubelet's report in
  \<open>Node.Status.Images\<close>. The listing itself is the API server's answer (\<open>list_Nodes\<close>); the search
  through it is modelled loop by loop.
\<close>

section \<open>Searching one node\<close>

definition nodeHasDigest :: "Node \<Rightarrow> string \<Rightarrow> bool" where
  "nodeHasDigest node digest =
     (let suf = ''@'' @ digest
      in list_ex (\<lambda>names. list_ex (\<lambda>name. HasSuffix name suf) names) (node_Images node))"

text \<open>The digest part of one image name, or the digest found so far.\<close>

definition nameDigest :: "string \<Rightarrow> string \<Rightarrow> string" where
  "nameDigest name digest =
     (case str_LastIndex name ''@sha256:'' of
        None \<Rightarrow> digest
      | Some idx \<Rightarrow> (let d = drop (idx + 1) name in if length d = 71 then d else digest))"

fun scanNames :: "string \<Rightarrow> string list \<Rightarrow> bool \<Rightarrow> string \<Rightarrow> bool \<times> string" where
  "scanNames imageTag [] hasTag digest = (hasTag, digest)"
| "scanNames imageTag (name # names) hasTag digest =
     scanNames imageTag names (if name = imageTag then True else hasTag) (nameDigest name digest)"

fun digestForTag_loop :: "string list list \<Rightarrow> string \<Rightarrow> string" where
  "digestForTag_loop [] imageTag = ''''"
| "digestForTag_loop (names # imgs) imageTag =
     (case scanNames imageTag names False '''' of (hasTag, digest) \<Rightarrow>
        if hasTag \<and> digest \<noteq> '''' then digest else digestForTag_loop imgs imageTag)"

definition nodeDigestForTag :: "Node \<Rightarrow> string \<Rightarrow> string" where
  "nodeDigestForTag node imageTag = digestForTag_loop (node_Images node) imageTag"

section \<open>Searching all nodes\<close>

fun findNodes_loop :: "Node list \<Rightarrow> string \<Rightarrow> string list \<Rightarrow> string list" where
  "findNodes_loop [] digest nodes = nodes"
| "findNodes_loop (node # items) digest nodes =
     findNodes_loop items digest (if nodeHasDigest node digest then nodes @ [node_Name node] else nodes)"

fun findByTag_loop :: "Node list \<Rightarrow> string \<Rightarrow> string \<Rightarrow> string list \<Rightarrow> string \<times> string list" where
  "findByTag_loop [] imageTag digest nodes = (digest, nodes)"
| "findByTag_loop (node # items) imageTag digest nodes =
     (let d = nodeDigestForTag node imageTag
      in if d = '''' then findByTag_loop items imageTag digest nodes
         else findByTag_loop items imageTag (if digest = '''' then d else digest) (nodes @ [node_Name node]))"

definition FindNodes :: "'e env_ops \<Rightarrow> string \<Rightarrow> ('e, string list result) act" where
  "FindNodes ops digest = do {
     r \<leftarrow> ext (list_Nodes ops);
     return (case r of Inl e \<Rightarrow> Inl e | Inr items \<Rightarrow> Inr (findNodes_loop items digest []))
   }"

definition FindNodesByTag :: "'e env_ops \<Rightarrow> string \<Rightarrow> ('e, (string \<times> string list) result) act" where
  "FindNodesByTag ops imageTag = do {
     r \<leftarrow> ext (list_Nodes ops);
     return (case r of Inl e \<Rightarrow> Inl e | Inr items \<Rightarrow> Inr (findByTag_loop items imageTag '''' []))
   }"

section \<open>Lemmas\<close>

lemma FindNodes_rel [rel_intros]:
  "rel_act (emits_only P) (FindNodes ops d)" "rel_act (keeps semaphore) (FindNodes ops d)"
  "rel_act (keeps sessions) (FindNodes ops d)" "rel_act (keeps metrics) (FindNodes ops d)"
  unfolding FindNodes_def by (intro act_rules rel_intros)+

lemma FindNodesByTag_rel [rel_intros]:
  "rel_act (emits_only P) (FindNodesByTag ops d)" "rel_act (keeps semaphore) (FindNodesByTag ops d)"
  "rel_act (keeps sessions) (FindNodesByTag ops d)" "rel_act (keeps metrics) (FindNodesByTag ops d)"
  unfolding FindNodesByTag_def by (intro act_rules rel_intros)+

lemma findNodes_loop_eq:
  "findNodes_loop items digest nodes =
     nodes @ map node_Name (filter (\<lambda>n. nodeHasDigest n digest) items)"
  by (induction items digest nodes rule: findNodes_loop.induct) auto

lemma findByTag_loop_eq:
  "findByTag_loop items tag digest nodes =
     (let hits = filter (\<lambda>n. nodeDigestForTag n tag \<noteq> '''') items
      in (if digest = '''' \<and> hits \<noteq> [] then nodeDigestForTag (hd hits) tag else digest,
          nodes @ map node_Name hits))"
  by (induction items tag digest nodes rule: findByTag_loop.induct) (auto simp: Let_def)

text \<open>A digest found by a name scan is the ending of one of the names scanned, after an @ sign.\<close>

definition digest_of_name :: "string \<Rightarrow> string \<Rightarrow> bool" where
  "digest_of_name d name \<longleftrightarrow> suffix (''@'' @ d) name \<and> prefix ''sha256:'' d \<and> length d = 71"

lemma nameDigest_cases: "nameDigest name d = d \<or> digest_of_name (nameDigest name d) name"
proof (cases "str_LastIndex name ''@sha256:''")
  case None
  then show ?thesis by (simp add: nameDigest_def)
next
  case (Some i)
  from str_LastIndex_Some[OF this] have pre: "prefix ''@sha256:'' (drop i name)" by simp
  then obtain t where t: "drop i name = ''@'' @ ''sha256:'' @ t" by (auto simp: prefix_def)
  then have d: "drop (i + 1) name = ''sha256:'' @ t"
    using drop_drop[of 1 i name] by simp
  have "name = take i name @ ''@'' @ drop (i + 1) name"
    using append_take_drop_id[of i name] t d by metis
  then have "suffix (''@'' @ drop (i + 1) name) name" by (auto simp: suffix_def)
  then show ?thesis using Some d by (simp add: nameDigest_def digest_of_name_def)
qed

lemma scanNames_sound:
  "scanNames tag names h d = (h', d') \<Longrightarrow>
     (h' \<longleftrightarrow> h \<or> tag \<in> set names) \<and> (d' = d \<or> (\<exists>name \<in> set names. digest_of_name d' name))"
proof (induction tag names h d rule: scanNames.induct)
  case (2 tag name names h d)
  from "2.IH" "2.prems" nameDigest_cases[of name d] show ?case by (auto split: if_splits)
qed simp

lemma digestForTag_loop_sound:
  assumes "digestForTag_loop imgs tag = d" and "d \<noteq> ''''"
  shows "\<exists>names \<in> set imgs. tag \<in> set names \<and> (\<exists>name \<in> set names. digest_of_name d name)"
  using assms
proof (induction imgs tag rule: digestForTag_loop.induct)
  case (2 names imgs tag)
  obtain h d' where scan: "scanNames tag names False '''' = (h, d')" by fastforce
  with scanNames_sound[OF scan] 2 show ?case by (auto split: if_splits)
qed simp

lemma nodeDigestForTag_has:
  "nodeDigestForTag node tag \<noteq> '''' \<Longrightarrow> nodeHasDigest node (nodeDigestForTag node tag)"
  using digestForTag_loop_sound[of "node_Images node" tag]
  by (fastforce simp: nodeDigestForTag_def nodeHasDigest_def HasSuffix_def digest_of_name_def list_ex_iff)

section \<open>Properties\<close>

text \<open>\<open>FindNodes\<close> asks the API server once, hands its error on unchanged, and otherwise returns the
  names of exactly the nodes that report an image name ending in @ and the digest, in list order;
  it changes nothing else in the process.\<close>

theorem FindNodes_exact:
  "run_state (FindNodes ops digest) w =
     (case list_Nodes ops (env w) of (r, e') \<Rightarrow>
        ((case r of
            Inl e \<Rightarrow> Inl e
          | Inr items \<Rightarrow> Inr (map node_Name (filter (\<lambda>n. \<exists>names \<in> set (node_Images n).
                \<exists>name \<in> set names. suffix (''@'' @ digest) name) items))),
         w\<lparr>env := e'\<rparr>))"
  by (simp add: FindNodes_def findNodes_loop_eq nodeHasDigest_def HasSuffix_def list_ex_iff
      split: prod.splits sum.splits)

text \<open>A digest that a node reports for a tag is a full sha256 digest which stands beside the tag in
  one image entry of that node, so the digest search finds the same node.\<close>

theorem nodeDigestForTag_sound:
  assumes "nodeDigestForTag node tag = d" and "d \<noteq> ''''"
  shows "nodeHasDigest node d \<and> prefix ''sha256:'' d \<and> length d = 71 \<and>
     (\<exists>names \<in> set (node_Images node). tag \<in> set names \<and> (\<exists>name \<in> set names. suffix (''@'' @ d) name))"
  using assms nodeDigestForTag_has[of node tag]
    digestForTag_loop_sound[of "node_Images node" tag d]
  by (auto simp: nodeDigestForTag_def digest_of_name_def)

definition example_digest :: "char \<Rightarrow> string" where
  "example_digest c = ''sha256:'' @ replicate 64 c"

definition example_node :: "string \<Rightarrow> char \<Rightarrow> Node" where
  "example_node name c = \<lparr>node_Name = name, node_Images = [[''app:v1'', ''app@'' @ example_digest c]]\<rparr>"

lemma example_node_digest: "nodeDigestForTag (example_node n CHR ''a'') ''app:v1'' = example_digest CHR ''a''"
  "nodeDigestForTag (example_node n CHR ''b'') ''app:v1'' = example_digest CHR ''b''"
  by (simp_all add: example_node_def nodeDigestForTag_def nameDigest_def example_digest_def numeral_eq_Suc)

theorem nodeDigestForTag_sound_witness:
  "nodeHasDigest (example_node ''n1'' CHR ''a'') (example_digest CHR ''a'')
     \<and> prefix ''sha256:'' (example_digest CHR ''a'') \<and> length (example_digest CHR ''a'') = 71
     \<and> (\<exists>names \<in> set (node_Images (example_node ''n1'' CHR ''a'')). ''app:v1'' \<in> set names
        \<and> (\<exists>name \<in> set names. suffix (''@'' @ example_digest CHR ''a'') name))"
  by (rule nodeDigestForTag_sound[OF example_node_digest(1)]) (simp add: example_digest_def)

text \<open>A tag search returns the digest of the first node that has the tag together with every node
  that has it (no node and an empty digest when none has). When all nodes agree on what the tag
  means, every node returned holds the digest returned.\<close>

theorem FindNodesByTag_agreeing:
  assumes "list_Nodes ops (env w) = (Inr items, e')"
    and "\<forall>n \<in> set items. \<forall>m \<in> set items. nodeDigestForTag n tag \<noteq> '''' \<longrightarrow> nodeDigestForTag m tag \<noteq> ''''
           \<longrightarrow> nodeDigestForTag n tag = nodeDigestForTag m tag"
  shows "\<exists>digest nodes. run_state (FindNodesByTag ops tag) w = (Inr (digest, nodes), w\<lparr>env := e'\<rparr>)
     \<and> nodes = map node_Name (filter (\<lambda>n. nodeDigestForTag n tag \<noteq> '''') items)
     \<and> (digest = '''' \<longleftrightarrow> nodes = [])
     \<and> (\<forall>n \<in> set items. nodeDigestForTag n tag \<noteq> '''' \<longrightarrow> nodeHasDigest n digest)"
proof -
  let ?hits = "filter (\<lambda>n. nodeDigestForTag n tag \<noteq> '''') items"
  have hd: "hd ?hits \<in> set items \<and> nodeDigestForTag (hd ?hits) tag \<noteq> ''''" if "?hits \<noteq> []"
    using hd_in_set[OF that] by auto
  have agree: "nodeHasDigest n (nodeDigestForTag (hd ?hits) tag)"
    if "n \<in> set items" "nodeDigestForTag n tag \<noteq> ''''" for n
  proof -
    from that have "?hits \<noteq> []" by (auto simp: filter_empty_conv)
    with hd assms(2) that have "nodeDigestForTag (hd ?hits) tag = nodeDigestForTag n tag" by blast
    then show ?thesis using nodeDigestForTag_has[OF that(2)] by simp
  qed
  show ?thesis
    using hd agree assms(1) by (auto simp: FindNodesByTag_def findByTag_loop_eq Let_def filter_empty_conv)
qed

theorem FindNodesByTag_agreeing_witness:
  "\<exists>digest nodes. run_state (FindNodesByTag
        (failing_ops\<lparr>list_Nodes := Pair (Inr [example_node ''n1'' CHR ''a'', example_node ''n2'' CHR ''a''])\<rparr>)
        ''app:v1'') (init_world ()) = (Inr (digest, nodes), (init_world ())\<lparr>env := ()\<rparr>)
     \<and> nodes = map node_Name (filter (\<lambda>n. nodeDigestForTag n ''app:v1'' \<noteq> '''')
          [example_node ''n1'' CHR ''a'', example_node ''n2'' CHR ''a''])
     \<and> (digest = '''' \<longleftrightarrow> nodes = [])
     \<and> (\<forall>n \<in> set [example_node ''n1'' CHR ''a'', example_node ''n2'' CHR ''a''].
          nodeDigestForTag n ''app:v1'' \<noteq> '''' \<longrightarrow> nodeHasDigest n digest)"
  by (rule FindNodesByTag_agreeing) (simp_all add: example_node_digest)


end
