(* ===== verification/Detector.thy ===== *)
theory Detector
  imports Kube_Types
begin

text \<open>
  \<open>internal/detector/detector.go\<close>: from a pod's container statuses to the list of image failures.
  \<open>detect_spec\<close> says, without the loop, which failures a pod has; \<open>Detect_exact\<close> proves that the
  code returns these and no others, in the order of the statuses.
\<close>

record Failure =
  fail_ContainerName :: string
  fail_Image :: string
  fail_Reason :: string
  fail_Message :: string
  fail_CorruptImage :: bool

definition imagePullFailureReasons :: "string \<Rightarrow> bool" where
  "imagePullFailureReasons r = (r = ''ImagePullBackOff'' \<or> r = ''ErrImagePull'')"

definition isCorruptImageMessage :: "string \<Rightarrow> bool" where
  "isCorruptImageMessage msg =
     (str_Contains msg ''failed to resolve rootfs'' \<and>
      str_Contains msg ''content digest'' \<and>
      str_Contains msg ''not found'')"

definition specImages :: "Container list \<Rightarrow> string \<rightharpoonup> string" where
  "specImages specs = fold (\<lambda>c m. m(ctr_Name c \<mapsto> ctr_Image c)) specs Map.empty"

fun detect_loop :: "(string \<rightharpoonup> string) \<Rightarrow> ContainerStatus list \<Rightarrow> Failure list \<Rightarrow> Failure list" where
  "detect_loop specImage [] failures = failures"
| "detect_loop specImage (cs # rest) failures =
     (case cs_Waiting cs of
        None \<Rightarrow> detect_loop specImage rest failures
      | Some ws \<Rightarrow>
          (let reason = waiting_Reason ws; msg = waiting_Message ws
           in if imagePullFailureReasons reason then
                detect_loop specImage rest (failures @
                  [\<lparr>fail_ContainerName = cs_Name cs, fail_Image = go_lookup specImage (cs_Name cs),
                    fail_Reason = reason, fail_Message = msg, fail_CorruptImage = False\<rparr>])
              else if reason = ''CreateContainerError'' \<and> isCorruptImageMessage msg then
                detect_loop specImage rest (failures @
                  [\<lparr>fail_ContainerName = cs_Name cs, fail_Image = go_lookup specImage (cs_Name cs),
                    fail_Reason = reason, fail_Message = msg, fail_CorruptImage = True\<rparr>])
              else detect_loop specImage rest failures))"

definition detectInStatuses :: "ContainerStatus list \<Rightarrow> Container list \<Rightarrow> Failure list" where
  "detectInStatuses statuses specs = detect_loop (specImages specs) statuses []"

definition Detect :: "Pod \<Rightarrow> Failure list" where
  "Detect pod =
     detectInStatuses (pod_ContainerStatuses pod) (pod_Containers pod) @
     detectInStatuses (pod_InitContainerStatuses pod) (pod_InitContainers pod)"

section \<open>Specification\<close>

text \<open>The image of the named container; an unknown name has the empty image.\<close>

definition spec_image :: "Container list \<Rightarrow> string \<Rightarrow> string" where
  "spec_image specs name =
     (case filter (\<lambda>c. ctr_Name c = name) specs of [] \<Rightarrow> '''' | cs \<Rightarrow> ctr_Image (last cs))"

definition is_failure_of :: "Container list \<Rightarrow> ContainerStatus \<Rightarrow> Failure \<Rightarrow> bool" where
  "is_failure_of specs cs f \<longleftrightarrow>
     (\<exists>ws. cs_Waiting cs = Some ws
        \<and> fail_ContainerName f = cs_Name cs
        \<and> fail_Image f = spec_image specs (cs_Name cs)
        \<and> fail_Reason f = waiting_Reason ws \<and> fail_Message f = waiting_Message ws
        \<and> (if fail_CorruptImage f
           then fail_Reason f = ''CreateContainerError'' \<and> isCorruptImageMessage (fail_Message f)
           else fail_Reason f = ''ImagePullBackOff'' \<or> fail_Reason f = ''ErrImagePull''))"

definition failure_of :: "(string \<rightharpoonup> string) \<Rightarrow> ContainerStatus \<Rightarrow> Failure option" where
  "failure_of specImage cs =
     (case detect_loop specImage [cs] [] of [] \<Rightarrow> None | f # _ \<Rightarrow> Some f)"

lemma specImages_fold:
  "go_lookup (fold (\<lambda>c m. m(ctr_Name c \<mapsto> ctr_Image c)) specs m) name =
     (case filter (\<lambda>c. ctr_Name c = name) specs of [] \<Rightarrow> go_lookup m name | cs \<Rightarrow> ctr_Image (last cs))"
  by (induction specs arbitrary: m) (auto split: list.splits)

lemma go_lookup_specImages: "go_lookup (specImages specs) name = spec_image specs name"
  by (simp add: specImages_def spec_image_def specImages_fold split: list.splits)

lemma detect_loop_acc: "detect_loop m css acc = acc @ detect_loop m css []"
proof (induction css arbitrary: acc)
  case (Cons cs css)
  have IH: "detect_loop m css (acc @ [f]) = acc @ [f] @ detect_loop m css []" for acc f
    using Cons.IH[of "acc @ [f]"] by simp
  show ?case
    using Cons.IH[of acc] IH[of acc] IH[of "[]"] by (auto simp: Let_def split: option.splits)
qed simp

lemma detect_loop_map: "detect_loop m css [] = List.map_filter (failure_of m) css"
proof (induction css)
  case (Cons cs css)
  have "detect_loop m (cs # css) [] = detect_loop m [cs] [] @ detect_loop m css []"
    using detect_loop_acc[of m css "detect_loop m [cs] []"]
    by (auto simp: Let_def split: option.splits)
  with Cons show ?case
    by (auto simp: failure_of_def List.map_filter_def Let_def split: option.splits list.splits)
qed (simp add: List.map_filter_def)

lemma failure_of_iff: "failure_of (specImages specs) cs = Some f \<longleftrightarrow> is_failure_of specs cs f"
  by (cases f) (auto simp: failure_of_def is_failure_of_def Let_def go_lookup_specImages
      imagePullFailureReasons_def split: option.splits)

lemma detectInStatuses_eq:
  "detectInStatuses statuses specs = List.map_filter (failure_of (specImages specs)) statuses"
  by (simp add: detectInStatuses_def detect_loop_map)

lemma set_map_filter: "set (List.map_filter g xs) = {y. \<exists>x \<in> set xs. g x = Some y}"
  by (force simp: List.map_filter_def)

lemma failure_of_name: "failure_of m cs = Some f \<Longrightarrow> fail_ContainerName f = cs_Name cs"
  by (auto simp: failure_of_def Let_def split: option.splits if_splits)

lemma map_filter_names:
  "subseq (map fail_ContainerName (List.map_filter (failure_of m) css)) (map cs_Name css)"
  by (induction css) (auto simp: List.map_filter_def failure_of_name split: option.splits)

lemma Detect_length: "length (Detect pod) \<le> length (pod_ContainerStatuses pod) + length (pod_InitContainerStatuses pod)"
  using map_filter_names[THEN list_emb_length]
  by (auto simp: Detect_def detectInStatuses_eq intro!: add_mono)

section \<open>Properties\<close>

text \<open>C32: \<open>Detect\<close> returns exactly the failures of the pod: one for each container or init container
  that waits with reason ImagePullBackOff or ErrImagePull, or with CreateContainerError and a
  message about a missing content digest of its rootfs; the failure carries the image of the
  container of that name in the matching spec list, and is flagged corrupt exactly in the
  CreateContainerError case. Failures come in the order of the statuses, regular containers first.\<close>

theorem Detect_exact:
  "set (Detect pod) =
     {f. (\<exists>cs \<in> set (pod_ContainerStatuses pod). is_failure_of (pod_Containers pod) cs f)
       \<or> (\<exists>cs \<in> set (pod_InitContainerStatuses pod). is_failure_of (pod_InitContainers pod) cs f)}
   \<and> subseq (map fail_ContainerName (Detect pod))
        (map cs_Name (pod_ContainerStatuses pod @ pod_InitContainerStatuses pod))"
  by (auto simp: Detect_def detectInStatuses_eq set_map_filter failure_of_iff
      intro!: list_emb_append_mono map_filter_names)

end
