(* ===== verification/Controller.thy ===== *)
theory Controller
  imports Tote_Transfer Inventory Detector
begin

text \<open>
  \<open>internal/controller/controller.go\<close>: the reconciler. \<open>Reconcile\<close> checks the operator's and the
  users' consent, detects image failures and handles them one after the other; the body of its
  loop is split at its branches (corrupt image, resolution of the digest, salvage), and a loop
  iteration ends with \<open>Continue\<close> or returns from \<open>Reconcile\<close> with \<open>Done\<close>. The tag resolver is an
  interface value of the program; what \<open>main\<close> puts there is modelled in \<open>Registry\<close>. The manager that
  \<open>SetupWithManager\<close> registers with is an argument. Logging is left out.
\<close>

section \<open>Consent\<close>

definition namespaceOptedIn :: "'e env_ops \<Rightarrow> string \<Rightarrow> ('e, bool) act" where
  "namespaceOptedIn ops namespace = do {
     ns \<leftarrow> ext (get_Namespace ops namespace);
     return (case ns of
         Inl e \<Rightarrow> False
       | Inr m \<Rightarrow> go_lookup (meta_Annotations m) AnnotationNamespaceAllow = ''true'')
   }"

definition autoSalvage :: "ObjectMeta \<Rightarrow> bool" where
  "autoSalvage m = (go_lookup (meta_Annotations m) AnnotationPodAutoSalvage = ''true'')"

text \<open>The owners of a ReplicaSet.\<close>

fun parentLoop :: "'e env_ops \<Rightarrow> string \<Rightarrow> OwnerReference list \<Rightarrow> ('e, bool) act" where
  "parentLoop ops ns [] = return False"
| "parentLoop ops ns (parent # rest) =
     (if owner_Kind parent = ''Deployment'' then do {
        dep \<leftarrow> ext (get_Owner ops ''Deployment'' ns (owner_Name parent));
        case dep of
          Inl e \<Rightarrow> parentLoop ops ns rest
        | Inr m \<Rightarrow> if autoSalvage m then return True else parentLoop ops ns rest
      }
      else parentLoop ops ns rest)"

fun ownerLoop :: "'e env_ops \<Rightarrow> string \<Rightarrow> OwnerReference list \<Rightarrow> ('e, bool) act" where
  "ownerLoop ops ns [] = return False"
| "ownerLoop ops ns (ref # rest) =
     (if owner_Kind ref = ''ReplicaSet'' then do {
        rs \<leftarrow> ext (get_Owner ops ''ReplicaSet'' ns (owner_Name ref));
        case rs of
          Inl e \<Rightarrow> ownerLoop ops ns rest
        | Inr m \<Rightarrow>
            (if autoSalvage m then return True
             else do {
               b \<leftarrow> parentLoop ops ns (meta_OwnerReferences m);
               if b then return True else ownerLoop ops ns rest
             })
      }
      else if owner_Kind ref = ''StatefulSet'' \<or> owner_Kind ref = ''DaemonSet'' \<or> owner_Kind ref = ''Job'' then do {
        obj \<leftarrow> ext (get_Owner ops (owner_Kind ref) ns (owner_Name ref));
        case obj of
          Inl e \<Rightarrow> ownerLoop ops ns rest
        | Inr m \<Rightarrow> if autoSalvage m then return True else ownerLoop ops ns rest
      }
      else ownerLoop ops ns rest)"

definition isAutoSalvageEnabled :: "'e env_ops \<Rightarrow> Pod \<Rightarrow> ('e, bool) act" where
  "isAutoSalvageEnabled ops pod =
     (if autoSalvage (pod_Meta pod) then return True
      else ownerLoop ops (pod_Namespace pod) (pod_OwnerReferences pod))"

definition hasSalvageRecord :: "'e env_ops \<Rightarrow> string \<Rightarrow> string \<Rightarrow> ('e, bool) act" where
  "hasSalvageRecord ops namespace digest = do {
     l \<leftarrow> ext (list_SalvageRecords ops (Some (namespace, digest)));
     return (case l of
         Inl e \<Rightarrow> False
       | Inr items \<Rightarrow> list_ex (\<lambda>i. Phase (rec_Status i) = ''Completed'') items)
   }"

definition isTransientError :: "err \<Rightarrow> bool" where
  "isTransientError e =
     (str_Contains (emsg e) ''rate limited'' \<or> str_Contains (emsg e) ''connection refused'' \<or>
      str_Contains (emsg e) ''connecting to'' \<or> str_Contains (emsg e) ''Unavailable'')"

section \<open>Handling one failure\<close>

record 'e PodReconciler =
  pr_Config :: Config
  pr_Orchestrator :: "Orchestrator option"
  pr_AgentResolver :: "Resolver option"
  pr_TagResolver :: "(string \<Rightarrow> 'e \<Rightarrow> string result \<times> 'e) option"
  pr_Notifier :: "Notifier option"

text \<open>\<open>reconcile.Result\<close> and the error.\<close>

record ReconcileResult =
  RequeueAfter :: int
  res_Err :: "err option"

abbreviation reconciled :: ReconcileResult where
  "reconciled \<equiv> \<lparr>RequeueAfter = 0, res_Err = None\<rparr>"

datatype control = Continue | Done ReconcileResult

definition handleCorrupt :: "'e env_ops \<Rightarrow> 'e PodReconciler \<Rightarrow> Pod \<Rightarrow> Failure \<Rightarrow> ('e, control) act" where
  "handleCorrupt ops r pod f = do {
     meter RecordCorruptImage;
     case pr_AgentResolver r of
       None \<Rightarrow> return Continue
     | Some ar \<Rightarrow>
         (if pod_NodeName pod \<noteq> '''' then do {
            EmitCorruptImage pod (fail_Image f) (pod_NodeName pod);
            res \<leftarrow> RemoveImageOnNode ops ar (pod_NodeName pod) (fail_Image f);
            case res of
              Inl e \<Rightarrow> return Continue
            | Inr _ \<Rightarrow> do {
                recreate ops pod;
                return Continue
              }
          }
          else return Continue)
   }"

text \<open>What resolving an image comes to: a digest and candidate nodes, nothing to do for this failure, or
  an error that ends the reconciliation.\<close>

datatype resolved = Digest_on string "string list" | Not_resolved | Resolve_error err

definition askAgents :: "'e env_ops \<Rightarrow> 'e PodReconciler \<Rightarrow> string \<Rightarrow> string \<times> string list \<Rightarrow> ('e, string \<times> string list) act" where
  "askAgents ops r img found =
     (case found of (digest, nodes) \<Rightarrow>
        (case pr_AgentResolver r of
           None \<Rightarrow> return (digest, nodes)
         | Some ar \<Rightarrow>
             (if digest = '''' then do {
                res \<leftarrow> ResolveTagViaAgents ops ar img;
                return (case res of
                    Inl e \<Rightarrow> ('''', nodes)
                  | Inr (d, sourceNode) \<Rightarrow> if d \<noteq> '''' \<and> sourceNode \<noteq> '''' then (d, [sourceNode]) else (d, nodes))
              }
              else return (digest, nodes))))"

text \<open>The result \<^const>\<open>None\<close> is the \<open>continue\<close> of the branch for an uncached digest.\<close>

definition askRegistry ::
  "'e env_ops \<Rightarrow> 'e PodReconciler \<Rightarrow> Pod \<Rightarrow> string \<Rightarrow> string \<times> string list \<Rightarrow> ('e, (string \<times> string list) option) act" where
  "askRegistry ops r pod img found =
     (case found of (digest, nodes) \<Rightarrow>
        (case pr_TagResolver r of
           None \<Rightarrow> return (Some (digest, nodes))
         | Some resolveTag \<Rightarrow>
             (if digest = '''' then do {
                start \<leftarrow> ext (time_Now ops);
                res \<leftarrow> ext (resolveTag img);
                now \<leftarrow> ext (time_Now ops);
                meter (RecordRegistryResolveDuration (now - start));
                case res of
                  Inl e \<Rightarrow> do {
                    meter (RecordRegistryResolve ''failure'');
                    return (Some (digest, nodes))
                  }
                | Inr regDigest \<Rightarrow>
                    (if regDigest \<noteq> '''' then do {
                       meter (RecordRegistryResolve ''success'');
                       regNodes \<leftarrow> FindNodes ops regDigest;
                       case regNodes of
                         Inl e \<Rightarrow> return (Some (digest, nodes))
                       | Inr ns \<Rightarrow>
                           (if ns \<noteq> [] then return (Some (regDigest, ns))
                            else do {
                              EmitResolvedButUncached pod img regDigest;
                              meter RecordNotActionable;
                              return None
                            })
                     }
                     else do {
                       meter (RecordRegistryResolve ''not_found'');
                       return (Some (digest, nodes))
                     })
              }
              else return (Some (digest, nodes)))))"

definition resolveTagged :: "'e env_ops \<Rightarrow> 'e PodReconciler \<Rightarrow> Pod \<Rightarrow> string \<Rightarrow> ('e, resolved) act" where
  "resolveTagged ops r pod img = do {
     byTag \<leftarrow> FindNodesByTag ops img;
     case byTag of
       Inl e \<Rightarrow> return (Resolve_error e)
     | Inr found \<Rightarrow> do {
         found1 \<leftarrow> askAgents ops r img found;
         found2 \<leftarrow> askRegistry ops r pod img found1;
         case found2 of
           None \<Rightarrow> return Not_resolved
         | Some (digest, nodes) \<Rightarrow>
             (if digest = '''' then do {
                meter RecordNotActionable;
                EmitNotActionable pod img;
                return Not_resolved
              }
              else return (Digest_on digest nodes))
       }
   }"

definition resolveImage :: "'e env_ops \<Rightarrow> 'e PodReconciler \<Rightarrow> Pod \<Rightarrow> string \<Rightarrow> ('e, resolved) act" where
  "resolveImage ops r pod img =
     (let res = Resolve img
      in if res_Actionable res then do {
           nodes \<leftarrow> FindNodes ops (res_Digest res);
           return (case nodes of Inl e \<Rightarrow> Resolve_error e | Inr ns \<Rightarrow> Digest_on (res_Digest res) ns)
         }
         else resolveTagged ops r pod img)"

fun pickSource :: "string list \<Rightarrow> string \<Rightarrow> string" where
  "pickSource [] target = ''''"
| "pickSource (n # ns) target = (if n \<noteq> target then n else pickSource ns target)"

definition salvageFrom ::
  "'e env_ops \<Rightarrow> 'e PodReconciler \<Rightarrow> Pod \<Rightarrow> string \<Rightarrow> string \<Rightarrow> string list \<Rightarrow> ('e, control) act" where
  "salvageFrom ops r pod img digest nodes =
     (case pr_Orchestrator r of
        None \<Rightarrow> return Continue
      | Some orch \<Rightarrow>
          (if pod_NodeName pod \<noteq> '''' then do {
             known \<leftarrow> hasSalvageRecord ops (pod_Namespace pod) digest;
             if known then return Continue
             else if pickSource nodes (pod_NodeName pod) = '''' then return Continue
             else do {
               s \<leftarrow> Salvage ops orch pod digest img (pickSource nodes (pod_NodeName pod));
               return (case s of
                   Inl e \<Rightarrow> if isTransientError e then Done \<lparr>RequeueAfter = 30 * Second, res_Err = None\<rparr> else Continue
                 | Inr _ \<Rightarrow> Continue)
             }
           }
           else return Continue))"

definition handlePullFailure :: "'e env_ops \<Rightarrow> 'e PodReconciler \<Rightarrow> Pod \<Rightarrow> string \<Rightarrow> ('e, control) act" where
  "handlePullFailure ops r pod img = do {
     res \<leftarrow> resolveImage ops r pod img;
     case res of
       Resolve_error e \<Rightarrow> return (Done \<lparr>RequeueAfter = 0, res_Err = Some e\<rparr>)
     | Not_resolved \<Rightarrow> return Continue
     | Digest_on digest nodes \<Rightarrow>
         (if nodes \<noteq> [] then do {
            meter RecordSalvageable;
            EmitSalvageable pod img nodes;
            salvageFrom ops r pod img digest nodes
          }
          else return Continue)
   }"

definition handleFailure :: "'e env_ops \<Rightarrow> 'e PodReconciler \<Rightarrow> Pod \<Rightarrow> Failure \<Rightarrow> ('e, control) act" where
  "handleFailure ops r pod f = do {
     meter RecordDetected;
     _ \<leftarrow> Notify ops (pr_Notifier r)
       (empty_event\<lparr>ne_Type := ''detected'', ne_PodName := pod_Name pod, ne_Namespace := pod_Namespace pod,
          ne_ImageRef := fail_Image f\<rparr>);
     (if fail_CorruptImage f then handleCorrupt ops r pod f
      else handlePullFailure ops r pod (fail_Image f))
   }"

fun failureLoop :: "'e env_ops \<Rightarrow> 'e PodReconciler \<Rightarrow> Pod \<Rightarrow> Failure list \<Rightarrow> ('e, ReconcileResult) act" where
  "failureLoop ops r pod [] = return reconciled"
| "failureLoop ops r pod (f # fs) = do {
     c \<leftarrow> handleFailure ops r pod f;
     case c of Continue \<Rightarrow> failureLoop ops r pod fs | Done res \<Rightarrow> return res
   }"

section \<open>Reconcile\<close>

definition IgnoreNotFound :: "err \<Rightarrow> err option" where
  "IgnoreNotFound e = (if ekind e = KNotFound then None else Some e)"

definition Reconcile :: "'e env_ops \<Rightarrow> 'e PodReconciler \<Rightarrow> string \<Rightarrow> string \<Rightarrow> ('e, ReconcileResult) act" where
  "Reconcile ops r namespace name =
     (if \<not> Enabled (pr_Config r) then return reconciled
      else if IsDenied (pr_Config r) namespace then return reconciled
      else do {
        p \<leftarrow> ext (get_Pod ops namespace name);
        case p of
          Inl e \<Rightarrow> return \<lparr>RequeueAfter = 0, res_Err = IgnoreNotFound e\<rparr>
        | Inr pod \<Rightarrow> do {
            optedIn \<leftarrow> namespaceOptedIn ops (pod_Namespace pod);
            if \<not> optedIn then return reconciled
            else do {
              enabled \<leftarrow> isAutoSalvageEnabled ops pod;
              if \<not> enabled then return reconciled
              else failureLoop ops r pod (Detect pod)
            }
          }
      })"

text \<open>The manager's field indexer and controller builder; the records are indexed by their digest.\<close>

record mgr_ops =
  mg_IndexField :: "string \<Rightarrow> (SalvageRecord \<Rightarrow> string list) \<Rightarrow> unit result"
  mg_Complete :: "unit result"

definition digestIndex :: "SalvageRecord \<Rightarrow> string list" where
  "digestIndex rc = [Digest (rec_Spec rc)]"

definition SetupWithManager :: "mgr_ops \<Rightarrow> unit result" where
  "SetupWithManager mgr =
     (case mg_IndexField mgr ''spec.digest'' digestIndex of
        Inl e \<Rightarrow> Inl e
      | Inr _ \<Rightarrow> mg_Complete mgr)"

section \<open>Effects of a reconciliation\<close>

lemma rel_control:
  "(c = Continue \<Longrightarrow> rel_act R m) \<Longrightarrow> (\<And>x. c = Done x \<Longrightarrow> rel_act R (g x)) \<Longrightarrow>
   rel_act R (case c of Continue \<Rightarrow> m | Done x \<Rightarrow> g x)"
  by (cases c) simp_all

lemma rel_resolved:
  "(\<And>d ns. c = Digest_on d ns \<Longrightarrow> rel_act R (f d ns)) \<Longrightarrow> (c = Not_resolved \<Longrightarrow> rel_act R m) \<Longrightarrow>
   (\<And>e. c = Resolve_error e \<Longrightarrow> rel_act R (g e)) \<Longrightarrow>
   rel_act R (case c of Digest_on d ns \<Rightarrow> f d ns | Not_resolved \<Rightarrow> m | Resolve_error e \<Rightarrow> g e)"
  by (cases c) simp_all

text \<open>A digest that already has a completed record in the namespace, whatever the state of the cluster.\<close>

definition recorded :: "'e env_ops \<Rightarrow> string \<Rightarrow> string \<Rightarrow> bool" where
  "recorded ops ns d \<longleftrightarrow>
     (\<forall>e. \<exists>items. fst (list_SalvageRecords ops (Some (ns, d)) e) = Inr items
        \<and> (\<exists>i \<in> set items. Phase (rec_Status i) = ''Completed''))"

text \<open>What handling the failures of a pod may do to the outside.\<close>

definition pod_effect :: "'e env_ops \<Rightarrow> Pod \<Rightarrow> effect \<Rightarrow> bool" where
  "pod_effect ops pod x \<longleftrightarrow> for_pod pod x
     \<or> (\<exists>d sn. \<not> recorded ops (pod_Namespace pod) d \<and> sn \<noteq> '''' \<and> sn \<noteq> pod_NodeName pod \<and> pod_NodeName pod \<noteq> ''''
          \<and> salvage_effect pod d sn x)
     \<or> (\<exists>ep q. x = AgentCall ep (CallResolveTag q)) \<or> (\<exists>ep q. x = AgentCall ep (CallRemoveImage q))
     \<or> (x = PodDelete (pod_Namespace pod) (pod_Name pod) \<and> pod_OwnerReferences pod \<noteq> [])"

lemma pod_effectI:
  "for_pod pod x \<Longrightarrow> pod_effect ops pod x"
  "pod_effect ops pod (AgentCall ep (CallResolveTag q))"
  "pod_effect ops pod (AgentCall ep (CallRemoveImage q'))"
  by (simp_all add: pod_effect_def)

lemmas Emit_pod_effect = Emit_for_pod[THEN emits_only_mono, OF pod_effectI(1)]
  Notify_for_pod[THEN emits_only_mono, OF _ _ pod_effectI(1)]

lemma recreate_pod_effect: "rel_act (emits_only (pod_effect ops pod)) (recreate ops' pod)"
  unfolding recreate_def deletePod_def
  by (intro em.rel_rules rel_intros emits_only_emit) (simp_all add: pod_effect_def)

lemma resolveLoop_effect: "rel_act (emits_only (pod_effect ops pod)) (resolveLoop ops' r img ps)"
proof (induction ps)
  case Nil
  show ?case by (simp add: em.rel_return)
next
  case (Cons p ps)
  then show ?case
    unfolding resolveLoop.simps resolveTagFromAgent_def
    by (intro em.rel_rules rel_intros emits_only_emit pod_effectI)
qed

lemma ResolveTagViaAgents_effect: "rel_act (emits_only (pod_effect ops pod)) (ResolveTagViaAgents ops' r img)"
  unfolding ResolveTagViaAgents_def by (intro em.rel_rules rel_intros resolveLoop_effect)

lemma handleCorrupt_effect: "rel_act (emits_only (pod_effect ops pod)) (handleCorrupt ops' r pod f)"
  unfolding handleCorrupt_def RemoveImageOnNode_def
  by (intro em.rel_rules rel_intros emits_only_emit Emit_pod_effect recreate_pod_effect pod_effectI)

lemma resolveImage_effect: "rel_act (emits_only (pod_effect ops pod)) (resolveImage ops' r pod img)"
  unfolding resolveImage_def resolveTagged_def askAgents_def askRegistry_def
  by (intro em.rel_rules rel_intros emits_only_emit Emit_pod_effect ResolveTagViaAgents_effect)

lemma pickSource_sound: "pickSource ns t \<noteq> '''' \<Longrightarrow> pickSource ns t \<in> set ns \<and> pickSource ns t \<noteq> t"
  by (induction ns) (auto split: if_splits)

lemma pickSource_found: "n \<in> set ns \<Longrightarrow> n \<noteq> t \<Longrightarrow> '''' \<notin> set ns \<Longrightarrow> pickSource ns t \<noteq> ''''"
  by (induction ns) auto

lemma hasSalvageRecord_recorded:
  assumes "recorded ops ns d" and "run_state (hasSalvageRecord ops ns d) w = (b, w')"
  shows b
proof -
  obtain items e' where "list_SalvageRecords ops (Some (ns, d)) (env w) = (Inr items, e')"
    and "\<exists>i \<in> set items. Phase (rec_Status i) = ''Completed''"
    using assms(1) unfolding recorded_def by (metis prod.collapse)
  with assms(2) show b by (auto simp: hasSalvageRecord_def list_ex_iff)
qed

lemma hasSalvageRecord_rel [rel_intros]:
  "rel_act (emits_only P) (hasSalvageRecord ops ns d)" "rel_act (keeps semaphore) (hasSalvageRecord ops ns d)"
  "rel_act (keeps metrics) (hasSalvageRecord ops ns d)" "rel_act (keeps sessions) (hasSalvageRecord ops ns d)"
  unfolding hasSalvageRecord_def by (intro act_rules rel_intros)+

lemma salvageFrom_effect: "rel_act (emits_only (pod_effect ops pod)) (salvageFrom ops r pod img digest nodes)"
proof -
  let ?sn = "pickSource nodes (pod_NodeName pod)"
  have S: "rel_act (emits_only (pod_effect ops pod)) (Salvage ops orch pod digest img ?sn)"
    if "\<not> recorded ops (pod_Namespace pod) digest" "?sn \<noteq> ''''" "pod_NodeName pod \<noteq> ''''" for orch
    by (rule emits_only_mono[OF Salvage_effect]) (use that pickSource_sound in \<open>auto simp: pod_effect_def\<close>)
  show ?thesis
    unfolding salvageFrom_def
    by (intro rel_option rel_if em.rel_return em.rel_bind_val[of _ "hasSalvageRecord _ _ _"] em.rel_bind rel_intros S)
       (auto dest: hasSalvageRecord_recorded)
qed

lemma handleFailure_effect: "rel_act (emits_only (pod_effect ops pod)) (handleFailure ops r pod f)"
  unfolding handleFailure_def handlePullFailure_def
  by (intro em.rel_rules rel_intros rel_resolved Emit_pod_effect handleCorrupt_effect resolveImage_effect salvageFrom_effect)
     simp_all

lemma failureLoop_effect: "rel_act (emits_only (pod_effect ops pod)) (failureLoop ops r pod fs)"
proof (induction fs)
  case Nil
  show ?case by (simp add: em.rel_return)
next
  case (Cons f fs)
  then show ?case
    unfolding failureLoop.simps by (intro em.rel_rules rel_control handleFailure_effect)
qed

section \<open>Consent\<close>

text \<open>Everything in the world except the state of the outside.\<close>

definition inside :: "'e world \<Rightarrow> Counters \<times> Store \<times> nat \<times> effect list" where
  "inside w = (metrics w, sessions w, semaphore w, trace w)"

lemma keeps_inside_ext [rel_intros]: "rel_act (keeps inside) (ext f)"
  by (simp add: rel_act_def keeps_def inside_def split: prod.splits)

lemma namespaceOptedIn_inside: "rel_act (keeps inside) (namespaceOptedIn ops ns)"
  unfolding namespaceOptedIn_def by (intro kp.rel_rules rel_intros)

lemma parentLoop_inside: "rel_act (keeps inside) (parentLoop ops ns refs)"
proof (induction refs)
  case (Cons ref refs)
  then show ?case unfolding parentLoop.simps by (intro kp.rel_rules rel_intros)
qed (simp add: kp.rel_return)

lemma ownerLoop_inside: "rel_act (keeps inside) (ownerLoop ops ns refs)"
proof (induction refs)
  case (Cons ref refs)
  then show ?case unfolding ownerLoop.simps by (intro kp.rel_rules rel_intros parentLoop_inside)
qed (simp add: kp.rel_return)

lemma isAutoSalvageEnabled_inside: "rel_act (keeps inside) (isAutoSalvageEnabled ops pod)"
  unfolding isAutoSalvageEnabled_def by (intro kp.rel_rules ownerLoop_inside)

lemma inside_run: "rel_act (keeps inside) m \<Longrightarrow> run_state m w = (x, w') \<Longrightarrow> inside w' = inside w"
  by (drule rel_actD) (simp_all add: keeps_def)

text \<open>Consent given through the owners, over fixed answers of the API server.\<close>

definition consenting_parent :: "(string \<Rightarrow> string \<Rightarrow> ObjectMeta result) \<Rightarrow> OwnerReference \<Rightarrow> bool" where
  "consenting_parent own ref \<longleftrightarrow> owner_Kind ref = ''Deployment'' \<and>
     (\<exists>m. own ''Deployment'' (owner_Name ref) = Inr m \<and> autoSalvage m)"

definition consenting_owner :: "(string \<Rightarrow> string \<Rightarrow> ObjectMeta result) \<Rightarrow> OwnerReference \<Rightarrow> bool" where
  "consenting_owner own ref \<longleftrightarrow>
     owner_Kind ref \<in> {''ReplicaSet'', ''StatefulSet'', ''DaemonSet'', ''Job''} \<and>
     (\<exists>m. own (owner_Kind ref) (owner_Name ref) = Inr m \<and>
        (autoSalvage m \<or> owner_Kind ref = ''ReplicaSet'' \<and> (\<exists>p \<in> set (meta_OwnerReferences m). consenting_parent own p)))"

lemma parentLoop_exact:
  assumes "\<And>k n e. get_Owner ops k ns n e = (own k n, e)"
  shows "run_state (parentLoop ops ns refs) w = ((\<exists>p \<in> set refs. consenting_parent own p), w)"
  by (induction refs) (auto simp: assms consenting_parent_def split: sum.splits)

lemma ownerLoop_exact:
  assumes "\<And>k n e. get_Owner ops k ns n e = (own k n, e)"
  shows "run_state (ownerLoop ops ns refs) w = ((\<exists>p \<in> set refs. consenting_owner own p), w)"
  by (induction refs)
     (auto simp: assms parentLoop_exact[OF assms] consenting_owner_def split: sum.splits)

lemma inside_silent: "rel_act (keeps inside) m \<Longrightarrow> rel_act (emits_only P) m"
  by (auto simp: rel_act_def keeps_def inside_def emits_only_def)

lemmas isAutoSalvageEnabled_silent = isAutoSalvageEnabled_inside[THEN inside_silent]

section \<open>Reconcile step by step\<close>

lemma Reconcile_cases:
  assumes run: "run_state (Reconcile ops r ns name) w = (res, w')"
  obtains (idle) "inside w' = inside w"
  | (acting) pod e1 m e2 w3 where
      "Enabled (pr_Config r)" "\<not> IsDenied (pr_Config r) ns"
      "get_Pod ops ns name (env w) = (Inr pod, e1)"
      "get_Namespace ops (pod_Namespace pod) e1 = (Inr m, e2)"
      "go_lookup (meta_Annotations m) AnnotationNamespaceAllow = ''true''"
      "run_state (isAutoSalvageEnabled ops pod) (w\<lparr>env := e2\<rparr>) = (True, w3)"
      "inside w3 = inside w"
      "run_state (failureLoop ops r pod (Detect pod)) w3 = (res, w')"
proof (cases "Enabled (pr_Config r) \<and> \<not> IsDenied (pr_Config r) ns")
  case False
  then show thesis using run by (intro idle) (auto simp: Reconcile_def split: if_splits)
next
  case True
  obtain p e1 where p: "get_Pod ops ns name (env w) = (p, e1)" by fastforce
  show thesis
  proof (cases p)
    case (Inl e)
    then show thesis using run True p by (intro idle) (auto simp: Reconcile_def inside_def)
  next
    case (Inr pod)
    obtain q e2 where q: "get_Namespace ops (pod_Namespace pod) e1 = (q, e2)" by fastforce
    obtain b w3 where b: "run_state (isAutoSalvageEnabled ops pod) (w\<lparr>env := e2\<rparr>) = (b, w3)" by fastforce
    have w3: "inside w3 = inside w"
      using inside_run[OF isAutoSalvageEnabled_inside b] by (simp add: inside_def)
    show thesis
    proof (cases "(\<exists>m. q = Inr m \<and> go_lookup (meta_Annotations m) AnnotationNamespaceAllow = ''true'') \<and> b")
      case False
      then have "inside w' = inside w"
        using run True p Inr q b w3
        by (auto simp: Reconcile_def namespaceOptedIn_def inside_def split: sum.splits if_splits)
      then show thesis by (rule idle)
    next
      case consent: True
      then obtain m where m: "q = Inr m" "go_lookup (meta_Annotations m) AnnotationNamespaceAllow = ''true''" b by blast
      have "run_state (failureLoop ops r pod (Detect pod)) w3 = (res, w')"
        using run True p Inr q b m by (auto simp: Reconcile_def namespaceOptedIn_def)
      with True p Inr q b m w3 show thesis by (intro acting) auto
    qed
  qed
qed

lemma failureLoop_semaphore: "rel_act (keeps semaphore) (failureLoop ops r pod fs)"
proof (induction fs)
  case (Cons f fs)
  have "rel_act (keeps semaphore) (resolveLoop ops ar img ps)" for ar img ps
  proof (induction ps)
    case (Cons p ps)
    then show ?case unfolding resolveLoop.simps resolveTagFromAgent_def by (intro kp.rel_rules rel_intros)
  qed (simp add: kp.rel_return)
  with Cons show ?case
    unfolding failureLoop.simps handleFailure_def handleCorrupt_def handlePullFailure_def resolveImage_def resolveTagged_def
      askAgents_def askRegistry_def salvageFrom_def ResolveTagViaAgents_def RemoveImageOnNode_def EndpointForNode_def
      recreate_def deletePod_def emitter_defs
    by (intro kp.rel_rules rel_intros rel_control rel_resolved)
qed (simp add: kp.rel_return)

text \<open>
  The situation the operator exists for: consent is given, the only failure of the pod is a failed
  pull of a digest-pinned image, another node holds that digest, and no completed record exists.
\<close>

definition salvageable_case ::
  "'e env_ops \<Rightarrow> 'e PodReconciler \<Rightarrow> Orchestrator \<Rightarrow> string \<Rightarrow> string \<Rightarrow> Pod \<Rightarrow> Failure \<Rightarrow> Node list \<Rightarrow> bool" where
  "salvageable_case ops r orch ns name pod f items \<longleftrightarrow>
     Enabled (pr_Config r) \<and> \<not> IsDenied (pr_Config r) ns \<and> pr_Orchestrator r = Some orch
     \<and> (\<forall>e. fst (get_Pod ops ns name e) = Inr pod)
     \<and> (\<forall>e. \<exists>m. fst (get_Namespace ops (pod_Namespace pod) e) = Inr m
          \<and> go_lookup (meta_Annotations m) AnnotationNamespaceAllow = ''true'')
     \<and> autoSalvage (pod_Meta pod) \<and> pod_NodeName pod \<noteq> ''''
     \<and> Detect pod = [f] \<and> \<not> fail_CorruptImage f \<and> res_Actionable (Resolve (fail_Image f))
     \<and> (\<forall>e. fst (list_Nodes ops e) = Inr items)
     \<and> (\<exists>n \<in> set items. nodeHasDigest n (res_Digest (Resolve (fail_Image f))) \<and> node_Name n \<noteq> pod_NodeName pod)
     \<and> (\<forall>n \<in> set items. node_Name n \<noteq> '''')
     \<and> (\<forall>e. \<exists>rs. fst (list_SalvageRecords ops (Some (pod_Namespace pod, res_Digest (Resolve (fail_Image f)))) e) = Inr rs
          \<and> (\<forall>i \<in> set rs. Phase (rec_Status i) \<noteq> ''Completed''))"

lemma handleFailure_reaches_salvage:
  assumes c: "salvageable_case ops r orch ns name pod f items"
  shows "\<exists>w1 sn. sn \<noteq> pod_NodeName pod
     \<and> (\<exists>n \<in> set items. node_Name n = sn \<and> nodeHasDigest n (res_Digest (Resolve (fail_Image f))))
     \<and> view_of w1 = view_of w
     \<and> run_state (handleFailure ops r pod f) w =
         run_state (do { s \<leftarrow> Salvage ops orch pod (res_Digest (Resolve (fail_Image f))) (fail_Image f) sn;
           return (case s of
               Inl e \<Rightarrow> if isTransientError e then Done \<lparr>RequeueAfter = 30 * Second, res_Err = None\<rparr> else Continue
             | Inr _ \<Rightarrow> Continue) }) w1"
proof -
  let ?d = "res_Digest (Resolve (fail_Image f))"
  let ?ns = "map node_Name (filter (\<lambda>n. nodeHasDigest n ?d) items)"
  let ?sn = "pickSource ?ns (pod_NodeName pod)"
  from c obtain n where n: "n \<in> set items" "nodeHasDigest n ?d" "node_Name n \<noteq> pod_NodeName pod"
    "\<forall>n \<in> set items. node_Name n \<noteq> ''''"
    unfolding salvageable_case_def by blast
  then have ne: "?sn \<noteq> ''''" by (intro pickSource_found[of "node_Name n" ?ns]) auto
  from pickSource_sound[OF ne] have sn: "?sn \<noteq> pod_NodeName pod"
    "\<exists>n \<in> set items. node_Name n = ?sn \<and> nodeHasDigest n ?d" by auto
  let ?evt = "empty_event\<lparr>ne_Type := ''detected'', ne_PodName := pod_Name pod, ne_Namespace := pod_Namespace pod,
     ne_ImageRef := fail_Image f\<rparr>"
  let ?w0 = "w\<lparr>metrics := RecordDetected (metrics w)\<rparr>"
  obtain n1 wa where wa: "run_state (Notify ops (pr_Notifier r) ?evt) ?w0 = (n1, wa)" by fastforce
  have "view_of ?w0 = view_of w" by (simp add: view_of_def record_metric_defs)
  with wa have va: "view_of wa = view_of w" by (auto dest!: quiet_runs)
  obtain e1 where e1: "list_Nodes ops (env wa) = (Inr items, e1)"
    using c unfolding salvageable_case_def by (metis prod.collapse)
  let ?wb = "wa\<lparr>env := e1, metrics := RecordSalvageable (metrics wa)\<rparr>"
  obtain u wc where wc: "run_state (EmitSalvageable pod (fail_Image f) ?ns) ?wb = (u, wc)" by (rule prod.exhaust)
  have "view_of ?wb = view_of wa" by (simp add: view_of_def record_metric_defs)
  with wc va have vc: "view_of wc = view_of w" by (auto dest!: quiet_runs)
  obtain rs e2 where rs: "list_SalvageRecords ops (Some (pod_Namespace pod, ?d)) (env wc) = (Inr rs, e2)"
    "\<forall>i \<in> set rs. Phase (rec_Status i) \<noteq> ''Completed''"
    using c unfolding salvageable_case_def by (metis prod.collapse)
  have known: "run_state (hasSalvageRecord ops (pod_Namespace pod) ?d) wc = (False, wc\<lparr>env := e2\<rparr>)"
    using rs by (auto simp: hasSalvageRecord_def list_ex_iff)
  have ns: "?ns \<noteq> []" using sn(2) by (auto simp: filter_empty_conv)
  have "run_state (handleFailure ops r pod f) w = run_state (salvageFrom ops r pod (fail_Image f) ?d ?ns) wc"
    using c wa e1 wc ns
    by (simp add: salvageable_case_def handleFailure_def handlePullFailure_def resolveImage_def FindNodes_def findNodes_loop_eq Let_def)
  also have "\<dots> = run_state (do { s \<leftarrow> Salvage ops orch pod ?d (fail_Image f) ?sn;
           return (case s of
               Inl e \<Rightarrow> if isTransientError e then Done \<lparr>RequeueAfter = 30 * Second, res_Err = None\<rparr> else Continue
             | Inr _ \<Rightarrow> Continue) }) (wc\<lparr>env := e2\<rparr>)"
    using c known ne by (simp add: salvageable_case_def salvageFrom_def)
  finally show ?thesis using sn vc by (intro exI[of _ "wc\<lparr>env := e2\<rparr>"] exI[of _ ?sn]) simp
qed

lemma Reconcile_reaches_salvage:
  assumes c: "salvageable_case ops r orch ns name pod f items"
  shows "\<exists>w1 sn. sn \<noteq> pod_NodeName pod
     \<and> (\<exists>n \<in> set items. node_Name n = sn \<and> nodeHasDigest n (res_Digest (Resolve (fail_Image f))))
     \<and> view_of w1 = view_of w
     \<and> run_state (Reconcile ops r ns name) w =
         run_state (do { s \<leftarrow> Salvage ops orch pod (res_Digest (Resolve (fail_Image f))) (fail_Image f) sn;
           return (case s of
               Inl e \<Rightarrow> if isTransientError e then \<lparr>RequeueAfter = 30 * Second, res_Err = None\<rparr> else reconciled
             | Inr _ \<Rightarrow> reconciled) }) w1"
proof -
  obtain e1 where p: "get_Pod ops ns name (env w) = (Inr pod, e1)"
    using c unfolding salvageable_case_def by (metis prod.collapse)
  obtain m e2 where m: "get_Namespace ops (pod_Namespace pod) e1 = (Inr m, e2)"
    "go_lookup (meta_Annotations m) AnnotationNamespaceAllow = ''true''"
    using c unfolding salvageable_case_def by (metis prod.collapse)
  have "run_state (Reconcile ops r ns name) w =
      run_state (failureLoop ops r pod [f]) (w\<lparr>env := e2\<rparr>)"
    using c p m by (simp add: salvageable_case_def Reconcile_def namespaceOptedIn_def isAutoSalvageEnabled_def)
  moreover obtain w1 sn where "sn \<noteq> pod_NodeName pod"
    "\<exists>n \<in> set items. node_Name n = sn \<and> nodeHasDigest n (res_Digest (Resolve (fail_Image f)))" "view_of w1 = view_of w"
    and h: "run_state (handleFailure ops r pod f) (w\<lparr>env := e2\<rparr>) =
         run_state (do { s \<leftarrow> Salvage ops orch pod (res_Digest (Resolve (fail_Image f))) (fail_Image f) sn;
           return (case s of
               Inl e \<Rightarrow> if isTransientError e then Done \<lparr>RequeueAfter = 30 * Second, res_Err = None\<rparr> else Continue
             | Inr _ \<Rightarrow> Continue) }) w1"
    using handleFailure_reaches_salvage[OF c, of "w\<lparr>env := e2\<rparr>"] by auto
  moreover have "run_state (failureLoop ops r pod [f]) (w\<lparr>env := e2\<rparr>) =
      run_state (do { s \<leftarrow> Salvage ops orch pod (res_Digest (Resolve (fail_Image f))) (fail_Image f) sn;
           return (case s of
               Inl e \<Rightarrow> if isTransientError e then \<lparr>RequeueAfter = 30 * Second, res_Err = None\<rparr> else reconciled
             | Inr _ \<Rightarrow> reconciled) }) w1"
    by (simp add: h split: prod.splits sum.splits)
  ultimately show ?thesis by metis
qed

lemma Reconcile_attempts:
  assumes "salvageable_case ops r orch ns name pod f items"
  shows "SalvageAttempts (metrics (snd (run_state (Reconcile ops r ns name) w))) = Suc (SalvageAttempts (metrics w))"
proof -
  let ?d = "res_Digest (Resolve (fail_Image f))"
  from Reconcile_reaches_salvage[OF assms, of w] obtain w1 sn where v: "view_of w1 = view_of w"
    and run: "run_state (Reconcile ops r ns name) w =
         run_state (do { s \<leftarrow> Salvage ops orch pod ?d (fail_Image f) sn;
           return (case s of
               Inl e \<Rightarrow> if isTransientError e then \<lparr>RequeueAfter = 30 * Second, res_Err = None\<rparr> else reconciled
             | Inr _ \<Rightarrow> reconciled) }) w1" by auto
  obtain s w2 where s: "run_state (Salvage ops orch pod ?d (fail_Image f) sn) w1 = (s, w2)" by fastforce
  have eq: "snd (run_state (Reconcile ops r ns name) w) = w2" using run s by simp
  from Salvage_view[OF s] have "v_attempts (view_of w2) = Suc (SalvageAttempts (metrics w1))"
    by (auto split: if_splits)
  with v eq s show ?thesis by (simp add: view_of_def)
qed

section \<open>Counting failures\<close>

text \<open>The number of failures detected, and of those sorted as corrupt, salvageable or not actionable.\<close>

definition tri_of :: "Counters \<Rightarrow> nat \<times> nat" where
  "tri_of c = (DetectedFailures c, CorruptImages c + SalvageableImages c + NotActionable c)"

definition triage :: "'e world \<Rightarrow> nat \<times> nat" where
  "triage w = tri_of (metrics w)"

definition sorted_one :: "nat \<times> nat \<Rightarrow> nat \<times> nat" where
  "sorted_one t = (fst t, Suc (snd t))"

definition untriaged :: "(Counters \<Rightarrow> Counters) \<Rightarrow> bool" where
  "untriaged f \<longleftrightarrow> (\<forall>c. DetectedFailures (f c) = DetectedFailures c \<and> CorruptImages (f c) = CorruptImages c
     \<and> SalvageableImages (f c) = SalvageableImages c \<and> NotActionable (f c) = NotActionable c)"

lemma untriaged_meters [simp]:
  "untriaged RecordSalvageAttempt" "untriaged RecordSalvageSuccess" "untriaged RecordSalvageFailure"
  "untriaged RecordPushAttempt" "untriaged RecordPushSuccess" "untriaged RecordPushFailure"
  "untriaged (RecordSalvageDuration d)" "untriaged (RecordPushDuration d)"
  "untriaged (RecordRegistryResolve res)" "untriaged (RecordRegistryResolveDuration d)"
  by (simp_all add: untriaged_def record_metric_defs)

lemma keeps_triage_prims [rel_intros]:
  "rel_act (keeps triage) (ext f)" "rel_act (keeps triage) (emit x)" "rel_act (keeps triage) (on_sessions g)"
  "rel_act (keeps triage) (on_semaphore h)" "untriaged m \<Longrightarrow> rel_act (keeps triage) (meter m)"
  by (auto simp: rel_act_def keeps_def triage_def tri_of_def untriaged_def split: prod.splits)

lemma telemetry_triage [rel_intros]:
  "rel_act (keeps triage) (Notify ops notifier evt)" "rel_act (keeps triage) (Eventf pod ty reason action note)"
  unfolding Notify_def Eventf_def by (intro kp.rel_rules rel_intros)+

lemma calls_triage [rel_intros]:
  "rel_act (keeps triage) (EndpointForNode ops rs nodeName)"
  "rel_act (keeps triage) (RemoveImageOnNode ops rs nodeName img)"
  "rel_act (keeps triage) (recreate ops pod)"
  "rel_act (keeps triage) (resolveLoop ops rs img ps)"
proof -
  show "rel_act (keeps triage) (resolveLoop ops rs img ps)"
  proof (induction ps)
    case (Cons p ps)
    then show ?case unfolding resolveLoop.simps resolveTagFromAgent_def by (intro kp.rel_rules rel_intros)
  qed (simp add: kp.rel_return)
qed (unfold RemoveImageOnNode_def EndpointForNode_def recreate_def deletePod_def, (intro kp.rel_rules rel_intros)+)

lemma fail_salvage_triage [rel_intros]: "rel_act (keeps triage) (fail_salvage ops orch pod d reason)"
  unfolding fail_salvage_def EmitSalvageFailed_def by (intro kp.rel_rules rel_intros) simp_all

lemma backup_triage [rel_intros]: "rel_act (keeps triage) (backup ops orch pod d img ep sn)"
  unfolding backup_def pushToBackupRegistry_def loadRegistryCredentials_def pushImage_def push_failure_def
    push_success_def EmitPushed_def EmitPushFailed_def
  by (intro kp.rel_rules rel_intros) simp_all

lemma salvaged_triage [rel_intros]: "rel_act (keeps triage) (salvaged ops orch pod d img sn tn ep start)"
  unfolding salvaged_def createSalvageRecord_def EmitSalvaged_def by (intro kp.rel_rules rel_intros) simp_all

lemma Salvage_triage [rel_intros]: "rel_act (keeps triage) (Salvage ops orch pod d img sn)"
  unfolding Salvage_def salvageLocked_def salvageSession_def salvageImport_def prepareExport_def importFrom_def
  by (intro kp.rel_rules rel_intros) simp_all

lemma FindNodes_triage [rel_intros]:
  "rel_act (keeps triage) (FindNodes ops d)" "rel_act (keeps triage) (FindNodesByTag ops img)"
  "rel_act (keeps triage) (hasSalvageRecord ops ns d)" "rel_act (keeps triage) (askAgents ops r img found)"
  unfolding FindNodes_def FindNodesByTag_def hasSalvageRecord_def askAgents_def ResolveTagViaAgents_def
  by (intro kp.rel_rules rel_intros)+

lemma salvageFrom_triage [rel_intros]: "rel_act (keeps triage) (salvageFrom ops r pod img d ns)"
  unfolding salvageFrom_def by (intro kp.rel_rules rel_intros)

lemma triage_run: "rel_act (keeps triage) m \<Longrightarrow> run_state m w = (x, w') \<Longrightarrow> triage w' = triage w"
  by (drule rel_actD) (simp_all add: keeps_def)

lemmas triage_runs = calls_triage[THEN triage_run] FindNodes_triage[THEN triage_run] telemetry_triage[THEN triage_run]
  salvageFrom_triage[THEN triage_run]

lemma tri_of_meters [simp]:
  "tri_of (RecordCorruptImage c) = sorted_one (tri_of c)" "tri_of (RecordSalvageable c) = sorted_one (tri_of c)"
  "tri_of (RecordNotActionable c) = sorted_one (tri_of c)"
  "tri_of (RecordDetected c) = (Suc (fst (tri_of c)), snd (tri_of c))"
  "tri_of (RecordRegistryResolve res c) = tri_of c" "tri_of (RecordRegistryResolveDuration d c) = tri_of c"
  by (simp_all add: tri_of_def sorted_one_def record_metric_defs)

lemma triage_updates [simp]:
  "triage (w\<lparr>env := e\<rparr>) = triage w" "triage (w\<lparr>trace := t\<rparr>) = triage w"
  "triage (w\<lparr>metrics := m\<rparr>) = tri_of m" "tri_of (metrics w) = triage w"
  by (simp_all add: triage_def)

lemma askRegistry_triage:
  assumes "run_state (askRegistry ops r pod img found) w = (x, w')"
  shows "triage w' = (if x = None then sorted_one (triage w) else triage w)"
  using assms
  by (auto simp: askRegistry_def EmitResolvedButUncached_def Eventf_def
      split: prod.splits option.splits if_splits sum.splits dest!: triage_runs)

lemma resolveImage_triage:
  assumes "run_state (resolveImage ops r pod img) w = (x, w')"
  shows "triage w' = (if x = Not_resolved then sorted_one (triage w) else triage w)"
  using assms
  by (auto simp: resolveImage_def resolveTagged_def EmitNotActionable_def Eventf_def Let_def
      split: prod.splits option.splits if_splits sum.splits dest!: triage_runs askRegistry_triage)

lemma handleCorrupt_triage:
  assumes "run_state (handleCorrupt ops r pod f) w = (x, w')"
  shows "triage w' = sorted_one (triage w)"
  using assms
  by (auto simp: handleCorrupt_def EmitCorruptImage_def Eventf_def
      split: prod.splits option.splits if_splits sum.splits dest!: triage_runs)

lemma handlePullFailure_triage:
  assumes "run_state (handlePullFailure ops r pod img) w = (x, w')"
  shows "triage w' = triage w \<or> triage w' = sorted_one (triage w)"
  using assms
  by (auto simp: handlePullFailure_def EmitSalvageable_def Eventf_def
      split: prod.splits resolved.splits if_splits dest!: triage_runs resolveImage_triage)

lemma handleFailure_triage:
  assumes "run_state (handleFailure ops r pod f) w = (x, w')"
  shows "fst (triage w') = Suc (fst (triage w)) \<and> snd (triage w) \<le> snd (triage w') \<and> snd (triage w') \<le> Suc (snd (triage w))"
proof -
  let ?evt = "empty_event\<lparr>ne_Type := ''detected'', ne_PodName := pod_Name pod, ne_Namespace := pod_Namespace pod,
     ne_ImageRef := fail_Image f\<rparr>"
  obtain n w1 where w1: "run_state (Notify ops (pr_Notifier r) ?evt) (w\<lparr>metrics := RecordDetected (metrics w)\<rparr>) = (n, w1)"
    by fastforce
  then have t1: "triage w1 = (Suc (fst (triage w)), snd (triage w))" by (auto dest!: triage_runs)
  have "run_state (if fail_CorruptImage f then handleCorrupt ops r pod f else handlePullFailure ops r pod (fail_Image f)) w1 = (x, w')"
    using assms w1 by (simp add: handleFailure_def)
  then have "triage w' = triage w1 \<or> triage w' = sorted_one (triage w1)"
    by (cases "fail_CorruptImage f") (auto dest: handleCorrupt_triage handlePullFailure_triage)
  with t1 show ?thesis by (auto simp: sorted_one_def)
qed

lemma failureLoop_triage:
  assumes "run_state (failureLoop ops r pod fs) w = (res, w')"
  shows "\<exists>k \<le> length fs. fst (triage w') = fst (triage w) + k \<and> (res = reconciled \<or> 0 < k)
     \<and> snd (triage w) \<le> snd (triage w') \<and> snd (triage w') \<le> snd (triage w) + k"
  using assms
proof (induction fs arbitrary: w)
  case (Cons f fs)
  obtain c w1 where c: "run_state (handleFailure ops r pod f) w = (c, w1)" by fastforce
  note t = handleFailure_triage[OF c]
  show ?case
  proof (cases c)
    case Continue
    with Cons.prems c have "run_state (failureLoop ops r pod fs) w1 = (res, w')" by simp
    from Cons.IH[OF this] obtain k where "k \<le> length fs" "fst (triage w') = fst (triage w1) + k"
      "snd (triage w1) \<le> snd (triage w')" "snd (triage w') \<le> snd (triage w1) + k" by blast
    with t show ?thesis by (intro exI[of _ "Suc k"]) auto
  next
    case (Done x)
    with Cons.prems c have "w' = w1" by simp
    with t show ?thesis by (intro exI[of _ 1]) auto
  qed
qed simp

section \<open>An example\<close>

definition failing_container :: Container where
  "failing_container = \<lparr>ctr_Name = ''web'', ctr_Image = ''app@'' @ example_digest CHR ''a'', ctr_Command = None, ctr_Args = None,
     ctr_Env = None, ctr_EnvFrom = None, ctr_VolumeMounts = None, ctr_Ports = None, ctr_Resources = None,
     ctr_LivenessProbe = None, ctr_ReadinessProbe = None, ctr_StartupProbe = None, ctr_SecurityContext = None,
     ctr_ImagePullPolicy = None, ctr_TerminationMessagePath = None, ctr_TerminationMessagePolicy = None\<rparr>"

definition waiting_status :: ContainerStatus where
  "waiting_status = \<lparr>cs_Name = ''web'', cs_Waiting = Some \<lparr>waiting_Reason = ''ImagePullBackOff'', waiting_Message = ''''\<rparr>,
     cs_Running = None, cs_Terminated = None, cs_Ready = False, cs_RestartCount = 0, cs_ContainerID = '''',
     cs_Started = None, cs_LastTerminationState = None\<rparr>"

definition failing_pod :: Pod where
  "failing_pod = owned_pod\<lparr>pod_Meta := (pod_Meta owned_pod)\<lparr>meta_Annotations := [AnnotationPodAutoSalvage \<mapsto> ''true'']\<rparr>,
     pod_Containers := [failing_container], pod_ContainerStatuses := [waiting_status]\<rparr>"

definition pull_failure :: Failure where
  "pull_failure = \<lparr>fail_ContainerName = ''web'', fail_Image = ''app@'' @ example_digest CHR ''a'',
     fail_Reason = ''ImagePullBackOff'', fail_Message = '''', fail_CorruptImage = False\<rparr>"

definition salvage_ops :: "unit env_ops" where
  "salvage_ops = example_cluster\<lparr>get_Pod := (\<lambda>ns n. Pair (Inr failing_pod)),
     get_Namespace := (\<lambda>n. Pair (Inr (blank_meta\<lparr>meta_Annotations := [AnnotationNamespaceAllow \<mapsto> ''true'']\<rparr>))),
     get_Owner := (\<lambda>k ns n. Pair (Inl (errorf ''unavailable''))),
     list_Nodes := Pair (Inr [example_node ''a'' CHR ''a'']),
     list_SalvageRecords := (\<lambda>q. Pair (Inr []))\<rparr>"

definition example_reconciler :: "unit PodReconciler" where
  "example_reconciler = \<lparr>pr_Config = New, pr_Orchestrator = Some example_orchestrator,
     pr_AgentResolver = Some (or_Resolver example_orchestrator), pr_TagResolver = None, pr_Notifier = None\<rparr>"

lemma failing_pod_simps [simp]:
  "pod_Name failing_pod = ''web-1''" "pod_Namespace failing_pod = ''prod''" "pod_NodeName failing_pod = ''b''"
  "autoSalvage (pod_Meta failing_pod)" "pod_OwnerReferences failing_pod \<noteq> []" "Detect failing_pod = [pull_failure]"
  by (simp_all add: failing_pod_def owned_pod_def autoSalvage_def Detect_def detectInStatuses_def waiting_status_def
      specImages_def failing_container_def imagePullFailureReasons_def pull_failure_def blank_pod_def)

lemma Resolve_example: "Resolve (''app@'' @ example_digest CHR ''a'') =
    \<lparr>res_Original = ''app@'' @ example_digest CHR ''a'', res_Digest = example_digest CHR ''a'', res_Actionable = True\<rparr>"
proof -
  have "str_LastIndex (''app'' @ CHR ''@'' # example_digest CHR ''a'') ''@'' = Some (length ''app'')"
    by (rule str_LastIndex_char_append) (simp add: example_digest_def)
  then show ?thesis by (simp add: Resolve_def HasPrefix_def example_digest_def)
qed

lemma salvage_ops_case:
  "salvageable_case salvage_ops example_reconciler example_orchestrator ''prod'' ''web-1'' failing_pod pull_failure
     [example_node ''a'' CHR ''a'']"
proof -
  have "nodeHasDigest (example_node ''a'' CHR ''a'') (example_digest CHR ''a'')"
    by (simp add: nodeHasDigest_def example_node_def HasSuffix_def Let_def suffix_Cons)
  then show ?thesis
    unfolding salvageable_case_def
    by (simp add: salvage_ops_def example_reconciler_def pull_failure_def Resolve_example[simplified])
       (simp add: New_def IsDenied_def DefaultDeniedNamespaces_def example_node_def)
qed

section \<open>Properties\<close>

text \<open>C3: a reconciliation that leaves any trace (a counter, an event, a notification, a call) happens only
  for an enabled operator in a namespace that is not denied, for a pod that exists, whose namespace
  carries the allow annotation, and that itself or through its owners carries the auto-salvage
  annotation, and that has an image failure.\<close>

theorem Reconcile_needs_consent:
  assumes "run_state (Reconcile ops r ns name) w = (res, w')"
    and "metrics w' \<noteq> metrics w \<or> trace w' \<noteq> trace w \<or> sessions w' \<noteq> sessions w \<or> semaphore w' \<noteq> semaphore w"
  shows "Enabled (pr_Config r) \<and> \<not> IsDenied (pr_Config r) ns \<and>
     (\<exists>pod e1 m e2. get_Pod ops ns name (env w) = (Inr pod, e1)
        \<and> get_Namespace ops (pod_Namespace pod) e1 = (Inr m, e2)
        \<and> meta_Annotations m ''tote.dev/allow'' = Some ''true''
        \<and> fst (run_state (isAutoSalvageEnabled ops pod) (w\<lparr>env := e2\<rparr>))
        \<and> Detect pod \<noteq> [])"
  using assms(1)
proof (cases rule: Reconcile_cases)
  case idle
  with assms(2) show ?thesis by (simp add: inside_def)
next
  case (acting pod e1 m e2 w3)
  from acting(8) have "Detect pod = [] \<Longrightarrow> w' = w3" by simp
  with acting(7) assms(2) have "Detect pod \<noteq> []" by (auto simp: inside_def)
  moreover have "meta_Annotations m ''tote.dev/allow'' = Some ''true''"
    using acting(5) by (simp add: go_lookup_eq_iff AnnotationNamespaceAllow_def)
  ultimately show ?thesis using acting by auto
qed

theorem Reconcile_needs_consent_witness:
  "Enabled New \<and> \<not> IsDenied New ''prod'' \<and> Detect failing_pod \<noteq> []"
proof -
  have "SalvageAttempts (metrics (snd (run_state (Reconcile salvage_ops example_reconciler ''prod'' ''web-1'') (init_world ())))) = 1"
    using Reconcile_attempts[OF salvage_ops_case] by (simp add: init_world_def NewCounters_def)
  then have "metrics (snd (run_state (Reconcile salvage_ops example_reconciler ''prod'' ''web-1'') (init_world ()))) \<noteq> metrics (init_world ())"
    by (auto simp: init_world_def NewCounters_def)
  with Reconcile_needs_consent[OF prod.collapse[symmetric], of salvage_ops example_reconciler "''prod''" "''web-1''" "init_world ()"]
  show ?thesis by (auto simp: example_reconciler_def)
qed



text \<open>Auto-salvage is enabled for a pod exactly if the pod carries the annotation, or one of its owners
  of kind ReplicaSet, StatefulSet, DaemonSet or Job does, or the Deployment owning such a ReplicaSet
  does; owners that cannot be read count as not consenting, and asking changes nothing.\<close>

theorem isAutoSalvageEnabled_exact:
  assumes "\<And>k n e. get_Owner ops k (pod_Namespace pod) n e = (own k n, e)"
  shows "run_state (isAutoSalvageEnabled ops pod) w =
     (autoSalvage (pod_Meta pod) \<or> (\<exists>ref \<in> set (pod_OwnerReferences pod). consenting_owner own ref), w)"
  by (simp add: isAutoSalvageEnabled_def ownerLoop_exact[OF assms])

theorem isAutoSalvageEnabled_exact_witness:
  "run_state (isAutoSalvageEnabled salvage_ops failing_pod) (init_world ()) = (True, init_world ())"
  by (subst isAutoSalvageEnabled_exact[where own = "\<lambda>k n. Inl (errorf ''unavailable'')"]) (simp_all add: salvage_ops_def)

text \<open>When all places for salvages are taken, a reconciliation of a salvageable pod makes no call on any
  agent or on the cluster and asks to be run again after 30 seconds, without an error.\<close>

theorem Reconcile_requeues_when_full:
  assumes c: "salvageable_case ops r orch ns name pod f items"
    and full: "or_SemCap orch \<le> semaphore w"
    and run: "run_state (Reconcile ops r ns name) w = (res, w')"
  shows "res = \<lparr>RequeueAfter = 30 * Second, res_Err = None\<rparr> \<and> acts (trace w') = acts (trace w)
     \<and> SalvageFailures (metrics w') = SalvageFailures (metrics w)"
proof -
  let ?d = "res_Digest (Resolve (fail_Image f))"
  from Reconcile_reaches_salvage[OF c, of w] obtain w1 sn where v: "view_of w1 = view_of w"
    and eq: "run_state (Reconcile ops r ns name) w =
         run_state (do { s \<leftarrow> Salvage ops orch pod ?d (fail_Image f) sn;
           return (case s of
               Inl e \<Rightarrow> if isTransientError e then \<lparr>RequeueAfter = 30 * Second, res_Err = None\<rparr> else reconciled
             | Inr _ \<Rightarrow> reconciled) }) w1" by auto
  obtain s w2 where s: "run_state (Salvage ops orch pod ?d (fail_Image f) sn) w1 = (s, w2)" by fastforce
  have "\<not> semaphore w1 < or_SemCap orch" using full v by (simp add: view_of_def)
  with Salvage_view[OF s] have "s = Inl errRateLimited" "view_of w2 = (view_of w1)\<lparr>v_attempts := Suc (SalvageAttempts (metrics w1))\<rparr>"
    by simp_all
  moreover have "isTransientError errRateLimited"
    by (simp add: isTransientError_def errRateLimited_def) code_simp
  ultimately show ?thesis using run eq s v by (auto simp: view_of_def)
qed

theorem Reconcile_requeues_when_full_witness:
  "fst (run_state (Reconcile salvage_ops example_reconciler ''prod'' ''web-1'') ((init_world ())\<lparr>semaphore := 2\<rparr>))
     = \<lparr>RequeueAfter = 30 * Second, res_Err = None\<rparr>"
  using Reconcile_requeues_when_full[OF salvage_ops_case _ prod.collapse[symmetric], of "(init_world ())\<lparr>semaphore := 2\<rparr>"]
  by (simp add: example_orchestrator_def)

text \<open>C12: a salvageable pod is salvaged: if there is a free place and the agents and the connections work,
  one reconciliation transfers the image from another node that holds it, ends without error and
  without requeueing, counts one success, creates a record, and deletes the pod if it has an owner.\<close>

theorem Reconcile_salvages:
  assumes c: "salvageable_case ops r orch ns name pod f items"
    and room: "semaphore w < or_SemCap orch"
    and pods: "\<And>e. fst (list_Pods ops (rs_Namespace (or_Resolver orch)) agentLabels e) = Inr pods"
    and agents: "\<forall>n \<in> insert (pod_NodeName pod) (node_Name ` set items).
        \<exists>p \<in> set pods. pod_NodeName p = n \<and> pod_PodIP p \<noteq> ''''"
    and rpc: "\<And>ep. is_ok (grpc_NewClient ops ep (dialOption orch))"
      "\<And>ep req e. fst (rpc_PrepareExport ops ep req e) = Inr sz"
      "or_MaxImageSize orch > 0 \<longrightarrow> sz \<le> or_MaxImageSize orch"
      "\<And>ep req e. \<exists>resp. fst (rpc_ImportFrom ops ep req e) = Inr resp \<and> ifr_Success resp"
    and run: "run_state (Reconcile ops r ns name) w = (res, w')"
  shows "res = reconciled \<and> SalvageSuccesses (metrics w') = Suc (SalvageSuccesses (metrics w))
     \<and> (\<exists>es. acts (trace w') = acts (trace w) @ es \<and> (\<exists>rc. RecordCreate rc \<in> set es)
          \<and> (pod_OwnerReferences pod \<noteq> [] \<longrightarrow> PodDelete (pod_Namespace pod) (pod_Name pod) \<in> set es))"
proof -
  let ?d = "res_Digest (Resolve (fail_Image f))"
  from Reconcile_reaches_salvage[OF c, of w] obtain w1 sn where v: "view_of w1 = view_of w"
    and sn: "sn \<in> node_Name ` set items"
    and eq: "run_state (Reconcile ops r ns name) w =
         run_state (do { s \<leftarrow> Salvage ops orch pod ?d (fail_Image f) sn;
           return (case s of
               Inl e \<Rightarrow> if isTransientError e then \<lparr>RequeueAfter = 30 * Second, res_Err = None\<rparr> else reconciled
             | Inr _ \<Rightarrow> reconciled) }) w1" by auto
  obtain s w2 where s: "run_state (Salvage ops orch pod ?d (fail_Image f) sn) w1 = (s, w2)" by fastforce
  have room1: "semaphore w1 < or_SemCap orch" using room v by (simp add: view_of_def)
  have "fst (run_state (Salvage ops orch pod ?d (fail_Image f) sn) w1) = Inr ()"
    by (rule Salvage_ok[OF room1 pods _ _ rpc]) (use agents sn in auto)
  with s have ok: "s = Inr ()" by simp
  from Salvage_view[OF s] room1 obtain es st where es: "salvage_calls ops orch pod ?d (fail_Image f) sn (Inr ()) es"
    and v2: "view_of w2 = (appending es (ok_view (view_of w1)))\<lparr>v_attempts := Suc (SalvageAttempts (metrics w1)), v_sessions := st\<rparr>"
    by (auto simp: ok outcome_view_def)
  have "\<exists>rc. RecordCreate rc \<in> set es" "pod_OwnerReferences pod \<noteq> [] \<Longrightarrow> PodDelete (pod_Namespace pod) (pod_Name pod) \<in> set es"
    using es by (auto simp: salvage_calls_def is_record_of_def pod_deletes_def)
  then show ?thesis using run eq s ok v v2 by (auto simp: view_of_def appending_def ok_view_def)
qed

theorem Reconcile_salvages_witness:
  "fst (run_state (Reconcile salvage_ops example_reconciler ''prod'' ''web-1'') (init_world ())) = reconciled
   \<and> SalvageSuccesses (metrics (snd (run_state (Reconcile salvage_ops example_reconciler ''prod'' ''web-1'') (init_world ())))) = 1"
  using Reconcile_salvages[OF salvage_ops_case _ _ _ _ _ _ _ prod.collapse[symmetric], of "init_world ()"
      "[agent_pod ''a'' ''10.0.0.1'', agent_pod ''b'' ''10.0.0.2'']" 3]
  by (simp add: init_world_def NewCounters_def example_orchestrator_def salvage_ops_def example_cluster_def failing_ops_def
      agent_pod_def example_node_def)



text \<open>Completed records are recognised only by their status: if the API server returns the records
  without a status phase (as it does when the status subresource is enabled and the status was only
  given at creation), the check for an earlier salvage always says no.\<close>

theorem records_without_status_ignored:
  assumes "\<And>e items. fst (list_SalvageRecords ops (Some (ns, d)) e) = Inr items \<Longrightarrow> \<forall>i \<in> set items. Phase (rec_Status i) = ''''"
  shows "\<not> fst (run_state (hasSalvageRecord ops ns d) w)"
proof -
  obtain l e' where l: "list_SalvageRecords ops (Some (ns, d)) (env w) = (l, e')" by fastforce
  with assms[of "env w"] show ?thesis
    by (cases l) (auto simp: hasSalvageRecord_def list_ex_iff)
qed

theorem records_without_status_ignored_witness:
  "\<not> fst (run_state (hasSalvageRecord (salvage_ops\<lparr>list_SalvageRecords := (\<lambda>q. Pair (Inr
        [(salvageRecord 0 failing_pod ''sha256:x'' ''app'' ''a'' ''b'' ''Completed'' '''')
           \<lparr>rec_Status := \<lparr>Phase = '''', CompletedAt = '''', StatusError = ''''\<rparr>\<rparr>]))\<rparr>) ''prod'' ''sha256:x'') (init_world ()))"
  by (rule records_without_status_ignored) auto

end
