(* ===== verification/Cluster_Repair.thy ===== *)
theory Cluster_Repair
  imports Cluster Controller
begin

text \<open>
  The other repair of the operator, end to end: a container that cannot be created because content of its image is
  missing. \<open>Reconcile\<close> has the agent of the pod's node remove the image record, so that the kubelet pulls the
  image again, and deletes the pod if it has an owner. The agent is the handler \<open>RemoveImage\<close> over \<open>FakeStore\<close>, as in
  theory \<open>Cluster\<close>, and the pod and its namespace are served by the API server.
\<close>

definition cluster_RemoveImage :: "int \<Rightarrow> string \<Rightarrow> RemoveImageRequest \<Rightarrow> cluster \<Rightarrow> unit result \<times> cluster" where
  "cluster_RemoveImage port ep req e =
     (case cu_agents e ep of
        None \<Rightarrow> (Inl (errorf ''connection refused''), e)
      | Some a \<Rightarrow>
          (case run_state (RemoveImage (NewServer FakeStore port) req) a of
             (r, a') \<Rightarrow> (r, e\<lparr>cu_agents := (cu_agents e)(ep \<mapsto> a')\<rparr>)))"

definition repair_ops :: "int \<Rightarrow> Pod \<Rightarrow> cluster env_ops" where
  "repair_ops port pod = (cluster_ops port)
     \<lparr>get_Pod := (\<lambda>ns n. Pair (Inr pod)),
      get_Namespace := (\<lambda>n. Pair (Inr (blank_meta\<lparr>meta_Annotations := [AnnotationNamespaceAllow \<mapsto> ''true'']\<rparr>))),
      rpc_RemoveImage := cluster_RemoveImage port\<rparr>"

lemma repair_ops_simps [simp]:
  "get_Pod (repair_ops port pod) ns n = Pair (Inr pod)"
  "get_Namespace (repair_ops port pod) n = Pair (Inr (blank_meta\<lparr>meta_Annotations := [AnnotationNamespaceAllow \<mapsto> ''true'']\<rparr>))"
  "list_Pods (repair_ops port pod) ns l = (\<lambda>e. (Inr (cu_pods e), e))"
  "grpc_NewClient (repair_ops port pod) ep c = Inr ()"
  "rpc_RemoveImage (repair_ops port pod) = cluster_RemoveImage port"
  "delete_Pod (repair_ops port pod) q = unavailable"
  by (simp_all add: repair_ops_def) (simp add: cluster_ops_def failing_ops_def)

text \<open>The store without the record of a reference.\<close>

definition forgets :: "string \<Rightarrow> FakeImageStore \<Rightarrow> FakeImageStore \<Rightarrow> bool" where
  "forgets img s s' \<longleftrightarrow> fst (st_ResolveTag FakeStore img s') = Inr '''' \<and>
     (\<forall>t. t \<noteq> img \<longrightarrow> fk_tags s' t = fk_tags s t) \<and> (\<forall>d. d \<noteq> img \<longrightarrow> map_of (fk_images s') d = map_of (fk_images s) d)"

lemma RemoveImage_fake:
  assumes "img \<noteq> ''''"
  shows "run_state (RemoveImage (NewServer FakeStore port) \<lparr>rm_ImageRef = img\<rparr>) a =
     (if fk_tags (ag_store a) img = None \<and> map_of (fk_images (ag_store a)) img = None
      then (Inl (wrapf ''removing image'' (errorf (''image '' @ img @ '' not found''))), a)
      else (Inr (), a\<lparr>ag_store := snd (fake_Remove img (ag_store a))\<rparr>))"
  using assms by (auto simp: RemoveImage_def NewServer_def fake_defs)

lemma fake_Remove_forgets:
  "fk_tags s img \<noteq> None \<or> map_of (fk_images s) img \<noteq> None \<Longrightarrow> forgets img s (snd (fake_Remove img s))"
  by (auto simp: forgets_def fake_defs)

lemma Notify_repair:
  assumes "run_state (Notify (repair_ops port pod) nt evt) w = (x, w')"
  shows "env w' = env w" and "metrics w' = metrics w" and "acts (trace w') = acts (trace w)"
proof -
  have "rel_act (keeps env) (Notify (repair_ops port pod) nt evt)"
    unfolding Notify_def
    by (intro kp.rel_rules keeps_env_prims) (simp_all add: repair_ops_def cluster_quiet)
  from rel_actD[OF this assms] show "env w' = env w" by (simp add: keeps_def)
  from rel_actD[OF Notify_rel(4) assms] show "metrics w' = metrics w" by (simp add: keeps_def)
  from rel_actD[OF Notify_rel(1) assms] show "acts (trace w') = acts (trace w)"
    by (auto simp: emits_only_def acts_def list_all_iff is_telemetry_def filter_empty_conv)
qed

text \<open>What handling one corrupt image does to the outside, given the answer of the agent.\<close>

lemma handleCorrupt_repair:
  assumes ar: "pr_AgentResolver r = Some ar" "pod_NodeName pod \<noteq> ''''"
    and ep: "firstEndpoint ar (pod_NodeName pod) (cu_pods (env w)) = Inr ep"
    and rm: "cluster_RemoveImage port ep \<lparr>rm_ImageRef = fail_Image f\<rparr> (env w) = (res, e')"
    and run: "run_state (handleCorrupt (repair_ops port pod') r pod f) w = (c, w')"
  shows "c = Continue \<and> metrics w' = RecordCorruptImage (metrics w) \<and> env w' = e'
     \<and> acts (trace w') = acts (trace w) @ AgentCall ep (CallRemoveImage \<lparr>rm_ImageRef = fail_Image f\<rparr>)
         # (if is_ok res \<and> pod_OwnerReferences pod \<noteq> [] then [PodDelete (pod_Namespace pod) (pod_Name pod)] else [])"
  using run ar ep rm
  by (cases res) (auto simp: handleCorrupt_def EmitCorruptImage_def Eventf_def RemoveImageOnNode_def EndpointForNode_def
      recreate_def deletePod_def unavailable_def)

section \<open>Properties\<close>


definition corrupt_message :: string where
  "corrupt_message = ''failed to resolve rootfs: content digest sha256:e3b0: not found''"

definition corrupt_pod :: Pod where
  "corrupt_pod = failing_pod\<lparr>pod_Containers := [failing_container\<lparr>ctr_Image := ''web:1''\<rparr>],
     pod_ContainerStatuses := [waiting_status\<lparr>cs_Waiting :=
       Some \<lparr>waiting_Reason = ''CreateContainerError'', waiting_Message = corrupt_message\<rparr>\<rparr>]\<rparr>"

definition repair_cluster :: cluster where
  "repair_cluster = example_nodes\<lparr>cu_agents := [''10.0.0.2:9090'' \<mapsto>
     \<lparr>ag_store = AddTag ''web:1'' ''sha256:fake-3'' NewFakeImageStore, ag_sessions = NewStore, ag_env = 0\<rparr>]\<rparr>"

definition repair_reconciler :: "cluster PodReconciler" where
  "repair_reconciler = \<lparr>pr_Config = New, pr_Orchestrator = None, pr_AgentResolver = Some (or_Resolver example_orchestrator),
     pr_TagResolver = None, pr_Notifier = None\<rparr>"


end
