(* ===== verification/Cluster_Push.thy ===== *)
theory Cluster_Push
  imports Cluster
begin

text \<open>
  Controller, source agent and backup registry together: an outside in which the orchestrator's push
  call runs the \<open>PushImage\<close> handler of the agent at the endpoint, and the handler writes to a
  registry. The registry is not part of the repository: \<open>registry_ok\<close> is what its \<open>remote.Write\<close>
  promises, with \<open>held\<close> reading the image a reference names.
\<close>

section \<open>The registry and the outside\<close>

definition registry_ok :: "'r registry_ops \<Rightarrow> ('r \<Rightarrow> string \<rightharpoonup> bytes) \<Rightarrow> bool" where
  "registry_ok ro held \<longleftrightarrow>
     (\<forall>ref ins data auth r u r'. ro_RemoteWrite ro ref ins data auth r = (Inr u, r') \<longrightarrow> held r' = (held r)(ref \<mapsto> data)) \<and>
     (\<forall>ref ins data auth r er r'. ro_RemoteWrite ro ref ins data auth r = (Inl er, r') \<longrightarrow> held r' = held r)"

text \<open>A registry that refuses nothing.\<close>

definition accepting :: "'r registry_ops \<Rightarrow> bool" where
  "accepting ro \<longleftrightarrow> (\<forall>ref ins. ro_NewTag ro ref ins = Inr ()) \<and> (\<forall>data. ro_TarballImage ro data = Inr ()) \<and>
     (\<forall>ref ins data auth r. is_ok (fst (ro_RemoteWrite ro ref ins data auth r)))"

record 'r backup_cluster =
  bc_agents :: "string \<rightharpoonup> FakeImageStore"
  bc_registry :: 'r
  bc_secrets :: "string \<Rightarrow> string \<Rightarrow> Secret result"

definition push_agent :: "(string \<Rightarrow> string) \<Rightarrow> 'r registry_ops \<Rightarrow> 'r agent_ops" where
  "push_agent q ro = \<lparr>ao_Now = Pair 0, ao_NewClient = (\<lambda>ep c. Inr ()), ao_ExportImage = (\<lambda>ep req. Pair (Inl (errorf ''no peer''))),
     ao_ErrReported = Pair False, ao_Registry = ro, ao_Quote = q\<rparr>"

definition backup_PushImage ::
  "(string \<Rightarrow> string) \<Rightarrow> 'r registry_ops \<Rightarrow> int \<Rightarrow> string \<Rightarrow> PushImageRequest \<Rightarrow> 'r backup_cluster \<Rightarrow> PushImageResponse result \<times> 'r backup_cluster" where
  "backup_PushImage q ro port ep req e =
     (case bc_agents e ep of
        None \<Rightarrow> (Inl (errorf ''connection refused''), e)
      | Some s \<Rightarrow>
          (case run_state (PushImage (push_agent q ro) (NewServer FakeStore port) req)
                  \<lparr>ag_store = s, ag_sessions = NewStore, ag_env = bc_registry e\<rparr> of
             (resp, a) \<Rightarrow> (Inr resp, e\<lparr>bc_agents := (bc_agents e)(ep \<mapsto> ag_store a), bc_registry := ag_env a\<rparr>)))"

definition backup_ops ::
  "(string \<Rightarrow> string) \<Rightarrow> 'r registry_ops \<Rightarrow> int \<Rightarrow> (string \<Rightarrow> err) \<Rightarrow> 'r backup_cluster env_ops" where
  "backup_ops q ro port je = failing_ops
     \<lparr>get_Secret := (\<lambda>ns n e. (bc_secrets e ns n, e)), json_Error := je,
      rpc_PushImage := backup_PushImage q ro port\<rparr>"

lemma backup_ops_simps [simp]:
  "time_Now (backup_ops q ro port je) = Pair 0" "grpc_NewClient (backup_ops q ro port je) ep c = Inr ()"
  "get_Secret (backup_ops q ro port je) ns n = (\<lambda>e. (bc_secrets e ns n, e))"
  "rpc_PushImage (backup_ops q ro port je) = backup_PushImage q ro port"
  by (simp_all add: backup_ops_def failing_ops_def)

lemma backup_quiet:
  "snd (time_Now (backup_ops q ro port je) e) = e" "snd (http_Do (backup_ops q ro port je) u b e) = e"
  "snd (get_Secret (backup_ops q ro port je) ns n e) = e"
  by (simp_all add: backup_ops_def failing_ops_def unavailable_def)

section \<open>The handler\<close>

text \<open>What a push of the exported bytes does to the registry, on every branch.\<close>

lemma Push_registry:
  assumes "registry_ok ro held" and "Push ro q ([data], Inr ()) d ref user pass ins r = (x, r')"
  shows "held r' = (if is_ok x then (held r)(ref \<mapsto> data) else held r)"
proof -
  obtain y r1 where w: "ro_RemoteWrite ro ref ins data (if user \<noteq> '''' then Some (user, pass) else None) r = (y, r1)"
    by fastforce
  then have "held r1 = (if is_ok y then (held r)(ref \<mapsto> data) else held r)"
    using assms(1) unfolding registry_ok_def by (cases y) fastforce+
  then show ?thesis
    using assms(2) w by (cases "ro_NewTag ro ref ins"; cases "ro_TarballImage ro data"; cases y) (auto simp: Push_def)
qed

lemma Push_accepted:
  assumes "accepting ro"
  shows "is_ok (fst (Push ro q ([data], Inr ()) d ref user pass ins r))"
proof -
  let ?auth = "if user \<noteq> '''' then Some (user, pass) else None"
  have "is_ok (fst (ro_RemoteWrite ro ref ins data ?auth r))" "ro_NewTag ro ref ins = Inr ()" "ro_TarballImage ro data = Inr ()"
    using assms unfolding accepting_def by blast+
  then show ?thesis
    by (cases "fst (ro_RemoteWrite ro ref ins data ?auth r)") (simp_all add: Push_def case_prod_beta)
qed

text \<open>The handler of a fake store: it refuses an incomplete request and an image it lacks, and
  otherwise answers with the outcome of the push.\<close>

lemma PushImage_fake:
  "run_state (PushImage (push_agent q ro) (NewServer FakeStore port) req) a =
     (if pi_Digest req = '''' \<or> pi_TargetRef req = '''' then (push_failed ''digest and target_ref are required'', a)
      else case map_of (fk_images (ag_store a)) (pi_Digest req) of
        None \<Rightarrow> (push_failed (''image '' @ pi_Digest req @ '' not found locally''), a)
      | Some data \<Rightarrow>
          (case Push ro q ([data], Inr ()) (pi_Digest req) (pi_TargetRef req) (pi_RegistryUsername req)
                       (pi_RegistryPassword req) (pi_Insecure req) (ag_env a) of
             (x, r) \<Rightarrow> ((case x of Inl e \<Rightarrow> push_failed (''push failed: '' @ emsg e)
                           | Inr _ \<Rightarrow> \<lparr>pir_Success = True, pir_Error = ''''\<rparr>), a\<lparr>ag_env := r\<rparr>)))"
  by (simp add: PushImage_def push_agent_def NewServer_def FakeStore_def fake_Has_def fake_Export_def
      split: prod.splits option.splits)

lemma PushImage_registry:
  assumes ok: "registry_ok ro held"
    and run: "run_state (PushImage (push_agent q ro) (NewServer FakeStore port) req) a = (resp, a')"
  shows "ag_store a' = ag_store a"
    and "pir_Success resp \<Longrightarrow> \<exists>data. map_of (fk_images (ag_store a)) (pi_Digest req) = Some data
               \<and> held (ag_env a') = (held (ag_env a))(pi_TargetRef req \<mapsto> data)"
    and "\<not> pir_Success resp \<Longrightarrow> held (ag_env a') = held (ag_env a)"
  using run Push_registry[OF ok]
  by (auto simp: PushImage_fake push_failed_def split: option.splits if_splits sum.splits prod.splits)

lemma PushImage_accepted:
  assumes "accepting ro" and "map_of (fk_images (ag_store a)) (pi_Digest req) = Some data"
    and "pi_Digest req \<noteq> ''''" "pi_TargetRef req \<noteq> ''''"
  shows "pir_Success (fst (run_state (PushImage (push_agent q ro) (NewServer FakeStore port) req) a))"
proof -
  let ?p = "Push ro q ([data], Inr ()) (pi_Digest req) (pi_TargetRef req) (pi_RegistryUsername req)
       (pi_RegistryPassword req) (pi_Insecure req) (ag_env a)"
  have "is_ok (fst ?p)" by (rule Push_accepted[OF assms(1)])
  then show ?thesis using assms by (cases "fst ?p") (simp_all add: PushImage_fake case_prod_beta)
qed

section \<open>The orchestrator\<close>

lemma push_quiet:
  "rel_act (keeps env) (loadRegistryCredentials (backup_ops q ro port je) orch)"
  "rel_act (keeps env) (push_failure pod d ref e :: ('r backup_cluster, unit) act)"
  "rel_act (keeps env) (push_success (backup_ops q ro port je) orch pod d ref sn start)"
  unfolding loadRegistryCredentials_def push_failure_def push_success_def Notify_def
    EmitPushed_def EmitPushFailed_def Eventf_def
  by (intro kp.rel_rules keeps_env_prims backup_quiet)+

lemmas push_quietD = push_quiet[THEN rel_actD, unfolded keeps_def]

lemma push_metricsD:
  "run_state (loadRegistryCredentials ops orch) w = (c, w') \<Longrightarrow> metrics w' = metrics w"
  "run_state (pushImage ops orch ep d ref us pa) w = (r, w') \<Longrightarrow> metrics w' = metrics w"
  using rel_actD[OF loadRegistryCredentials_metrics] rel_actD[OF pushImage_metrics] by (simp_all add: keeps_def)

text \<open>The registry after a push: with the source's bytes under the reference, or as before.\<close>

definition pushed :: "('r \<Rightarrow> string \<rightharpoonup> bytes) \<Rightarrow> FakeImageStore \<Rightarrow> string \<Rightarrow> string \<Rightarrow> bool \<Rightarrow> 'r backup_cluster \<Rightarrow> 'r backup_cluster \<Rightarrow> bool" where
  "pushed held s d ref b e e' \<longleftrightarrow> bc_agents e' = bc_agents e \<and> bc_secrets e' = bc_secrets e \<and>
     (if b then \<exists>data. map_of (fk_images s) d = Some data \<and> held (bc_registry e') = (held (bc_registry e))(ref \<mapsto> data)
      else held (bc_registry e') = held (bc_registry e))"

lemma pushImage_backup:
  assumes ok: "registry_ok ro held" and s: "bc_agents (env w) ep = Some s"
    and run: "run_state (pushImage (backup_ops q ro port je) orch ep d ref user pass) w = (r, w')"
  shows "pushed held s d ref (is_ok r) (env w) (env w')"
    and "accepting ro \<Longrightarrow> map_of (fk_images s) d = Some data \<Longrightarrow> d \<noteq> '''' \<Longrightarrow> ref \<noteq> '''' \<Longrightarrow> is_ok r"
proof -
  let ?req = "\<lparr>pi_Digest = d, pi_TargetRef = ref, pi_RegistryUsername = user,
                     pi_RegistryPassword = pass, pi_Insecure = or_BackupRegistryInsecure orch\<rparr>"
  let ?a = "\<lparr>ag_store = s, ag_sessions = NewStore, ag_env = bc_registry (env w)\<rparr>"
  obtain resp a' where p: "run_state (PushImage (push_agent q ro) (NewServer FakeStore port) ?req) ?a = (resp, a')" by fastforce
  have r: "is_ok r = pir_Success resp" and e: "env w' = (env w)\<lparr>bc_agents := (bc_agents (env w))(ep \<mapsto> ag_store a'), bc_registry := ag_env a'\<rparr>"
    using run s p by (auto simp: pushImage_def Let_def backup_PushImage_def split: if_splits)
  show "pushed held s d ref (is_ok r) (env w) (env w')"
    using PushImage_registry[OF ok p] s unfolding e r by (auto simp: pushed_def)
  show "accepting ro \<Longrightarrow> map_of (fk_images s) d = Some data \<Longrightarrow> d \<noteq> '''' \<Longrightarrow> ref \<noteq> '''' \<Longrightarrow> is_ok r"
    using PushImage_accepted[where a = ?a and req = ?req and ro = ro and q = q and port = port] p r by simp
qed

text \<open>One push: what it counts and what it leaves in the registry.\<close>

definition push_counted :: "bool \<Rightarrow> Counters \<Rightarrow> Counters \<Rightarrow> bool" where
  "push_counted b m m' \<longleftrightarrow> PushAttempts m' = PushAttempts m + 1
     \<and> PushSuccesses m' = PushSuccesses m + (if b then 1 else 0) \<and> PushFailures m' = PushFailures m + (if b then 0 else 1)"

lemma push_backup:
  assumes ok: "registry_ok ro held" and s: "bc_agents (env w) ep = Some s"
    and ref: "BackupRef img (or_BackupRegistry orch) = Inr ref"
    and run: "run_state (pushToBackupRegistry (backup_ops q ro port je) orch pod d img ep sn) w = (u, w')"
  shows "\<exists>b. pushed held s d ref b (env w) (env w') \<and> push_counted b (metrics w) (metrics w')
     \<and> (accepting ro \<and> or_BackupRegistrySecret orch = '''' \<and> map_of (fk_images s) d \<noteq> None \<and> d \<noteq> '''' \<longrightarrow> b)"
proof -
  let ?w1 = "w\<lparr>metrics := RecordPushAttempt (metrics w), env := env w\<rparr>"
  obtain creds w2 where c: "run_state (loadRegistryCredentials (backup_ops q ro port je) orch) ?w1 = (creds, w2)" by fastforce
  have e2: "env w2 = env w" and m2: "metrics w2 = RecordPushAttempt (metrics w)"
    using push_quietD(1)[OF c] push_metricsD(1)[OF c] by simp_all
  show ?thesis
  proof (cases creds)
    case (Inl er)
    then have "run_state (push_failure pod d ref er) w2 = (u, w')"
      using run c ref by (simp add: pushToBackupRegistry_def)
    from push_quietD(2)[OF this] push_failure_metrics[OF this] Inl c e2 m2 show ?thesis
      by (intro exI[of _ False]) (auto simp: pushed_def push_counted_def record_metric_defs loadRegistryCredentials_def)
  next
    case (Inr up)
    obtain user pass where up: "up = (user, pass)" by fastforce
    obtain r w3 where p: "run_state (pushImage (backup_ops q ro port je) orch ep d ref user pass) w2 = (r, w3)" by fastforce
    have s2: "bc_agents (env w2) ep = Some s" using s e2 by simp
    have m3: "metrics w3 = RecordPushAttempt (metrics w)" using push_metricsD(2)[OF p] m2 by simp
    have rest: "run_state (case r of Inl e \<Rightarrow> push_failure pod d ref e
        | Inr _ \<Rightarrow> push_success (backup_ops q ro port je) orch pod d ref sn 0) w3 = (u, w')"
      using run c ref p unfolding Inr up by (simp add: pushToBackupRegistry_def)
    have e': "env w' = env w3"
      by (cases r) (use rest in \<open>auto dest: push_quietD(2,3)\<close>)
    have m': "push_counted (is_ok r) (metrics w) (metrics w')"
      by (cases r) (use rest m3 in \<open>auto dest!: push_failure_metrics push_success_metrics simp: push_counted_def record_metric_defs\<close>)
    have ne: "ref \<noteq> ''''"
    proof
      assume "ref = ''''"
      with ref show False by (auto simp: BackupRef_def Let_def split: if_splits list.splits)
    qed
    show ?thesis using pushImage_backup[OF ok s2 p] m' ne unfolding e' e2 by (intro exI[of _ "is_ok r"]) blast
  qed
qed

section \<open>Properties\<close>


text \<open>A registry that keeps what is written to it.\<close>

definition kept_registry :: "(string \<rightharpoonup> bytes) registry_ops" where
  "kept_registry = \<lparr>ro_ParseReference = (\<lambda>r i. Inr r), ro_Head = (\<lambda>r i t a n. Pair (Inl (errorf ''404''))),
     ro_ReadFile = (\<lambda>p. Inl (errorf ''no file'')), ro_AppendCertsFromPEM = (\<lambda>p. False), ro_NewTag = (\<lambda>r i. Inr ()),
     ro_TarballImage = (\<lambda>b. Inr ()), ro_RemoteWrite = (\<lambda>ref i data a m. (Inr (), m(ref \<mapsto> data)))\<rparr>"

lemma kept_registry_ok: "registry_ok kept_registry id" "accepting kept_registry"
  by (simp_all add: registry_ok_def accepting_def kept_registry_def)

definition example_backup :: "(string \<rightharpoonup> bytes) backup_cluster" where
  "example_backup = \<lparr>bc_agents = [''10.0.0.1:9090'' \<mapsto> AddImage ''sha256:b'' ''two'' (AddImage ''sha256:a'' ''one'' NewFakeImageStore)],
     bc_registry = Map.empty, bc_secrets = (\<lambda>ns n. Inl (errorf ''none''))\<rparr>"

definition backup_orchestrator :: Orchestrator where
  "backup_orchestrator = SetBackupRegistry ''b.io'' '''' '''' False example_orchestrator"

lemma example_backup_agent:
  "bc_agents (env (init_world example_backup)) ''10.0.0.1:9090''
     = Some (AddImage ''sha256:b'' ''two'' (AddImage ''sha256:a'' ''one'' NewFakeImageStore))"
  by (simp add: example_backup_def init_world_def)


lemma BackupRef_digests:
  "CHR ''@'' \<notin> set repo \<Longrightarrow> BackupRef (repo @ ''@'' @ d1) reg = BackupRef (repo @ ''@'' @ d2) reg"
  by (simp add: BackupRef_def stripDigest_app)

lemma BackupRef_some: "reg \<noteq> [] \<Longrightarrow> \<exists>ref. BackupRef img reg = Inr ref"
  by (simp add: BackupRef_def Let_def split: list.splits)

text \<open>C25: the backup registry keeps one image per repository and tag. Two images of one repository that
  pods name by digest are both pushed and both counted as successes, even by a registry that accepts
  every write and keeps all it is given, but the reference of the second is the reference of the
  first: afterwards the registry differs from before in that one reference only, which holds the
  second image, and the first image's backup is gone.\<close>

theorem push_overwrites:
  assumes ok: "registry_ok ro held" "accepting ro" and s: "bc_agents (env w) ep = Some s"
    and orch: "or_BackupRegistry orch \<noteq> ''''" "or_BackupRegistrySecret orch = ''''"
    and repo: "CHR ''@'' \<notin> set repo" "d1 \<noteq> ''''" "d2 \<noteq> ''''"
    and data: "map_of (fk_images s) d1 = Some data1" "map_of (fk_images s) d2 = Some data2"
    and run1: "run_state (pushToBackupRegistry (backup_ops q ro port je) orch pod d1 (repo @ ''@'' @ d1) ep sn) w = (u, w1)"
    and run2: "run_state (pushToBackupRegistry (backup_ops q ro port je) orch pod2 d2 (repo @ ''@'' @ d2) ep sn) w1 = (u2, w2)"
  shows "\<exists>ref. held (bc_registry (env w1)) = (held (bc_registry (env w)))(ref \<mapsto> data1)
     \<and> held (bc_registry (env w2)) = (held (bc_registry (env w)))(ref \<mapsto> data2)
     \<and> PushSuccesses (metrics w2) = PushSuccesses (metrics w) + 2"
proof -
  obtain ref where ref: "BackupRef (repo @ ''@'' @ d1) (or_BackupRegistry orch) = Inr ref" using BackupRef_some[OF orch(1)] by blast
  from push_backup[OF ok(1) s ref run1] ok(2) orch(2) repo(2) data(1)
  have 1: "pushed held s d1 ref True (env w) (env w1)" "push_counted True (metrics w) (metrics w1)" by auto
  have s1: "bc_agents (env w1) ep = Some s" using 1(1) s by (simp add: pushed_def)
  from push_backup[OF ok(1) s1 _ run2, of ref] ref BackupRef_digests[OF repo(1), of d1 _ d2] ok(2) orch(2) repo(3) data(2)
  have "pushed held s d2 ref True (env w1) (env w2)" "push_counted True (metrics w1) (metrics w2)" by auto
  with 1 data show ?thesis by (intro exI[of _ ref]) (simp add: pushed_def push_counted_def)
qed

theorem push_overwrites_witness:
  "\<exists>ref. bc_registry (env (snd (run_state (pushToBackupRegistry (backup_ops id kept_registry 9090 (\<lambda>s. errorf ''bad json''))
        backup_orchestrator owned_pod ''sha256:b'' (''web'' @ ''@'' @ ''sha256:b'') ''10.0.0.1:9090'' ''a'')
      (snd (run_state (pushToBackupRegistry (backup_ops id kept_registry 9090 (\<lambda>s. errorf ''bad json''))
        backup_orchestrator owned_pod ''sha256:a'' (''web'' @ ''@'' @ ''sha256:a'') ''10.0.0.1:9090'' ''a'') (init_world example_backup))))))
     = [ref \<mapsto> ''two'']"
proof -
  let ?s = "AddImage ''sha256:b'' ''two'' (AddImage ''sha256:a'' ''one'' NewFakeImageStore)"
  have "map_of (fk_images ?s) ''sha256:a'' = Some ''one''" "map_of (fk_images ?s) ''sha256:b'' = Some ''two''"
    "or_BackupRegistry backup_orchestrator \<noteq> ''''" "or_BackupRegistrySecret backup_orchestrator = ''''" "CHR ''@'' \<notin> set ''web''"
    by (simp_all add: AddImage_def map_set_def NewFakeImageStore_def backup_orchestrator_def SetBackupRegistry_def)
  from push_overwrites[OF kept_registry_ok example_backup_agent this(3,4,5) _ _ this(1,2) prod.collapse[symmetric] prod.collapse[symmetric],
      of id 9090 "\<lambda>s. errorf ''bad json''" owned_pod "''a''" owned_pod]
  show ?thesis by (auto simp: init_world_def example_backup_def)
qed

end
