(* ===== verification/Reaper_Cleanup.thy ===== *)
theory Reaper_Cleanup
  imports Tote_Transfer
begin

text \<open>
  \<open>internal/cleanup/cleanup.go\<close>: the reaper that deletes expired SalvageRecords. \<open>Start\<close> runs one sweep
  at once and one per tick of its ticker; the model takes the number of ticks until cancellation.
\<close>

record Reaper =
  rp_TTL :: int
  rp_Interval :: int

definition NewReaper :: "int \<Rightarrow> int \<Rightarrow> Reaper" where
  "NewReaper ttl interval = \<lparr>rp_TTL = ttl, rp_Interval = interval\<rparr>"

definition NeedLeaderElection :: "Reaper \<Rightarrow> bool" where
  "NeedLeaderElection r = True"

fun sweepLoop :: "'e env_ops \<Rightarrow> int \<Rightarrow> SalvageRecord list \<Rightarrow> ('e, unit) act" where
  "sweepLoop ops cutoff [] = return ()"
| "sweepLoop ops cutoff (rc # items) =
     (if CompletedAt (rec_Status rc) = '''' then sweepLoop ops cutoff items
      else case parse_RFC3339 (CompletedAt (rec_Status rc)) of
        Inl e \<Rightarrow> sweepLoop ops cutoff items
      | Inr completed \<Rightarrow>
          (if completed < cutoff then do {
             emit (RecordDelete (rec_Namespace rc) (rec_Name rc));
             _ \<leftarrow> ext (delete_SalvageRecord ops rc);
             sweepLoop ops cutoff items
           }
           else sweepLoop ops cutoff items))"

definition sweep :: "'e env_ops \<Rightarrow> Reaper \<Rightarrow> ('e, unit) act" where
  "sweep ops r = do {
     l \<leftarrow> ext (list_SalvageRecords ops None);
     case l of
       Inl e \<Rightarrow> return ()
     | Inr items \<Rightarrow> do {
         now \<leftarrow> ext (time_Now ops);
         sweepLoop ops (now - rp_TTL r) items
       }
   }"

fun ticks :: "'e env_ops \<Rightarrow> Reaper \<Rightarrow> nat \<Rightarrow> ('e, unit) act" where
  "ticks ops r 0 = return ()"
| "ticks ops r (Suc n) = do { sweep ops r; ticks ops r n }"

text \<open>A ticker of non-positive interval panics.\<close>

definition Start :: "'e env_ops \<Rightarrow> Reaper \<Rightarrow> nat \<Rightarrow> ('e, unit result) act" where
  "Start ops r n = do {
     sweep ops r;
     (if rp_Interval r \<le> 0 then return (Inl (errorf ''non-positive interval for NewTicker''))
      else do {
        ticks ops r n;
        return (Inr ())
      })
   }"

section \<open>Specification\<close>

definition expired :: "int \<Rightarrow> SalvageRecord \<Rightarrow> bool" where
  "expired cutoff rc \<longleftrightarrow> CompletedAt (rec_Status rc) \<noteq> '''' \<and>
     (\<exists>t. parse_RFC3339 (CompletedAt (rec_Status rc)) = Inr t \<and> t < cutoff)"

definition deletes :: "SalvageRecord list \<Rightarrow> effect list" where
  "deletes rs = map (\<lambda>rc. RecordDelete (rec_Namespace rc) (rec_Name rc)) rs"

lemma sweepLoop_exact:
  "\<exists>e'. run_state (sweepLoop ops cutoff items) w =
     ((), w\<lparr>trace := trace w @ deletes (filter (expired cutoff) items), env := e'\<rparr>)"
proof (induction items arbitrary: w)
  case Nil
  show ?case by (rule exI[of _ "env w"]) (simp add: deletes_def)
next
  case (Cons rc items)
  show ?case
  proof (cases "expired cutoff rc")
    case False
    then have "run_state (sweepLoop ops cutoff (rc # items)) w = run_state (sweepLoop ops cutoff items) w"
      by (auto simp: expired_def split: sum.splits)
    with Cons.IH[of w] False show ?thesis by simp
  next
    case True
    obtain x e1 where "delete_SalvageRecord ops rc (env w) = (x, e1)" by fastforce
    let ?w1 = "w\<lparr>trace := trace w @ [RecordDelete (rec_Namespace rc) (rec_Name rc)], env := e1\<rparr>"
    from True have "run_state (sweepLoop ops cutoff (rc # items)) w = run_state (sweepLoop ops cutoff items) ?w1"
      using \<open>delete_SalvageRecord ops rc (env w) = (x, e1)\<close> by (auto simp: expired_def)
    with Cons.IH[of ?w1] True show ?thesis by (auto simp: deletes_def)
  qed
qed

section \<open>Properties\<close>

text \<open>One sweep deletes exactly the listed records whose completion time can be read and lies more than
  the TTL in the past, in the order listed and whatever the deletions answer, and does nothing else;
  when the listing fails it deletes nothing.\<close>

theorem sweep_exact:
  assumes "list_SalvageRecords ops None (env w) = (l, e1)" and "time_Now ops e1 = (now, e2)"
  shows "\<exists>e'. run_state (sweep ops r) w = ((), w\<lparr>trace := trace w @ (case l of
       Inl e \<Rightarrow> [] | Inr items \<Rightarrow> deletes (filter (expired (now - rp_TTL r)) items)), env := e'\<rparr>)"
proof (cases l)
  case (Inl e)
  then show ?thesis using assms by (intro exI[of _ e1]) (simp add: sweep_def)
next
  case (Inr items)
  then show ?thesis using assms sweepLoop_exact[of ops "now - rp_TTL r" items "w\<lparr>env := e2\<rparr>"]
    by (auto simp: sweep_def)
qed

text \<open>A cluster at 100 seconds after the epoch with one record, written at the epoch.\<close>

definition example_reaper_ops :: "unit env_ops" where
  "example_reaper_ops = failing_ops\<lparr>time_Now := Pair (100 * Second),
     list_SalvageRecords := (\<lambda>q. Pair (Inr [salvageRecord 0 owned_pod ''sha256:x'' ''web:1'' ''a'' ''b'' ''Completed'' '''']))\<rparr>"

lemma parse_epoch: "parse_RFC3339 (format_RFC3339 0) = Inr 0"
  using parse_format[of 0] by (simp add: year10000_def Second_def)

theorem sweep_exact_witness:
  "\<exists>e'. run_state (sweep example_reaper_ops (NewReaper Second 1)) (init_world ()) =
     ((), (init_world ())\<lparr>trace := [RecordDelete ''prod'' ''web-1-x''], env := e'\<rparr>)"
proof -
  have "shortDigest ''sha256:x'' = ''x''" by code_simp
  then show ?thesis
    using sweep_exact[of example_reaper_ops "init_world ()" _ "()" "100 * Second" "()" "NewReaper Second 1"]
    by (simp add: example_reaper_ops_def init_world_def expired_def deletes_def NewReaper_def salvageRecord_def
        owned_pod_def Second_def failing_ops_def parse_epoch)
qed

text \<open>C11: a record lives as long as promised. The record that is written at time \<open>t\<close> (up to the year 9999) carries the time in
  RFC 3339, in whole seconds; a later sweep that sees it deletes it exactly if more than the TTL has passed
  since then, and deletes nothing but records that it sees.\<close>

theorem record_lifetime:
  assumes t: "0 \<le> t" "t < year10000" "time_Now ops (env w) = (t, e0)"
    and create: "run_state (createSalvageRecord ops pod d img sn tn phase err) w = (x, w1)"
    and items: "list_SalvageRecords ops None (env w2) = (Inr items, e1)" "time_Now ops e1 = (now, e2)"
    and sweep: "run_state (sweep ops r) w2 = (u, w3)"
  shows "\<exists>rc gone. trace w1 = trace w @ [RecordCreate rc] \<and> trace w3 = trace w2 @ deletes gone \<and> subseq gone items
     \<and> (rc \<in> set items \<longrightarrow> (rc \<in> set gone \<longleftrightarrow> t - t mod Second + rp_TTL r < now))"
proof -
  let ?rc = "salvageRecord t pod d img sn tn phase err"
  have "trace w1 = trace w @ [RecordCreate ?rc]"
    using create t(3) by (auto simp: createSalvageRecord_def Let_def split: prod.splits)
  moreover have "expired (now - rp_TTL r) ?rc \<longleftrightarrow> t - t mod Second + rp_TTL r < now"
    using parse_format[OF t(1,2)] by (auto simp: expired_def salvageRecord_def)
  moreover have "trace w3 = trace w2 @ deletes (filter (expired (now - rp_TTL r)) items)"
    using sweepLoop_exact[of ops "now - rp_TTL r" items "w2\<lparr>env := e2\<rparr>"] items sweep by (auto simp: sweep_def)
  ultimately show ?thesis
    by (intro exI[of _ ?rc] exI[of _ "filter (expired (now - rp_TTL r)) items"]) (simp add: subseq_filter_left)
qed

theorem record_lifetime_witness:
  "\<exists>rc. trace (snd (run_state (createSalvageRecord (example_reaper_ops\<lparr>time_Now := Pair 0\<rparr>) owned_pod ''sha256:x'' ''web:1'' ''a'' ''b''
       ''Completed'' '''') (init_world ()))) = [RecordCreate rc]"
  using record_lifetime[OF _ _ _ prod.collapse[symmetric] _ _ prod.collapse[symmetric], where t = 0 and ops = "example_reaper_ops\<lparr>time_Now := Pair 0\<rparr>"
      and w = "init_world ()" and pod = owned_pod and d = "''sha256:x''" and img = "''web:1''" and sn = "''a''" and tn = "''b''"
      and phase = "''Completed''" and err = "''''" and ?w2.0 = "init_world ()"]
  by (simp add: example_reaper_ops_def init_world_def year10000_def Second_def) blast

text \<open>A record without a completion time is never deleted, by any number of sweeps: if the API server
  does not store the status given at creation, the records accumulate.\<close>

theorem statusless_records_stay:
  assumes "\<And>e l. fst (list_SalvageRecords ops None e) = Inr l \<Longrightarrow> \<forall>rc \<in> set l. CompletedAt (rec_Status rc) = ''''"
  shows "trace (snd (run_state (Start ops r n) w)) = trace w"
proof -
  have sw: "rel_act (keeps trace) (sweep ops r)"
    unfolding rel_act_def keeps_def
  proof
    fix w :: "'a world"
    obtain l e1 where l: "list_SalvageRecords ops None (env w) = (l, e1)" by fastforce
    obtain now e2 where now: "time_Now ops e1 = (now, e2)" by fastforce
    show "trace (snd (run_state (sweep ops r) w)) = trace w"
    proof (cases l)
      case (Inr items)
      with assms[of "env w"] l have "filter (expired (now - rp_TTL r)) items = []"
        by (auto simp: expired_def filter_empty_conv)
      with l now Inr sweepLoop_exact[of ops "now - rp_TTL r" items "w\<lparr>env := e2\<rparr>"] show ?thesis
        by (auto simp: sweep_def deletes_def)
    qed (use l in \<open>simp add: sweep_def\<close>)
  qed
  have "rel_act (keeps trace) (ticks ops r n)"
  proof (induction n)
    case (Suc n)
    then show ?case unfolding ticks.simps by (intro kp.rel_rules sw)
  qed (simp add: kp.rel_return)
  then have "rel_act (keeps trace) (Start ops r n)"
    unfolding Start_def by (intro kp.rel_rules sw)
  then show ?thesis by (simp add: rel_act_def keeps_def)
qed

theorem statusless_records_stay_witness:
  "trace (snd (run_state (Start (example_reaper_ops\<lparr>list_SalvageRecords := (\<lambda>q. Pair (Inr
       [salvageRecord 0 owned_pod ''sha256:x'' ''web:1'' ''a'' ''b'' '''' ''''
          \<lparr>rec_Status := \<lparr>Phase = '''', CompletedAt = '''', StatusError = ''''\<rparr>\<rparr>]))\<rparr>) (NewReaper 1 1) 3) (init_world ()))) = []"
  by (subst statusless_records_stay) (auto simp: init_world_def)

end
