(* ===== verification/Go_Duration.thy ===== *)
theory Go_Duration
  imports Go_Time Go_Json "HOL-Library.Log_Nat"
begin

text \<open>
  What \<open>cmd/tote\<close> uses of Go's durations: \<open>Duration.String\<close>, which gives the flags their default text,
  and \<open>time.ParseDuration\<close>, which reads them. A duration is its nanoseconds. The parser works on
  unsigned 64-bit integers, here natural numbers with the one addition that can wrap written modulo
  \<open>2 ^ 64\<close>, and computes the fraction of a unit in double precision, here rationals as pairs of a
  numerator and a denominator that every operation rounds to 53 bits, ties to even. (The range of
  the exponent plays no role: a quotient small enough to leave it contributes no nanosecond.)
\<close>

section \<open>Formatting\<close>

fun fmtFracLoop :: "nat \<Rightarrow> bool \<Rightarrow> string \<Rightarrow> nat \<Rightarrow> string \<times> bool \<times> nat" where
  "fmtFracLoop 0 shown acc v = (acc, shown, v)"
| "fmtFracLoop (Suc p) shown acc v =
     (let shown' = (shown \<or> v mod 10 \<noteq> 0)
      in fmtFracLoop p shown' (if shown' then char_of (48 + v mod 10) # acc else acc) (v div 10))"

definition fmtFrac :: "nat \<Rightarrow> nat \<Rightarrow> string \<times> nat" where
  "fmtFrac v prec =
     (case fmtFracLoop prec False [] v of (s, shown, v') \<Rightarrow> (if shown then CHR ''.'' # s else s, v'))"

definition micro :: string where
  "micro = [CHR 0xC2, CHR 0xB5]"

definition format_duration :: "nat \<Rightarrow> string" where
  "format_duration u =
     (if u < 1000000000 then
        (if u = 0 then ''0s''
         else if u < 1000 then (case fmtFrac u 0 of (s, u') \<Rightarrow> fmt_nat u' @ s @ ''ns'')
         else if u < 1000000 then (case fmtFrac u 3 of (s, u') \<Rightarrow> fmt_nat u' @ s @ micro @ ''s'')
         else (case fmtFrac u 6 of (s, u') \<Rightarrow> fmt_nat u' @ s @ ''ms''))
      else
        (case fmtFrac u 9 of (s, secs) \<Rightarrow>
           let mins = secs div 60; hours = mins div 60
           in (if mins > 0 then (if hours > 0 then fmt_nat hours @ ''h'' else '''') @ fmt_nat (mins mod 60) @ ''m'' else '''')
              @ fmt_nat (secs mod 60) @ s @ ''s''))"

definition Duration_String :: "int \<Rightarrow> string" where
  "Duration_String d = (if d < 0 then ''-'' @ format_duration (nat (- d)) else format_duration (nat d))"

section \<open>Double precision\<close>

definition round_even :: "nat \<Rightarrow> nat \<Rightarrow> nat" where
  "round_even a b =
     (let q = a div b; r = a mod b
      in if 2 * r < b \<or> (2 * r = b \<and> even q) then q else Suc q)"

definition round53 :: "nat \<times> nat \<Rightarrow> nat \<times> nat" where
  "round53 x =
     (case x of (a, b) \<Rightarrow>
        let k = 53 + floorlog 2 b;
            e = floorlog 2 (a * 2 ^ k div b) - 53
        in (round_even (a * 2 ^ k) (b * 2 ^ e) * 2 ^ e, 2 ^ k))"

definition float_times :: "nat \<times> nat \<Rightarrow> nat \<times> nat \<Rightarrow> nat \<times> nat" where
  "float_times x y = round53 (fst x * fst y, snd x * snd y)"

definition float_div :: "nat \<times> nat \<Rightarrow> nat \<times> nat \<Rightarrow> nat \<times> nat" where
  "float_div x y = round53 (fst x * snd y, snd x * fst y)"

definition float_of :: "nat \<Rightarrow> nat \<times> nat" where
  "float_of n = round53 (n, 1)"

definition trunc :: "nat \<times> nat \<Rightarrow> nat" where
  "trunc x = fst x div snd x"

section \<open>Parsing\<close>

definition quoteByte :: "char \<Rightarrow> string" where
  "quoteByte c =
     (if 0x80 \<le> code c \<or> code c < 0x20 then [CHR 0x5C, CHR ''x'', hex (code c div 16), hex (code c mod 16)]
      else if c = CHR 0x22 \<or> c = CHR 0x5C then [CHR 0x5C, c] else [c])"

definition quoteDuration :: "string \<Rightarrow> string" where
  "quoteDuration s = CHR 0x22 # concat (map quoteByte s) @ [CHR 0x22]"

definition invalidDuration :: "string \<Rightarrow> err" where
  "invalidDuration orig = errorf (''time: invalid duration '' @ quoteDuration orig)"

fun leadingInt :: "nat \<Rightarrow> string \<Rightarrow> (nat \<times> string) option" where
  "leadingInt x [] = Some (x, [])"
| "leadingInt x (c # cs) =
     (if \<not> is_digit c then Some (x, c # cs)
      else if x > 2 ^ 63 div 10 then None
      else if x * 10 + digit_val c > 2 ^ 63 then None
      else leadingInt (x * 10 + digit_val c) cs)"

fun leadingFraction :: "nat \<Rightarrow> nat \<times> nat \<Rightarrow> bool \<Rightarrow> string \<Rightarrow> nat \<times> (nat \<times> nat) \<times> string" where
  "leadingFraction x scale overflow [] = (x, scale, [])"
| "leadingFraction x scale overflow (c # cs) =
     (if \<not> is_digit c then (x, scale, c # cs)
      else if overflow \<or> x > (2 ^ 63 - 1) div 10 \<or> x * 10 + digit_val c > 2 ^ 63 then leadingFraction x scale True cs
      else leadingFraction (x * 10 + digit_val c) (float_times scale (float_of 10)) False cs)"

definition unitMap :: "string \<Rightarrow> nat option" where
  "unitMap u =
     map_of [(''ns'', 1), (''us'', 1000), (micro @ ''s'', 1000), ([CHR 0xCE, CHR 0xBC] @ ''s'', 1000),
             (''ms'', 1000000), (''s'', 1000000000), (''m'', 60000000000), (''h'', 3600000000000)] u"

definition unitChar :: "char \<Rightarrow> bool" where
  "unitChar c \<longleftrightarrow> \<not> (c = CHR ''.'' \<or> is_digit c)"

definition parseFraction :: "string \<Rightarrow> (nat \<times> (nat \<times> nat) \<times> string) \<times> bool" where
  "parseFraction s =
     (if s \<noteq> [] \<and> hd s = CHR ''.''
      then (case leadingFraction 0 (1, 1) False (tl s) of
              (f, scale, s') \<Rightarrow> ((f, scale, s'), length (tl s) \<noteq> length s'))
      else ((0, (1, 1), s), False))"

definition scaleUnit :: "string \<Rightarrow> nat \<Rightarrow> nat \<Rightarrow> nat \<times> nat \<Rightarrow> nat \<Rightarrow> nat result" where
  "scaleUnit orig v f scale unit =
     (if v > 2 ^ 63 div unit then Inl (invalidDuration orig)
      else if f > 0 then
        (let v' = v * unit + trunc (float_times (float_of f) (float_div (float_of unit) scale))
         in if v' > 2 ^ 63 then Inl (invalidDuration orig) else Inr v')
      else Inr (v * unit))"

text \<open>One round of the loop: a number, its fraction and its unit.\<close>

definition durationTerm :: "string \<Rightarrow> string \<Rightarrow> (nat \<times> string) result" where
  "durationTerm orig s =
     (if s = [] \<or> unitChar (hd s) then Inl (invalidDuration orig)
      else case leadingInt 0 s of
        None \<Rightarrow> Inl (invalidDuration orig)
      | Some (v, s1) \<Rightarrow>
          (case parseFraction s1 of ((f, scale, s2), post) \<Rightarrow>
             if length s = length s1 \<and> \<not> post then Inl (invalidDuration orig)
             else let u = takeWhile unitChar s2; s3 = dropWhile unitChar s2
                  in if u = [] then Inl (errorf (''time: missing unit in duration '' @ quoteDuration orig))
                     else case unitMap u of
                       None \<Rightarrow> Inl (errorf (''time: unknown unit '' @ quoteDuration u @ '' in duration '' @ quoteDuration orig))
                     | Some unit \<Rightarrow>
                         (case scaleUnit orig v f scale unit of Inl e \<Rightarrow> Inl e | Inr v' \<Rightarrow> Inr (v', s3))))"

lemma leadingInt_length: "leadingInt x s = Some (y, r) \<Longrightarrow> length r \<le> length s"
  by (induction x s rule: leadingInt.induct) (auto split: if_splits)

lemma leadingFraction_length: "leadingFraction x sc b s = (y, sc', r) \<Longrightarrow> length r \<le> length s"
  by (induction x sc b s rule: leadingFraction.induct) (force split: if_splits)+

lemma parseFraction_length: "parseFraction s = ((f, sc, r), post) \<Longrightarrow> length r \<le> length s"
  by (auto simp: parseFraction_def split: if_splits prod.splits dest: leadingFraction_length)

lemma durationTerm_length: "durationTerm orig s = Inr (v, s') \<Longrightarrow> length s' < length s"
proof -
  assume run: "durationTerm orig s = Inr (v, s')"
  then obtain x s1 f sc s2 post where 1: "leadingInt 0 s = Some (x, s1)" and 2: "parseFraction s1 = ((f, sc, s2), post)"
    and 3: "takeWhile unitChar s2 \<noteq> []" "s' = dropWhile unitChar s2"
    by (auto simp: durationTerm_def Let_def split: if_splits option.splits sum.splits prod.splits)
  have "length s' < length s2" using 3 by (metis add_0 le_neq_implies_less length_0_conv length_append length_dropWhile_le takeWhile_dropWhile_id add_cancel_right_left)
  with leadingInt_length[OF 1] parseFraction_length[OF 2] show ?thesis by simp
qed

function durationLoop :: "string \<Rightarrow> nat \<Rightarrow> string \<Rightarrow> nat result" where
  "durationLoop orig d s =
     (if s = [] then Inr d
      else case durationTerm orig s of
        Inl e \<Rightarrow> Inl e
      | Inr (v, s') \<Rightarrow>
          if (d + v) mod 2 ^ 64 > 2 ^ 63 then Inl (invalidDuration orig)
          else durationLoop orig ((d + v) mod 2 ^ 64) s')"
  by pat_completeness auto
termination
  by (relation "measure (\<lambda>(orig, d, s). length s)") (auto dest: durationTerm_length)

declare durationLoop.simps [simp del]

definition ParseDuration :: "string \<Rightarrow> int result" where
  "ParseDuration orig =
     (let neg = (orig \<noteq> [] \<and> hd orig = CHR ''-'');
          s = (if orig \<noteq> [] \<and> (hd orig = CHR ''-'' \<or> hd orig = CHR ''+'') then tl orig else orig)
      in if s = ''0'' then Inr 0
         else if s = [] then Inl (invalidDuration orig)
         else case durationLoop orig 0 s of
           Inl e \<Rightarrow> Inl e
         | Inr d \<Rightarrow> if neg then Inr (- int d)
                    else if d > 2 ^ 63 - 1 then Inl (invalidDuration orig) else Inr (int d))"

section \<open>What was formatted reads back\<close>

text \<open>A quotient that is a whole number below \<open>2 ^ 53\<close> is not rounded. \<open>exactly x n\<close>: the pair denotes \<open>n\<close>.\<close>

definition exactly :: "nat \<times> nat \<Rightarrow> nat \<Rightarrow> bool" where
  "exactly x n \<longleftrightarrow> snd x > 0 \<and> fst x = n * snd x"

lemma round53_exact:
  assumes "exactly x n" and "n < 2 ^ 53"
  shows "exactly (round53 x) n"
proof -
  obtain a b where x: "x = (a, b)" by fastforce
  have b: "b > 0" and a: "a = n * b" using assms(1) by (simp_all add: exactly_def x)
  define k where "k = 53 + floorlog 2 b"
  define e where "e = floorlog 2 (a * 2 ^ k div b) - 53"
  have "a * 2 ^ k div b = n * 2 ^ k" using b by (simp add: a)
  moreover have "n * 2 ^ k < 2 ^ (53 + k)" using assms(2) by (simp add: power_add)
  ultimately have "floorlog 2 (a * 2 ^ k div b) \<le> 53 + k" by (intro floorlog_leI) simp_all
  then have "e \<le> k" by (simp add: e_def)
  then have "(2::nat) ^ k = 2 ^ e * 2 ^ (k - e)" by (simp flip: power_add)
  then have "a * 2 ^ k = (n * 2 ^ (k - e)) * (b * 2 ^ e)" by (simp add: a)
  then have "round_even (a * 2 ^ k) (b * 2 ^ e) = n * 2 ^ (k - e)" using b by (simp add: round_even_def Let_def)
  then have "round53 x = (n * 2 ^ (k - e) * 2 ^ e, 2 ^ k)" by (simp add: round53_def x k_def e_def Let_def)
  with \<open>2 ^ k = 2 ^ e * 2 ^ (k - e)\<close> show ?thesis by (simp add: exactly_def)
qed

lemma float_of_exact: "n < 2 ^ 53 \<Longrightarrow> exactly (float_of n) n"
  unfolding float_of_def by (rule round53_exact) (simp_all add: exactly_def)

lemma float_times_exact:
  "exactly x m \<Longrightarrow> exactly y n \<Longrightarrow> m * n < 2 ^ 53 \<Longrightarrow> exactly (float_times x y) (m * n)"
  unfolding float_times_def by (rule round53_exact) (simp_all add: exactly_def)

lemma float_div_exact:
  "exactly x (m * n) \<Longrightarrow> exactly y n \<Longrightarrow> 0 < n \<Longrightarrow> m < 2 ^ 53 \<Longrightarrow> exactly (float_div x y) m"
  unfolding float_div_def by (rule round53_exact) (simp_all add: exactly_def)

lemma trunc_exact: "exactly x n \<Longrightarrow> trunc x = n"
  by (simp add: exactly_def trunc_def)

text \<open>Decimal digits.\<close>

lemma fmt_nat_digits: "list_all is_digit (fmt_nat n)"
proof (induction n rule: fmt_nat.induct)
  case (1 n)
  then show ?case by (cases "n < 10") (simp_all add: fmt_nat_small fmt_nat_step)
qed

lemma atoi_fmt_nat: "atoi (fmt_nat n) = n"
proof (induction n rule: fmt_nat.induct)
  case (1 n)
  then show ?case
    by (cases "n < 10") (simp_all add: fmt_nat_small fmt_nat_step atoi_snoc, simp add: atoi_def)
qed

definition value_from :: "nat \<Rightarrow> string \<Rightarrow> nat" where
  "value_from x ds = foldl (\<lambda>n c. 10 * n + digit_val c) x ds"

lemma value_from_ge: "x \<le> value_from x ds"
proof (induction ds arbitrary: x)
  case (Cons d ds)
  have "x \<le> 10 * x + digit_val d" by simp
  also note Cons.IH[of "10 * x + digit_val d"]
  finally show ?case by (simp add: value_from_def)
qed (simp add: value_from_def)

definition stops :: "string \<Rightarrow> bool" where
  "stops r \<longleftrightarrow> r = [] \<or> \<not> is_digit (hd r)"

lemma leadingInt_digits:
  "list_all is_digit ds \<Longrightarrow> stops r \<Longrightarrow> value_from x ds \<le> 2 ^ 63 \<Longrightarrow> leadingInt x (ds @ r) = Some (value_from x ds, r)"
proof (induction ds arbitrary: x)
  case Nil
  then show ?case by (cases r) (simp_all add: stops_def value_from_def)
next
  case (Cons d ds)
  let ?y = "x * 10 + digit_val d"
  have v: "value_from x (d # ds) = value_from ?y ds" by (simp add: value_from_def mult.commute)
  then have y: "?y \<le> 2 ^ 63" using Cons.prems(3) value_from_ge[of ?y ds] by linarith
  then have "x \<le> 2 ^ 63 div 10" by simp
  with y Cons show ?case by (simp add: v)
qed

lemma leadingFraction_digits:
  "list_all is_digit ds \<Longrightarrow> stops r \<Longrightarrow> exactly sc (10 ^ j) \<Longrightarrow> j + length ds \<le> 9 \<Longrightarrow> x < 10 ^ j \<Longrightarrow>
   \<exists>sc'. leadingFraction x sc False (ds @ r) = (value_from x ds, sc', r) \<and> exactly sc' (10 ^ (j + length ds))"
proof (induction ds arbitrary: x sc j)
  case Nil
  then show ?case by (cases r) (simp_all add: stops_def value_from_def)
next
  case (Cons d ds)
  let ?y = "x * 10 + digit_val d"
  have d: "digit_val d < 10" using Cons.prems(1) by (auto simp: is_digit_def digit_val_def)
  have p: "(10::nat) ^ Suc j \<le> 10 ^ 9" using Cons.prems(4) by (intro power_increasing) simp_all
  have y: "?y < 10 ^ Suc j" using Cons.prems(5) d by simp
  then have "?y < 10 ^ 9" using p by linarith
  then have small: "\<not> x > (2 ^ 63 - 1) div 10" "\<not> ?y > 2 ^ 63" by simp_all
  have "exactly (float_times sc (float_of 10)) (10 ^ j * 10)"
    using p Cons.prems(3) by (intro float_times_exact float_of_exact) simp_all
  then have "exactly (float_times sc (float_of 10)) (10 ^ Suc j)" by (simp add: mult.commute)
  from Cons.IH[OF _ Cons.prems(2) this _ y] Cons.prems(1,4) small show ?case
    by (simp add: value_from_def mult.commute)
qed

text \<open>The fraction a formatted duration has, and the nanoseconds it stands for in a unit.\<close>

definition fraction_of :: "nat \<Rightarrow> string \<Rightarrow> nat \<Rightarrow> bool" where
  "fraction_of unit s n \<longleftrightarrow> s = [] \<and> n = 0 \<or>
     (\<exists>k f q. k \<le> 9 \<and> 0 < f \<and> f < 10 ^ k \<and> s = CHR ''.'' # digits k f \<and> unit = q * 10 ^ k \<and> n = f * q)"

lemma fmtFracLoop_shown: "fmtFracLoop p True acc v = (digits p v @ acc, True, v div 10 ^ p)"
  by (induction p arbitrary: acc v) (simp_all add: Let_def div_mult2_eq)

lemma fmtFracLoop_hidden:
  "(v mod 10 ^ p = 0 \<and> fmtFracLoop p False [] v = ([], False, v div 10 ^ p)) \<or>
   (\<exists>k w. k \<le> p \<and> v = w * 10 ^ (p - k) \<and> w mod 10 ^ k \<noteq> 0 \<and> fmtFracLoop p False [] v = (digits k w, True, v div 10 ^ p))"
proof (induction p arbitrary: v)
  case (Suc p)
  show ?case
  proof (cases "v mod 10 = 0")
    case True
    then obtain u where u: "v = u * 10" by auto
    from Suc[of u] show ?thesis
    proof (elim disjE exE conjE)
      assume "u mod 10 ^ p = 0" "fmtFracLoop p False [] u = ([], False, u div 10 ^ p)"
      then show ?thesis by (simp add: u mult.commute mult_mod_right[symmetric])
    next
      fix k w
      assume k: "k \<le> p" "u = w * 10 ^ (p - k)" "w mod 10 ^ k \<noteq> 0" "fmtFracLoop p False [] u = (digits k w, True, u div 10 ^ p)"
      then have "fmtFracLoop (Suc p) False [] v = (digits k w, True, v div 10 ^ Suc p)" by (simp add: u)
      moreover have "v = w * 10 ^ (Suc p - k)" using k(1,2) by (simp add: u Suc_diff_le)
      ultimately show ?thesis using k by (intro disjI2 exI[of _ k] exI[of _ w]) simp
    qed
  next
    case False
    then have "fmtFracLoop (Suc p) False [] v = (digits (Suc p) v, True, v div 10 ^ Suc p)"
      by (simp add: fmtFracLoop_shown div_mult2_eq)
    moreover have "v mod 10 ^ Suc p \<noteq> 0" using False by (metis dvd_def mod_0_imp_dvd mod_mod_cancel power_Suc dvd_imp_mod_0 mod_0)
    ultimately show ?thesis by (intro disjI2 exI[of _ "Suc p"] exI[of _ v]) simp
  qed
qed simp

lemma digits_mod: "digits k (w mod 10 ^ k) = digits k w"
proof (induction k arbitrary: w)
  case (Suc k)
  have "w mod 10 ^ Suc k div 10 = w div 10 mod 10 ^ k" by (simp add: mod_mult2_eq)
  moreover have "w mod 10 ^ Suc k mod 10 = w mod 10" by (simp add: mod_mod_cancel)
  ultimately show ?case using Suc[of "w div 10"] by simp
qed simp

lemma fmtFrac_fraction:
  assumes "fmtFrac v p = (s, v')" and "p \<le> 9"
  shows "v' = v div 10 ^ p" and "fraction_of (10 ^ p) s (v mod 10 ^ p)"
proof -
  have "v' = v div 10 ^ p \<and> fraction_of (10 ^ p) s (v mod 10 ^ p)"
    using fmtFracLoop_hidden[of v p]
  proof (elim disjE exE conjE)
    assume "v mod 10 ^ p = 0" "fmtFracLoop p False [] v = ([], False, v div 10 ^ p)"
    then show ?thesis using assms by (simp add: fmtFrac_def fraction_of_def)
  next
    fix k w
    assume k: "k \<le> p" "v = w * 10 ^ (p - k)" "w mod 10 ^ k \<noteq> 0" "fmtFracLoop p False [] v = (digits k w, True, v div 10 ^ p)"
    have p: "(10::nat) ^ p = 10 ^ (p - k) * 10 ^ k" using k(1) by (simp flip: power_add)
    have "v mod 10 ^ p = (w mod 10 ^ k) * 10 ^ (p - k)"
      unfolding k(2) p by (subst mult.commute) (simp add: mult_mod_right[symmetric] mult.commute)
    moreover have "s = CHR ''.'' # digits k (w mod 10 ^ k)" "v' = v div 10 ^ p"
      using assms(1) k(4) by (simp_all add: fmtFrac_def digits_mod)
    ultimately show ?thesis using assms(2) k(1,3) p unfolding fraction_of_def
      by (intro conjI disjI2 exI[of _ k] exI[of _ "w mod 10 ^ k"] exI[of _ "10 ^ (p - k)"]) simp_all
  qed
  then show "v' = v div 10 ^ p" "fraction_of (10 ^ p) s (v mod 10 ^ p)" by simp_all
qed

lemma unit_stops: "list_all unitChar us \<Longrightarrow> us \<noteq> [] \<Longrightarrow> stops (us @ r) \<and> hd (us @ r) \<noteq> CHR ''.''"
  by (cases us) (simp_all add: stops_def unitChar_def)

lemma value_from_0: "value_from 0 ds = atoi ds"
  by (simp add: value_from_def atoi_def)

lemma parseFraction_unit:
  assumes s: "fraction_of unit s n" and us: "list_all unitChar us" "us \<noteq> []" and unit: "0 < unit" "unit < 2 ^ 53"
    and fit: "v * unit + n \<le> 2 ^ 63"
  shows "\<exists>f scale post. parseFraction (s @ us @ r) = ((f, scale, us @ r), post) \<and> scaleUnit orig v f scale unit = Inr (v * unit + n)"
proof -
  have v: "\<not> v > 2 ^ 63 div unit" using fit unit(1) by (simp add: less_eq_div_iff_mult_less_eq not_less)
  from s[unfolded fraction_of_def] show ?thesis
  proof (elim disjE exE conjE)
    assume "s = []" "n = 0"
    then show ?thesis using unit_stops[OF us, of r] us(2) v by (simp add: parseFraction_def scaleUnit_def) blast
  next
    fix k f q
    assume k: "k \<le> 9" "0 < f" "f < 10 ^ k" "s = CHR ''.'' # digits k f" "unit = q * 10 ^ k" "n = f * q"
    have d: "value_from 0 (digits k f) = f" by (simp add: value_from_0 atoi_digits k(3))
    have "\<exists>sc. leadingFraction 0 (1, 1) False (digits k f @ us @ r) = (value_from 0 (digits k f), sc, us @ r) \<and> exactly sc (10 ^ (0 + length (digits k f)))"
      by (rule leadingFraction_digits) (use unit_stops[OF us, of r] k(1) in \<open>simp_all add: digits_digit exactly_def\<close>)
    then obtain sc where sc: "leadingFraction 0 (1, 1) False (digits k f @ us @ r) = (f, sc, us @ r)" "exactly sc (10 ^ k)"
      by (auto simp: d)
    have "f * q < 2 ^ 53" "q < 2 ^ 53" "f < 2 ^ 53"
    proof -
      have "0 < q" using unit(1) k(5) by (cases q) simp_all
      have "f * q \<le> unit" using k(3) by (simp add: k(5) mult.commute)
      then show "f * q < 2 ^ 53" using unit(2) by simp
      moreover have "q \<le> f * q" "f \<le> f * q" using k(2) \<open>0 < q\<close> by simp_all
      ultimately show "q < 2 ^ 53" "f < 2 ^ 53" by linarith+
    qed
    moreover have "exactly (float_of unit) (q * 10 ^ k)" using float_of_exact[OF unit(2)] k(5) by simp
    ultimately have "exactly (float_times (float_of f) (float_div (float_of unit) sc)) (f * q)"
      using sc(2) by (intro float_times_exact float_of_exact float_div_exact[of _ q "10 ^ k"]) simp_all
    then have "scaleUnit orig v f sc unit = Inr (v * unit + n)"
      using v fit k(2,6) by (simp add: scaleUnit_def Let_def trunc_exact)
    moreover have "parseFraction (s @ us @ r) = ((f, sc, us @ r), length (digits k f @ us @ r) \<noteq> length (us @ r))"
      using sc(1) by (simp add: parseFraction_def k(4))
    ultimately show ?thesis by blast
  qed
qed

text \<open>One formatted number with its unit is one round of the loop.\<close>

lemma durationTerm_fmt:
  assumes s: "fraction_of unit s n" and us: "list_all unitChar us" "us \<noteq> []" "unitMap us = Some unit"
    and unit: "0 < unit" "unit < 2 ^ 53" and fit: "v * unit + n \<le> 2 ^ 63" and r: "r = [] \<or> \<not> unitChar (hd r)"
  shows "durationTerm orig (fmt_nat v @ s @ us @ r) = Inr (v * unit + n, r)"
proof -
  have st: "stops (s @ us @ r)"
    using s unit_stops[OF us(1,2), of r] by (auto simp: fraction_of_def stops_def is_digit_def)
  have "v \<le> v * unit + n" using unit(1) by (cases unit) simp_all
  with fit have "value_from 0 (fmt_nat v) \<le> 2 ^ 63" by (simp add: value_from_0 atoi_fmt_nat)
  from leadingInt_digits[OF fmt_nat_digits st this] have int: "leadingInt 0 (fmt_nat v @ s @ us @ r) = Some (v, s @ us @ r)"
    by (simp add: value_from_0 atoi_fmt_nat)
  have hd: "\<not> unitChar (hd (fmt_nat v @ s @ us @ r))"
    using fmt_nat_digits[of v] by (cases "fmt_nat v") (simp_all add: unitChar_def)
  have tw: "takeWhile unitChar (us @ r) = us" "dropWhile unitChar (us @ r) = r"
    using us(1) r by (cases r; auto simp: list_all_iff)+
  from parseFraction_unit[OF s us(1,2) unit fit, of r orig] obtain f sc post where
    "parseFraction (s @ us @ r) = ((f, sc, us @ r), post)" "scaleUnit orig v f sc unit = Inr (v * unit + n)" by blast
  then show ?thesis using int hd tw us(2,3) by (simp add: durationTerm_def)
qed

lemma durationLoop_fmt:
  assumes "fraction_of unit s n" and "list_all unitChar us" "us \<noteq> []" "unitMap us = Some unit"
    and "0 < unit" "unit < 2 ^ 53" and "d + (v * unit + n) \<le> 2 ^ 63" and "r = [] \<or> \<not> unitChar (hd r)"
  shows "durationLoop orig d (fmt_nat v @ s @ us @ r) = durationLoop orig (d + (v * unit + n)) r"
proof -
  have "durationTerm orig (fmt_nat v @ s @ us @ r) = Inr (v * unit + n, r)"
    by (rule durationTerm_fmt[OF assms(1-6) _ assms(8)]) (use assms(7) in simp)
  moreover have "(d + (v * unit + n)) mod 2 ^ 64 = d + (v * unit + n)" using assms(7) by simp
  ultimately show ?thesis using assms(7) by (subst durationLoop.simps) simp
qed

lemma durationLoop_Nil [simp]: "durationLoop orig d [] = Inr d"
  by (subst durationLoop.simps) simp

lemma whole: "fraction_of unit [] 0"
  by (simp add: fraction_of_def)

lemma unit_chars:
  "list_all unitChar ''ns''" "list_all unitChar (micro @ ''s'')" "list_all unitChar ''ms''"
  "list_all unitChar ''s''" "list_all unitChar ''m''" "list_all unitChar ''h''"
  by (simp_all add: unitChar_def is_digit_def micro_def)

lemma unit_values:
  "unitMap ''ns'' = Some (10 ^ 0)" "unitMap (micro @ ''s'') = Some (10 ^ 3)" "unitMap ''ms'' = Some (10 ^ 6)"
  "unitMap ''s'' = Some (10 ^ 9)" "unitMap ''m'' = Some 60000000000" "unitMap ''h'' = Some 3600000000000"
  by (simp_all add: unitMap_def micro_def)

lemma fmt_nat_head: "\<not> unitChar (hd (fmt_nat v @ r))"
  using fmt_nat_digits[of v] by (cases "fmt_nat v") (simp_all add: unitChar_def)

lemma format_second:
  assumes "u \<le> 2 ^ 63" and "fmtFrac u 9 = (s, secs)"
  shows "durationLoop orig 0 ((if secs div 60 > 0 then (if secs div 60 div 60 > 0 then fmt_nat (secs div 60 div 60) @ ''h'' else '''')
     @ fmt_nat (secs div 60 mod 60) @ ''m'' else '''') @ fmt_nat (secs mod 60) @ s @ ''s'') = Inr u"
proof -
  have secs: "secs = u div 10 ^ 9" and s: "fraction_of (10 ^ 9) s (u mod 10 ^ 9)" using fmtFrac_fraction[OF assms(2)] by simp_all
  define h m where "h = secs div 60 div 60" and "m = secs div 60 mod 60"
  have sum: "u = h * 3600000000000 + m * 60000000000 + (secs mod 60 * 10 ^ 9 + u mod 10 ^ 9)"
    using div_mod_decomp[of u "10 ^ 9"] div_mod_decomp[of secs 60] div_mod_decomp[of "secs div 60" 60]
    unfolding secs[symmetric] h_def[symmetric] m_def[symmetric] by simp
  have S: "durationLoop orig (h * 3600000000000 + m * 60000000000) (fmt_nat (secs mod 60) @ s @ ''s'' @ []) = Inr u"
    by (subst durationLoop_fmt[OF s unit_chars(4) _ unit_values(4)]) (use assms(1) sum in simp_all)
  have M: "durationLoop orig (h * 3600000000000) (fmt_nat m @ [] @ ''m'' @ fmt_nat (secs mod 60) @ s @ ''s'') = Inr u"
    by (subst durationLoop_fmt[OF whole unit_chars(5) _ unit_values(5)]) (use assms(1) sum S fmt_nat_head in simp_all)
  have H: "durationLoop orig 0 (fmt_nat h @ [] @ ''h'' @ fmt_nat m @ ''m'' @ fmt_nat (secs mod 60) @ s @ ''s'') = Inr u"
    by (subst durationLoop_fmt[OF whole unit_chars(6) _ unit_values(6)]) (use assms(1) sum M fmt_nat_head in simp_all)
  show ?thesis
  proof (cases "secs div 60 > 0")
    case True
    then show ?thesis using H M unfolding h_def[symmetric] m_def[symmetric] by (cases "h > 0") simp_all
  next
    case False
    then have "h = 0" "m = 0" by (simp_all add: h_def m_def)
    then show ?thesis using S False by simp
  qed
qed

lemma format_small:
  assumes "u \<le> 2 ^ 63" and "fmtFrac u p = (s, v)" and "p \<le> 9"
    and us: "list_all unitChar us" "us \<noteq> []" "unitMap us = Some (10 ^ p)"
  shows "durationLoop orig 0 (fmt_nat v @ s @ us) = Inr u"
proof -
  note f = fmtFrac_fraction[OF assms(2,3)]
  have u: "v * 10 ^ p + u mod 10 ^ p = u" unfolding f(1) by (rule div_mult_mod_eq)
  have "(10::nat) ^ p \<le> 10 ^ 9" using assms(3) by (intro power_increasing) simp_all
  then have "(10::nat) ^ p < 2 ^ 53" by simp
  from durationLoop_fmt[OF f(2) us _ this, of 0 v "[]" orig] u assms(1) show ?thesis by simp
qed

lemma durationLoop_format:
  assumes "u \<le> 2 ^ 63"
  shows "durationLoop orig 0 (format_duration u) = Inr u"
proof (cases "u < 1000000000")
  case False
  obtain s secs where "fmtFrac u 9 = (s, secs)" by fastforce
  with False format_second[OF assms this, of orig] show ?thesis by (simp add: format_duration_def Let_def)
next
  case True
  note small = format_small[OF assms, where orig = orig]
  have 0: "durationLoop orig 0 (fmt_nat 0 @ [] @ ''s'' @ []) = durationLoop orig (0 + (0 * 10 ^ 9 + 0)) []"
    by (rule durationLoop_fmt[OF whole unit_chars(4) _ unit_values(4)]) simp_all
  have z: "fmt_nat 0 = ''0''" by (simp add: fmt_nat_small zero_char)
  from 0 have "durationLoop orig 0 ''0s'' = Inr 0" by (simp add: z)
  with True small[OF _ _ unit_chars(1) _ unit_values(1)] small[OF _ _ unit_chars(2) _ unit_values(2)]
    small[OF _ _ unit_chars(3) _ unit_values(3)]
  show ?thesis by (auto simp: format_duration_def micro_def split: prod.splits)
qed

lemma format_duration_head: "\<exists>d ds. format_duration u = d # ds \<and> is_digit d"
proof -
  have "\<exists>d ds. fmt_nat n @ r = d # ds \<and> is_digit d" for n r
    using fmt_nat_digits[of n] by (cases "fmt_nat n") simp_all
  then show ?thesis by (auto simp: format_duration_def Let_def is_digit_def split: prod.splits)
qed

lemma format_duration_unit: "format_duration u \<noteq> ''0''"
proof -
  have "last (format_duration u) = CHR ''s''"
    by (auto simp: format_duration_def Let_def split: prod.splits)
  then show ?thesis by auto
qed

text \<open>Every duration Go can represent is read back from its text.\<close>

lemma ParseDuration_String:
  assumes "- (2 ^ 63) \<le> d" and "d < 2 ^ 63"
  shows "ParseDuration (Duration_String d) = Inr d"
proof -
  define u where "u = nat \<bar>d\<bar>"
  have u: "u \<le> 2 ^ 63" "d \<ge> 0 \<Longrightarrow> u < 2 ^ 63" using assms by (auto simp: u_def)
  obtain c cs where c: "format_duration u = c # cs" "is_digit c" using format_duration_head by blast
  then have sign: "c \<noteq> CHR ''-''" "c \<noteq> CHR ''+''" by (auto simp: is_digit_def)
  show ?thesis
  proof (cases "d < 0")
    case True
    then have "Duration_String d = CHR ''-'' # format_duration u" by (simp add: Duration_String_def u_def)
    with True durationLoop_format[OF u(1)] format_duration_unit[of u] c(1) show ?thesis
      by (simp add: ParseDuration_def Let_def u_def)
  next
    case False
    then have "Duration_String d = format_duration u" by (simp add: Duration_String_def u_def)
    with False durationLoop_format[OF u(1)] format_duration_unit[of u] c(1) sign u(2) show ?thesis
      by (auto simp: ParseDuration_def Let_def u_def)
  qed
qed

text \<open>What is read fits in 64 bits.\<close>

lemma durationLoop_bound: "durationLoop orig d s = Inr u \<Longrightarrow> d \<le> 2 ^ 63 \<Longrightarrow> u \<le> 2 ^ 63"
proof (induction orig d s rule: durationLoop.induct)
  case (1 orig d s)
  from "1.prems" show ?case
    by (subst (asm) durationLoop.simps) (auto split: if_splits sum.splits dest: "1.IH")
qed

lemma ParseDuration_bounds: "ParseDuration s = Inr d \<Longrightarrow> - (2 ^ 63) \<le> d \<and> d < 2 ^ 63"
  using durationLoop_bound[of s 0] by (fastforce simp: ParseDuration_def Let_def split: if_splits sum.splits)

end
