(* ===== verification/Cmd_Main.thy ===== *)
theory Cmd_Main
  imports Controller Reaper_Cleanup Go_Duration
begin

text \<open>
  \<open>cmd/tote/main.go\<close>: how the controller command builds its components from its flags, and the transform that
  strips pods before they enter the informer cache. The command-line parser, logging and schemes are left out;
  the manager and files are arguments (\<open>main_ops\<close>). Durations are printed and parsed by \<open>Go_Duration\<close>.
\<close>

section \<open>The cache transform\<close>

definition stripContainer :: "Container \<Rightarrow> Container" where
  "stripContainer c = c\<lparr>ctr_Command := None, ctr_Args := None, ctr_Env := None, ctr_EnvFrom := None,
     ctr_VolumeMounts := None, ctr_Ports := None, ctr_Resources := None, ctr_LivenessProbe := None,
     ctr_ReadinessProbe := None, ctr_StartupProbe := None, ctr_SecurityContext := None,
     ctr_ImagePullPolicy := None, ctr_TerminationMessagePath := None, ctr_TerminationMessagePolicy := None\<rparr>"

definition stripStatus :: "ContainerStatus \<Rightarrow> ContainerStatus" where
  "stripStatus s = s\<lparr>cs_Ready := False, cs_RestartCount := 0, cs_ContainerID := '''', cs_Started := None,
     cs_Running := None, cs_Terminated := None, cs_LastTerminationState := None\<rparr>"

definition stripPodFields :: "Pod \<Rightarrow> Pod" where
  "stripPodFields pod = pod\<lparr>pod_Volumes := None, pod_InitContainers := [], pod_SecurityContext := None,
     pod_ServiceAccountName := None, pod_SchedulerName := None, pod_DNSPolicy := None, pod_RestartPolicy := None,
     pod_TerminationGracePeriodSeconds := None, pod_Containers := map stripContainer (pod_Containers pod),
     pod_Conditions := None, pod_PodIPs := None, pod_HostIP := None, pod_PodIP := '''', pod_StartTime := None,
     pod_ContainerStatuses := map stripStatus (pod_ContainerStatuses pod),
     pod_InitContainerStatuses := map stripStatus (pod_InitContainerStatuses pod),
     pod_Meta := (pod_Meta pod)\<lparr>meta_ManagedFields := None\<rparr>\<rparr>"

text \<open>The client that \<open>mgr.GetClient()\<close> returns reads pods from the informer cache, where every pod has been
  through the transform.\<close>

definition cached :: "'e env_ops \<Rightarrow> 'e env_ops" where
  "cached ops = ops
     \<lparr>get_Pod := (\<lambda>ns n e. case get_Pod ops ns n e of
         (Inl er, e') \<Rightarrow> (Inl er, e') | (Inr pod, e') \<Rightarrow> (Inr (stripPodFields pod), e')),
      list_Pods := (\<lambda>ns l e. case list_Pods ops ns l e of
         (Inl er, e') \<Rightarrow> (Inl er, e') | (Inr pods, e') \<Rightarrow> (Inr (map stripPodFields pods), e'))\<rparr>"

section \<open>The controller command\<close>

record controller_flags =
  fl_enabled :: bool
  fl_maxConcurrentSalvages :: int
  fl_sessionTTL :: string
  fl_agentNamespace :: string
  fl_agentGRPCPort :: int
  fl_maxImageSize :: int
  fl_backupRegistry :: string
  fl_backupRegistrySecret :: string
  fl_backupRegistryInsecure :: bool
  fl_tlsCert :: string
  fl_tlsKey :: string
  fl_tlsCA :: string
  fl_salvageRecordTTL :: string
  fl_webhookURL :: string
  fl_webhookEvents :: string
  fl_registryResolve :: bool
  fl_registryResolveTimeout :: string
  fl_registryResolveCA :: string
  fl_registryInsecure :: bool

definition default_flags :: controller_flags where
  "default_flags = \<lparr>fl_enabled = True, fl_maxConcurrentSalvages = DefaultMaxConcurrentSalvages, fl_sessionTTL = Duration_String DefaultSessionTTL,
     fl_agentNamespace = '''', fl_agentGRPCPort = DefaultAgentGRPCPort, fl_maxImageSize = DefaultMaxImageSize,
     fl_backupRegistry = '''', fl_backupRegistrySecret = '''', fl_backupRegistryInsecure = False,
     fl_tlsCert = '''', fl_tlsKey = '''', fl_tlsCA = '''', fl_salvageRecordTTL = ''168h'', fl_webhookURL = '''',
     fl_webhookEvents = '''', fl_registryResolve = False, fl_registryResolveTimeout = Duration_String DefaultRegistryResolveTimeout,
     fl_registryResolveCA = '''', fl_registryInsecure = False\<rparr>"

record 'e main_ops =
  mn_NewManager :: "unit result"
  mn_AddHealthzCheck :: "unit result"
  mn_AddReadyzCheck :: "unit result"
  mn_mgr :: mgr_ops
  mn_AddReaper :: "unit result"
  mn_tls :: tls_ops
  mn_registry :: "'e registry_ops"
  mn_Quote :: "string \<Rightarrow> string"

text \<open>\<open>x, err := ...; if err != nil \{ return fmt.Errorf("...: %w", err) \}\<close>\<close>

definition try_step :: "string \<Rightarrow> 'a result \<Rightarrow> ('a \<Rightarrow> 'b result) \<Rightarrow> 'b result" where
  "try_step msg r k = (case r of Inl e \<Rightarrow> Inl (wrapf msg e) | Inr x \<Rightarrow> k x)"

definition durationFlag :: "string \<Rightarrow> int \<Rightarrow> int result" where
  "durationFlag str dflt =
     (if str \<noteq> '''' \<and> str \<noteq> Duration_String dflt then ParseDuration str else Inr dflt)"

definition buildConfig :: "controller_flags \<Rightarrow> int \<Rightarrow> Config" where
  "buildConfig fl sessionTTL = New\<lparr>Enabled := fl_enabled fl, AgentNamespace := fl_agentNamespace fl,
     AgentGRPCPort := fl_agentGRPCPort fl, MaxConcurrentSalvages := fl_maxConcurrentSalvages fl,
     cfg_MaxImageSize := fl_maxImageSize fl, cfg_SessionTTL := sessionTTL\<rparr>"

definition buildTagResolver ::
  "'e main_ops \<Rightarrow> controller_flags \<Rightarrow> (string \<Rightarrow> 'e \<Rightarrow> string result \<times> 'e) option result" where
  "buildTagResolver mo fl =
     (if \<not> fl_registryResolve fl then Inr None
      else try_step ''invalid registry-resolve-timeout''
        (durationFlag (fl_registryResolveTimeout fl) DefaultRegistryResolveTimeout)
        (\<lambda>timeout.
          let tr = NewHTTPTagResolver timeout (fl_registryInsecure fl)
          in if fl_registryResolveCA fl \<noteq> ''''
             then (case WithCA (mn_registry mo) (fl_registryResolveCA fl) tr of
                 (Inl e, tr') \<Rightarrow> Inl (wrapf ''loading registry CA'' e)
               | (Inr _, tr') \<Rightarrow> Inr (Some (HTTP_ResolveTag (mn_registry mo) (mn_Quote mo) tr')))
             else Inr (Some (HTTP_ResolveTag (mn_registry mo) (mn_Quote mo) tr))))"

definition loadClientCreds :: "'e main_ops \<Rightarrow> controller_flags \<Rightarrow> tls_Config option result" where
  "loadClientCreds mo fl =
     (if TLSEnabled (fl_tlsCert fl) (fl_tlsKey fl) (fl_tlsCA fl)
      then try_step ''loading TLS credentials'' (ClientCredentials (mn_tls mo) (fl_tlsCert fl) (fl_tlsKey fl) (fl_tlsCA fl))
             (\<lambda>c. Inr (Some c))
      else Inr None)"

definition buildSalvage :: "'e main_ops \<Rightarrow> controller_flags \<Rightarrow> int \<Rightarrow> (Resolver \<times> Orchestrator) option result" where
  "buildSalvage mo fl sessionTTL =
     (if fl_agentNamespace fl = '''' then Inr None
      else case loadClientCreds mo fl of
        Inl e \<Rightarrow> Inl e
      | Inr creds \<Rightarrow>
          (let resolver = (NewResolver (fl_agentNamespace fl) (fl_agentGRPCPort fl))\<lparr>rs_TransportCreds := creds\<rparr>
           in case NewOrchestrator resolver (fl_maxConcurrentSalvages fl) sessionTTL (fl_maxImageSize fl) of
                Inl e \<Rightarrow> Inl e
              | Inr orch0 \<Rightarrow>
                  (let orch1 = orch0\<lparr>or_TransportCreds := rs_TransportCreds resolver\<rparr>;
                       orch = (if fl_backupRegistry fl \<noteq> ''''
                               then SetBackupRegistry (fl_backupRegistry fl) (fl_backupRegistrySecret fl)
                                      (fl_agentNamespace fl) (fl_backupRegistryInsecure fl) orch1
                               else orch1)
                   in Inr (Some (resolver, orch)))))"

definition buildNotifier :: "controller_flags \<Rightarrow> Notifier option" where
  "buildNotifier fl =
     (if fl_webhookURL fl \<noteq> ''''
      then Some (NewNotifier (fl_webhookURL fl)
             (if fl_webhookEvents fl \<noteq> '''' then SplitChar (fl_webhookEvents fl) (CHR '','') else []))
      else None)"

definition buildReconciler ::
  "controller_flags \<Rightarrow> int \<Rightarrow> (string \<Rightarrow> 'e \<Rightarrow> string result \<times> 'e) option \<Rightarrow> (Resolver \<times> Orchestrator) option \<Rightarrow> 'e PodReconciler" where
  "buildReconciler fl sessionTTL tagResolver salvage =
     \<lparr>pr_Config = buildConfig fl sessionTTL,
      pr_Orchestrator = map_option (\<lambda>(r, orch).
        (if fl_webhookURL fl \<noteq> '''' then orch\<lparr>or_Notifier := buildNotifier fl\<rparr> else orch)) salvage,
      pr_AgentResolver = map_option fst salvage,
      pr_TagResolver = tagResolver,
      pr_Notifier = buildNotifier fl\<rparr>"

text \<open>Everything \<open>runController\<close> does before the manager starts; the reconciler and the reaper that run
  then.\<close>

definition runController :: "'e main_ops \<Rightarrow> controller_flags \<Rightarrow> ('e PodReconciler \<times> Reaper) result" where
  "runController mo fl =
     try_step ''creating manager'' (mn_NewManager mo) (\<lambda>_.
     try_step ''setting up healthz check'' (mn_AddHealthzCheck mo) (\<lambda>_.
     try_step ''setting up readyz check'' (mn_AddReadyzCheck mo) (\<lambda>_.
     try_step ''invalid session-ttl'' (durationFlag (fl_sessionTTL fl) DefaultSessionTTL) (\<lambda>sessionTTL.
     case buildTagResolver mo fl of
       Inl e \<Rightarrow> Inl e
     | Inr tagResolver \<Rightarrow>
         (case buildSalvage mo fl sessionTTL of
            Inl e \<Rightarrow> Inl e
          | Inr salvage \<Rightarrow>
              try_step ''setting up controller'' (SetupWithManager (mn_mgr mo)) (\<lambda>_.
              try_step ''invalid salvagerecord-ttl'' (ParseDuration (fl_salvageRecordTTL fl)) (\<lambda>recordTTL.
              try_step ''adding cleanup reaper'' (mn_AddReaper mo) (\<lambda>_.
              Inr (buildReconciler fl sessionTTL tagResolver salvage, NewReaper recordTTL (10 * Minute))))))))))"

definition controllerCmd :: "'e main_ops \<Rightarrow> controller_flags \<Rightarrow> ('e PodReconciler \<times> Reaper) result" where
  "controllerCmd mo fl =
     (case ValidateTLSFlags (fl_tlsCert fl) (fl_tlsKey fl) (fl_tlsCA fl) of
        Inl e \<Rightarrow> Inl e
      | Inr _ \<Rightarrow> runController mo fl)"

section \<open>Pods from the cache\<close>

lemma stripPodFields_PodIP [simp]: "pod_PodIP (stripPodFields pod) = ''''"
  by (simp add: stripPodFields_def)

lemma stripStatus_kept [simp]: "cs_Name (stripStatus cs) = cs_Name cs" "cs_Waiting (stripStatus cs) = cs_Waiting cs"
  by (simp_all add: stripStatus_def)

lemma strip_failure: "failure_of m (stripStatus cs) = failure_of m cs"
  by (cases "cs_Waiting cs") (simp_all add: failure_of_def Let_def)

lemma strip_specImages: "specImages (map stripContainer cs) = specImages cs"
  by (simp add: specImages_def fold_map comp_def stripContainer_def)

lemma failure_of_no_spec:
  "failure_of (specImages []) cs = map_option (\<lambda>f. f\<lparr>fail_Image := ''''\<rparr>) (failure_of (specImages specs) cs)"
  by (simp add: failure_of_def Let_def specImages_def split: option.splits)

lemma map_filter_map: "List.map_filter f (map g xs) = List.map_filter (f \<circ> g) xs"
  by (induction xs) (simp_all add: List.map_filter_def)

lemma map_filter_map_option: "List.map_filter (\<lambda>x. map_option h (f x)) xs = map h (List.map_filter f xs)"
  by (induction xs) (auto simp: List.map_filter_def)

lemma cached_endpoint:
  assumes "run_state (EndpointForNode (cached ops) r nodeName) w = (ep, w')"
  shows "\<exists>e. ep = Inl e"
proof -
  have "\<not> is_ok (firstEndpoint r nodeName (map stripPodFields pods))" for pods
    by (rule firstEndpoint_none) auto
  then have "\<exists>e. firstEndpoint r nodeName (map stripPodFields pods) = Inl e" for pods
    by (metis is_ok_simps(2) sum.exhaust)
  then show ?thesis using assms
    by (auto simp: EndpointForNode_def cached_def split: prod.splits sum.splits)
qed

lemma resolveLoop_no_address:
  "(\<And>p. p \<in> set ps \<Longrightarrow> pod_PodIP p = '''') \<Longrightarrow> resolveLoop ops r img ps = return ('''', '''')"
  by (induction ps) auto

definition no_agent_call :: "effect \<Rightarrow> bool" where
  "no_agent_call x = (case x of AgentCall _ _ \<Rightarrow> False | _ \<Rightarrow> True)"

lemma no_agent_call_simps [simp]:
  "\<not> no_agent_call (AgentCall ep c)" "no_agent_call (Recorded e)" "no_agent_call (Posted u evt)"
  "no_agent_call (PodDelete ns n)" "no_agent_call (RecordCreate rc)" "no_agent_call (RecordDelete ns n)"
  by (simp_all add: no_agent_call_def)

lemma for_pod_no_agent: "for_pod pod x \<Longrightarrow> no_agent_call x"
  by (cases x) (simp_all add: for_pod_def)

lemmas Emit_no_agent = Emit_for_pod[THEN emits_only_mono, OF for_pod_no_agent]

lemma Notify_no_agent: "rel_act (emits_only no_agent_call) (Notify ops n evt)"
  by (rule emits_only_mono[OF Notify_rel(1)]) (auto simp: is_posted_def split: effect.splits)

lemma fail_salvage_no_agent: "rel_act (emits_only no_agent_call) (fail_salvage ops orch pod d reason)"
  unfolding fail_salvage_def by (intro em.rel_rules rel_intros Emit_no_agent Notify_no_agent)

lemma cached_Salvage_no_agent: "rel_act (emits_only no_agent_call) (Salvage (cached ops) orch pod d img sn)"
proof -
  have "rel_act (emits_only no_agent_call) (salvageLocked (cached ops) orch pod d img sn tn start)" for tn start
    unfolding salvageLocked_def
    by (rule em.rel_bind_val[OF EndpointForNode_silent], drule cached_endpoint)
       (auto intro!: em.rel_rules fail_salvage_no_agent)
  then show ?thesis unfolding Salvage_def by (intro em.rel_rules rel_intros)
qed

lemma cached_Salvage_fails: "\<not> is_ok (fst (run_state (Salvage (cached ops) orch pod d img sn) w))"
proof -
  have "\<exists>e. r = Inl e" if "run_state (salvageLocked (cached ops) orch pod d img sn tn start) w0 = (r, w1)" for r tn start w0 w1
  proof -
    obtain ep w2 where ep: "run_state (EndpointForNode (cached ops) (or_Resolver orch) sn) w0 = (ep, w2)" by fastforce
    from cached_endpoint[OF this] obtain e where "ep = Inl e" ..
    with that ep show ?thesis by (auto simp: salvageLocked_def split: prod.splits)
  qed
  moreover obtain r w1 where "run_state (Salvage (cached ops) orch pod d img sn) w = (r, w1)" by fastforce
  ultimately show ?thesis
    by (auto simp: Salvage_def Let_def tryAcquire_def split: prod.splits if_splits) (metis is_ok_simps(1))
qed

lemma cached_ResolveTag_no_agent: "rel_act (emits_only no_agent_call) (ResolveTagViaAgents (cached ops) r img)"
  unfolding ResolveTagViaAgents_def
proof (rule em.rel_bind_val[OF emits_only_ext])
  fix pods u v
  assume run: "run_state (ext (list_Pods (cached ops) (rs_Namespace r) agentLabels)) u = (pods, v)"
  show "rel_act (emits_only no_agent_call) (case pods of
      Inl e \<Rightarrow> return (Inl (wrapf ''listing agent pods'' e))
    | Inr items \<Rightarrow> do { found \<leftarrow> resolveLoop (cached ops) r img items; return (Inr found) })"
  proof (cases pods)
    case (Inr items)
    with run have "\<forall>p \<in> set items. pod_PodIP p = ''''"
      by (auto simp: cached_def split: prod.splits sum.splits)
    then show ?thesis using Inr by (simp add: resolveLoop_no_address em.rel_return)
  qed (simp add: em.rel_return)
qed

lemma cached_RemoveImage_no_agent: "rel_act (emits_only no_agent_call) (RemoveImageOnNode (cached ops) r n img)"
  unfolding RemoveImageOnNode_def
  by (rule em.rel_bind_val[OF EndpointForNode_silent], drule cached_endpoint) (auto intro: em.rel_return)

lemma cached_failureLoop_no_agent: "rel_act (emits_only no_agent_call) (failureLoop (cached ops) r pod fs)"
proof (induction fs)
  case (Cons f fs)
  have "rel_act (emits_only no_agent_call) (handleFailure (cached ops) r pod f)"
    unfolding handleFailure_def handleCorrupt_def handlePullFailure_def resolveImage_def resolveTagged_def
      askAgents_def askRegistry_def salvageFrom_def recreate_def deletePod_def
    by (intro em.rel_rules rel_intros rel_resolved emits_only_emit Emit_no_agent Notify_no_agent
        cached_Salvage_no_agent cached_ResolveTag_no_agent cached_RemoveImage_no_agent) simp_all
  with Cons show ?case unfolding failureLoop.simps by (intro em.rel_rules rel_control)
qed (simp add: em.rel_return)

section \<open>Durations\<close>

lemma week: "ParseDuration ''168h'' = Inr (168 * 60 * Minute)"
proof -
  have n: "fmt_nat 168 = ''168''"
    by (simp add: fmt_nat.simps char_of_def bit_numeral_rec bit_Suc_0_iff)
  from durationLoop_fmt[OF whole unit_chars(6) _ unit_values(6), of 0 168 "[]" "''168h''"]
  show ?thesis by (simp add: n ParseDuration_def Minute_def Second_def)
qed

section \<open>The orchestrator that is built\<close>

lemma buildSalvage_Some:
  assumes "buildSalvage mo fl ttl = Inr (Some (rs, orch))"
  shows "fl_agentNamespace fl \<noteq> ''''" "or_Resolver orch = rs" "rs_Namespace rs = fl_agentNamespace fl"
    "rs_Port rs = fl_agentGRPCPort fl" "int (or_SemCap orch) = fl_maxConcurrentSalvages fl"
    "or_MaxImageSize orch = fl_maxImageSize fl" "or_TransportCreds orch = rs_TransportCreds rs"
    "or_Notifier orch = None" "or_BackupRegistry orch = fl_backupRegistry fl"
    "loadClientCreds mo fl = Inr (rs_TransportCreds rs)"
proof -
  from assms obtain creds where ns: "fl_agentNamespace fl \<noteq> ''''" and creds: "loadClientCreds mo fl = Inr creds"
    by (auto simp: buildSalvage_def split: if_splits sum.splits)
  let ?rs = "(NewResolver (fl_agentNamespace fl) (fl_agentGRPCPort fl))\<lparr>rs_TransportCreds := creds\<rparr>"
  from assms ns creds obtain orch0 where
    o0: "NewOrchestrator ?rs (fl_maxConcurrentSalvages fl) ttl (fl_maxImageSize fl) = Inr orch0"
    by (auto simp: buildSalvage_def Let_def split: sum.splits)
  have rs: "rs = ?rs" and orch: "orch = (let orch1 = orch0\<lparr>or_TransportCreds := creds\<rparr>
      in if fl_backupRegistry fl \<noteq> ''''
         then SetBackupRegistry (fl_backupRegistry fl) (fl_backupRegistrySecret fl) (fl_agentNamespace fl) (fl_backupRegistryInsecure fl) orch1
         else orch1)"
    using assms ns creds o0 by (simp_all add: buildSalvage_def Let_def)
  have o0': "0 \<le> fl_maxConcurrentSalvages fl" "or_Resolver orch0 = ?rs" "or_SemCap orch0 = nat (fl_maxConcurrentSalvages fl)"
    "or_MaxImageSize orch0 = fl_maxImageSize fl" "or_Notifier orch0 = None" "or_BackupRegistry orch0 = ''''"
    using o0 by (auto simp: NewOrchestrator_def split: if_splits)
  show "fl_agentNamespace fl \<noteq> ''''" by (rule ns)
  show "or_Resolver orch = rs" "rs_Namespace rs = fl_agentNamespace fl" "rs_Port rs = fl_agentGRPCPort fl"
    "int (or_SemCap orch) = fl_maxConcurrentSalvages fl" "or_MaxImageSize orch = fl_maxImageSize fl"
    "or_TransportCreds orch = rs_TransportCreds rs" "or_Notifier orch = None" "or_BackupRegistry orch = fl_backupRegistry fl"
    "loadClientCreds mo fl = Inr (rs_TransportCreds rs)"
    using o0' creds by (simp_all add: rs orch Let_def SetBackupRegistry_def NewResolver_def)
qed

lemma loadClientCreds_None:
  "loadClientCreds mo fl = Inr creds \<Longrightarrow> creds = None \<longleftrightarrow> \<not> TLSEnabled (fl_tlsCert fl) (fl_tlsKey fl) (fl_tlsCA fl)"
  by (auto simp: loadClientCreds_def try_step_def split: if_splits sum.splits)

section \<open>Detection without agents\<close>

lemma Notify_telemetry: "rel_act (emits_only is_telemetry) (Notify ops n evt)"
  by (rule emits_only_mono[OF Notify_rel(1)]) (simp add: is_telemetry_def)

lemma for_pod_telemetry: "for_pod pod x \<Longrightarrow> is_telemetry x"
  by (cases x) (simp_all add: for_pod_def)

lemmas Emit_telemetry = Emit_for_pod[THEN emits_only_mono, OF for_pod_telemetry]

lemma failureLoop_detection_only:
  assumes "pr_Orchestrator r = None" and "pr_AgentResolver r = None"
  shows "rel_act (emits_only is_telemetry) (failureLoop ops r pod fs)"
proof (induction fs)
  case (Cons f fs)
  have "rel_act (emits_only is_telemetry) (handleFailure ops r pod f)"
    unfolding handleFailure_def handleCorrupt_def handlePullFailure_def resolveImage_def resolveTagged_def
      askAgents_def askRegistry_def salvageFrom_def assms option.case
    by (intro em.rel_rules rel_intros rel_resolved Emit_telemetry Notify_telemetry)
  with Cons show ?case unfolding failureLoop.simps by (intro em.rel_rules rel_control)
qed (simp add: em.rel_return)

section \<open>Properties\<close>

text \<open>C14: with the cache transform in place, no agent is ever reached: the transform clears the address of
  every pod, the agents' pods included, and the agents are found through the same cache. Whatever
  the cluster looks like, a reconciliation makes no call on any agent, and a salvage never
  succeeds.\<close>

theorem cached_pods_reach_no_agent:
  "(\<exists>es. trace (snd (run_state (Reconcile (cached ops) r ns name) w)) = trace w @ es \<and> list_all no_agent_call es)
   \<and> \<not> is_ok (fst (run_state (Salvage (cached ops) orch pod d img sn) w'))"
proof -
  have "rel_act (emits_only no_agent_call) (Reconcile (cached ops) r ns name)"
    unfolding Reconcile_def namespaceOptedIn_def
    by (intro em.rel_rules rel_intros cached_failureLoop_no_agent isAutoSalvageEnabled_silent)
  then show ?thesis using cached_Salvage_fails[of ops orch pod d img sn w'] by (simp add: rel_act_def emits_only_def)
qed

text \<open>C33: the transform does not change what is detected for regular containers, but it clears the list of
  init containers, so that every failure of an init container is reported with an empty image.\<close>

theorem stripped_detection:
  "Detect (stripPodFields pod) =
     detectInStatuses (pod_ContainerStatuses pod) (pod_Containers pod) @
     map (\<lambda>f. f\<lparr>fail_Image := ''''\<rparr>) (detectInStatuses (pod_InitContainerStatuses pod) (pod_InitContainers pod))"
proof -
  have "failure_of m \<circ> stripStatus = failure_of m" for m by (simp add: fun_eq_iff strip_failure)
  moreover have "failure_of (specImages []) =
      (\<lambda>x. map_option (\<lambda>f. f\<lparr>fail_Image := ''''\<rparr>) (failure_of (specImages (pod_InitContainers pod)) x))"
    using failure_of_no_spec by (simp add: fun_eq_iff)
  ultimately show ?thesis
    by (simp add: Detect_def detectInStatuses_eq stripPodFields_def strip_specImages map_filter_map map_filter_map_option)
qed


definition example_main :: "unit main_ops" where
  "example_main = \<lparr>mn_NewManager = Inr (), mn_AddHealthzCheck = Inr (),
     mn_AddReadyzCheck = Inr (), mn_mgr = \<lparr>mg_IndexField = (\<lambda>k f. Inr ()), mg_Complete = Inr ()\<rparr>, mn_AddReaper = Inr (),
     mn_tls = \<lparr>to_LoadX509KeyPair = (\<lambda>c k. Inr ''pair''), to_ReadFile = (\<lambda>f. Inr ''pem''), to_AppendCertsFromPEM = (\<lambda>p. True)\<rparr>,
     mn_registry = example_registry, mn_Quote = id\<rparr>"


text \<open>Without an agent namespace tote only observes: a reconciler without orchestrator and agent resolver
  touches nothing but events, notifications and counters; no pod is deleted, no record is made, no
  agent is called. This is what the default flags give.\<close>

theorem detection_only_mode:
  assumes "controllerCmd mo fl = Inr (r, reaper)" and "fl_agentNamespace fl = ''''"
    and "run_state (Reconcile ops r ns name) w = (res, w')"
  shows "\<exists>es. trace w' = trace w @ es \<and> list_all is_telemetry es"
proof -
  from assms(1,2) have none: "pr_Orchestrator r = None" "pr_AgentResolver r = None"
    by (auto simp: controllerCmd_def runController_def try_step_def buildSalvage_def buildReconciler_def split: sum.splits)
  from assms(3) show ?thesis
  proof (cases rule: Reconcile_cases)
    case (acting pod e1 m e2 w3)
    from rel_actD[OF failureLoop_detection_only[OF none] acting(8)] acting(7) show ?thesis
      by (auto simp: emits_only_def inside_def)
  qed (simp add: inside_def)
qed

theorem detection_only_mode_witness:
  "\<exists>r reaper es. controllerCmd example_main default_flags = Inr (r, reaper)
     \<and> trace (snd (run_state (Reconcile salvage_ops r ''prod'' ''web-1'') (init_world ()))) = es \<and> list_all is_telemetry es"
proof -
  have "is_ok (controllerCmd example_main default_flags)"
    by (simp add: controllerCmd_def ValidateTLSFlags_def runController_def try_step_def durationFlag_def buildTagResolver_def
        buildSalvage_def default_flags_def example_main_def SetupWithManager_def week Let_def)
  then obtain r reaper where run: "controllerCmd example_main default_flags = Inr (r, reaper)"
    by (cases "controllerCmd example_main default_flags") auto
  from detection_only_mode[OF run _ prod.collapse[symmetric], of salvage_ops "''prod''" "''web-1''" "init_world ()"] run
  show ?thesis by (auto simp: default_flags_def init_world_def)
qed

text \<open>C38: duration flags mean what they print. The text Go prints for a duration is read back as that
  duration, for every one of the \<open>2 ^ 64\<close> durations, fractions and the smallest negative one
  included; skipping the parser for the default's own text, as the command does, gives the default
  the text denotes; and no text is read as a duration outside of 64 bits.\<close>

theorem durationFlag_roundtrip:
  assumes "- (2 ^ 63) \<le> d" "d < 2 ^ 63" and "- (2 ^ 63) \<le> dflt" "dflt < 2 ^ 63"
  shows "ParseDuration (Duration_String d) = Inr d \<and> durationFlag (Duration_String d) dflt = Inr d
     \<and> durationFlag str d = (if str = '''' then Inr d else ParseDuration str)
     \<and> (case ParseDuration str of Inl e \<Rightarrow> True | Inr x \<Rightarrow> - (2 ^ 63) \<le> x \<and> x < 2 ^ 63)"
proof -
  note rt = ParseDuration_String[OF assms(1,2)] ParseDuration_String[OF assms(3,4)]
  have ne: "Duration_String d \<noteq> ''''" using format_duration_head[of "nat d"] by (auto simp: Duration_String_def)
  have "durationFlag (Duration_String d) dflt = Inr d"
  proof (cases "Duration_String d = Duration_String dflt")
    case True
    then have "d = dflt" using rt by (metis sum.inject(2))
    then show ?thesis by (simp only: durationFlag_def simp_thms if_False)
  qed (simp only: durationFlag_def ne rt(1) simp_thms if_True not_False_eq_True)
  moreover have "durationFlag str d = (if str = '''' then Inr d else ParseDuration str)"
    by (cases "str = ''''"; cases "str = Duration_String d") (simp_all only: durationFlag_def ne rt(1) simp_thms if_True if_False)
  moreover have "case ParseDuration str of Inl e \<Rightarrow> True | Inr x \<Rightarrow> - (2 ^ 63) \<le> x \<and> x < 2 ^ 63"
    using ParseDuration_bounds[of str] by (simp only: split: sum.split) blast
  ultimately show ?thesis using rt(1) by blast
qed

theorem durationFlag_roundtrip_witness:
  "ParseDuration (Duration_String (- 1500000)) = Inr (- 1500000) \<and> durationFlag (Duration_String (- 1500000)) DefaultSessionTTL = Inr (- 1500000)"
  using durationFlag_roundtrip[of "- 1500000" DefaultSessionTTL "''5s''"] by (simp add: DefaultSessionTTL_def Minute_def Second_def)

text \<open>What the lifetimes are after a successful start-up. The session lifetime of the configuration
  and of the orchestrator is the default if the flag is empty and what its text denotes otherwise;
  the lifetime of the records is what its flag's text denotes, so that a text that denotes no
  duration stops the start-up; the reaper sweeps every ten minutes.\<close>

theorem controllerCmd_durations:
  assumes "controllerCmd mo fl = Inr (r, reaper)"
  shows "(if fl_sessionTTL fl = '''' then cfg_SessionTTL (pr_Config r) = DefaultSessionTTL
          else ParseDuration (fl_sessionTTL fl) = Inr (cfg_SessionTTL (pr_Config r)))
     \<and> ParseDuration (fl_salvageRecordTTL fl) = Inr (rp_TTL reaper) \<and> rp_Interval reaper = 10 * Minute
     \<and> (case pr_Orchestrator r of None \<Rightarrow> True | Some orch \<Rightarrow> or_SessionTTL orch = cfg_SessionTTL (pr_Config r))"
proof -
  from assms obtain ttl tr salv where ttl: "durationFlag (fl_sessionTTL fl) DefaultSessionTTL = Inr ttl"
    and salv: "buildSalvage mo fl ttl = Inr salv" and r: "r = buildReconciler fl ttl tr salv"
    and rec: "ParseDuration (fl_salvageRecordTTL fl) = Inr (rp_TTL reaper)" "rp_Interval reaper = 10 * Minute"
    by (auto simp: controllerCmd_def runController_def try_step_def NewReaper_def split: sum.splits)
  have "durationFlag (fl_sessionTTL fl) DefaultSessionTTL = (if fl_sessionTTL fl = '''' then Inr DefaultSessionTTL else ParseDuration (fl_sessionTTL fl))"
    using ParseDuration_String[of DefaultSessionTTL] by (auto simp: durationFlag_def DefaultSessionTTL_def Minute_def Second_def)
  moreover have "cfg_SessionTTL (pr_Config r) = ttl" by (simp add: r buildReconciler_def buildConfig_def)
  moreover have "or_SessionTTL orch = ttl" if "salv = Some (rs, orch)" for rs orch
    using salv that by (auto simp: buildSalvage_def Let_def NewOrchestrator_def SetBackupRegistry_def split: if_splits sum.splits)
  ultimately show ?thesis using ttl rec by (auto simp: r buildReconciler_def split: if_splits option.splits)
qed

theorem controllerCmd_durations_witness:
  "\<exists>r reaper. controllerCmd example_main default_flags = Inr (r, reaper)
     \<and> cfg_SessionTTL (pr_Config r) = 5 * Minute \<and> rp_TTL reaper = 168 * 60 * Minute"
proof -
  have "is_ok (controllerCmd example_main default_flags)"
    by (simp add: controllerCmd_def ValidateTLSFlags_def runController_def try_step_def durationFlag_def buildTagResolver_def
        buildSalvage_def default_flags_def example_main_def SetupWithManager_def week Let_def)
  then obtain r reaper where run: "controllerCmd example_main default_flags = Inr (r, reaper)"
    by (cases "controllerCmd example_main default_flags") auto
  have "ParseDuration (Duration_String DefaultSessionTTL) = Inr DefaultSessionTTL"
    by (rule ParseDuration_String) (simp_all add: DefaultSessionTTL_def Minute_def Second_def)
  with controllerCmd_durations[OF run] run week show ?thesis
    by (auto simp: default_flags_def DefaultSessionTTL_def split: if_splits)
qed

end
