(* ===== verification/Doctor.thy ===== *)
theory Doctor
  imports Kube_Types Go_Json
begin

text \<open>
  \<open>internal/doctor/doctor.go\<close>: the health checks of the \<open>doctor\<close> command. The answers of the API server
  are the fields of \<open>clientset\<close>; no call is made twice with the same arguments, so an answer is a
  function of the arguments. Statuses are ordered by severity. The report is also
  given as the JSON value that the command prints.
\<close>

datatype Status = StatusOK | StatusWarn | StatusFail

fun severity :: "Status \<Rightarrow> nat" where
  "severity StatusOK = 0" | "severity StatusWarn = 1" | "severity StatusFail = 2"

instantiation Status :: linorder
begin

definition less_eq_Status :: "Status \<Rightarrow> Status \<Rightarrow> bool" where
  "less_eq_Status a b = (severity a \<le> severity b)"

definition less_Status :: "Status \<Rightarrow> Status \<Rightarrow> bool" where
  "less_Status a b = (severity a < severity b)"

instance
proof
  fix a b c :: Status
  show "a < b \<longleftrightarrow> a \<le> b \<and> \<not> b \<le> a" by (auto simp: less_eq_Status_def less_Status_def)
  show "a \<le> a" by (simp add: less_eq_Status_def)
  show "a \<le> b \<Longrightarrow> b \<le> c \<Longrightarrow> a \<le> c" by (simp add: less_eq_Status_def)
  show "a \<le> b \<Longrightarrow> b \<le> a \<Longrightarrow> a = b" by (cases a; cases b) (simp_all add: less_eq_Status_def)
  show "a \<le> b \<or> b \<le> a" by (auto simp: less_eq_Status_def)
qed

end

record Check =
  chk_Name :: string
  chk_Status :: Status
  chk_Message :: string

record Result =
  res_Checks :: "Check list"
  res_OK :: bool

text \<open>The report as JSON: the statuses by their text, in the order of the fields; a nil slice is null.\<close>

fun status_text :: "Status \<Rightarrow> string" where
  "status_text StatusOK = ''ok''" | "status_text StatusWarn = ''warn''" | "status_text StatusFail = ''fail''"

definition check_json :: "Check \<Rightarrow> json" where
  "check_json c = JObject [(''name'', JString (chk_Name c)), (''status'', JString (status_text (chk_Status c))),
     (''message'', JString (chk_Message c))]"

definition result_json :: "Result \<Rightarrow> json" where
  "result_json r = JObject [(''checks'', if res_Checks r = [] then JNull else JArray (map check_json (res_Checks r))),
     (''ok'', JBool (res_OK r))]"

record Deployment =
  dp_Labels :: "string \<rightharpoonup> string"
  dp_ReadyReplicas :: int
  dp_Replicas :: "int option"

record DaemonSet =
  ds_NumberReady :: int
  ds_DesiredNumberScheduled :: int

text \<open>Namespaces are listed with an optional limit; the resources of a group version are kinds.\<close>

record clientset =
  cl_Namespaces :: "nat option \<Rightarrow> ObjectMeta list result"
  cl_DiscoveryClient :: bool
  cl_ServerResourcesForGroupVersion :: "string \<Rightarrow> string list result"
  cl_ServerGroupsAndResources :: "(string \<times> string list) list result"
  cl_Deployments :: "string \<Rightarrow> string \<Rightarrow> Deployment list result"
  cl_DaemonSets :: "string \<Rightarrow> string \<Rightarrow> DaemonSet list result"

definition mk :: "string \<Rightarrow> Status \<Rightarrow> string \<Rightarrow> Check" where
  "mk n s m = \<lparr>chk_Name = n, chk_Status = s, chk_Message = m\<rparr>"

definition checkKubeconfig :: "clientset \<Rightarrow> Check" where
  "checkKubeconfig cl =
     (case cl_Namespaces cl (Some 1) of
        Inl e \<Rightarrow> mk ''kubeconfig'' StatusFail (''cluster unreachable: '' @ emsg e)
      | Inr _ \<Rightarrow> mk ''kubeconfig'' StatusOK ''cluster reachable'')"

fun resourceLoop :: "(string \<times> string list) list \<Rightarrow> bool" where
  "resourceLoop [] = False"
| "resourceLoop ((gv, kinds) # rest) =
     (if gv = ''tote.dev/v1alpha1'' \<and> list_ex (\<lambda>k. k = ''SalvageRecord'') kinds then True else resourceLoop rest)"

definition checkCRDViaResources :: "clientset \<Rightarrow> Check" where
  "checkCRDViaResources cl =
     (case cl_ServerGroupsAndResources cl of
        Inl e \<Rightarrow> mk ''crd'' StatusFail (''cannot discover resources: '' @ emsg e)
      | Inr resources \<Rightarrow>
          (if resourceLoop resources then mk ''crd'' StatusOK ''salvagerecords.tote.dev installed''
           else mk ''crd'' StatusFail ''salvagerecords.tote.dev CRD not installed''))"

definition checkCRD :: "clientset \<Rightarrow> Check" where
  "checkCRD cl =
     (if \<not> cl_DiscoveryClient cl then checkCRDViaResources cl
      else case cl_ServerResourcesForGroupVersion cl ''tote.dev/v1alpha1'' of
        Inl e \<Rightarrow> mk ''crd'' StatusFail ''salvagerecords.tote.dev CRD not installed''
      | Inr kinds \<Rightarrow>
          (if list_ex (\<lambda>k. k = ''SalvageRecord'') kinds then mk ''crd'' StatusOK ''salvagerecords.tote.dev installed''
           else mk ''crd'' StatusFail ''SalvageRecord kind not found in tote.dev/v1alpha1''))"

definition controllerVerdict :: "Deployment \<Rightarrow> Check" where
  "controllerVerdict d =
     (let ready = dp_ReadyReplicas d;
          desired = (case dp_Replicas d of None \<Rightarrow> 1 | Some n \<Rightarrow> n);
          msg = fmt_int ready @ ''/'' @ fmt_int desired @ '' replicas ready''
      in if ready < desired then mk ''controller'' StatusFail msg else mk ''controller'' StatusOK msg)"

definition checkController :: "clientset \<Rightarrow> string \<Rightarrow> Check" where
  "checkController cl namespace =
     (case cl_Deployments cl namespace ''app.kubernetes.io/name=tote,app.kubernetes.io/component!=agent'' of
        Inl e \<Rightarrow> mk ''controller'' StatusFail (''cannot list deployments: '' @ emsg e)
      | Inr (d # _) \<Rightarrow> controllerVerdict d
      | Inr [] \<Rightarrow>
          (case cl_Deployments cl namespace ''app.kubernetes.io/name=tote'' of
             Inl e \<Rightarrow> mk ''controller'' StatusFail (''no tote deployment found in '' @ namespace)
           | Inr [] \<Rightarrow> mk ''controller'' StatusFail (''no tote deployment found in '' @ namespace)
           | Inr items \<Rightarrow>
               (case filter (\<lambda>d. go_lookup (dp_Labels d) ''app.kubernetes.io/component'' \<noteq> ''agent'') items of
                  [] \<Rightarrow> mk ''controller'' StatusFail (''no tote controller deployment found in '' @ namespace)
                | d # _ \<Rightarrow> controllerVerdict d)))"

definition checkAgents :: "clientset \<Rightarrow> string \<Rightarrow> Check" where
  "checkAgents cl namespace =
     (case cl_DaemonSets cl namespace ''app.kubernetes.io/name=tote,app.kubernetes.io/component=agent'' of
        Inl e \<Rightarrow> mk ''agents'' StatusFail (''cannot list daemonsets: '' @ emsg e)
      | Inr [] \<Rightarrow> mk ''agents'' StatusWarn (''no agent DaemonSet found in '' @ namespace @ '' (salvage disabled)'')
      | Inr (ds # _) \<Rightarrow>
          (let ready = ds_NumberReady ds; desired = ds_DesiredNumberScheduled ds;
               msg = fmt_int ready @ ''/'' @ fmt_int desired @ '' agents ready''
           in if ready < desired then mk ''agents'' StatusFail msg else mk ''agents'' StatusOK msg))"

text \<open>The two loops of \<open>joinMax\<close>: over all items, and over the first \<open>max\<close> of them by index.\<close>

fun joinLoop :: "nat \<Rightarrow> string list \<Rightarrow> string \<Rightarrow> string" where
  "joinLoop i [] s = s"
| "joinLoop i (item # items) s = joinLoop (Suc i) items ((if i > 0 then s @ '', '' else s) @ item)"

fun joinIndex :: "nat \<Rightarrow> nat \<Rightarrow> string list \<Rightarrow> string \<Rightarrow> string" where
  "joinIndex 0 i items s = s"
| "joinIndex (Suc n) i items s = joinIndex n (Suc i) items ((if i > 0 then s @ '', '' else s) @ items ! i)"

definition joinMax :: "string list \<Rightarrow> nat \<Rightarrow> string" where
  "joinMax items mx =
     (if length items \<le> mx then joinLoop 0 items ''''
      else joinIndex mx 0 items '''' @ '' (and '' @ fmt_nat (length items - mx) @ '' more)'')"

definition checkNamespaces :: "clientset \<Rightarrow> Check" where
  "checkNamespaces cl =
     (case cl_Namespaces cl None of
        Inl e \<Rightarrow>
          (if ekind e = KForbidden then mk ''namespaces'' StatusWarn ''cannot list namespaces (RBAC)''
           else mk ''namespaces'' StatusFail (''cannot list namespaces: '' @ emsg e))
      | Inr items \<Rightarrow>
          (let opted = map meta_Name (filter (\<lambda>m. go_lookup (meta_Annotations m) ''tote.dev/allow'' = ''true'') items)
           in if opted = []
              then mk ''namespaces'' StatusWarn ''no namespaces opted in (annotate with tote.dev/allow=true)''
              else mk ''namespaces'' StatusOK (fmt_nat (length opted) @ '' namespaces opted in: '' @ joinMax opted 5)))"

fun okLoop :: "Check list \<Rightarrow> bool \<Rightarrow> bool" where
  "okLoop [] allOK = allOK"
| "okLoop (c # cs) allOK = okLoop cs (if chk_Status c = StatusFail then False else allOK)"

definition Run :: "clientset \<Rightarrow> string \<Rightarrow> Result" where
  "Run cl namespace =
     (let checks = [checkKubeconfig cl, checkCRD cl, checkController cl namespace, checkAgents cl namespace, checkNamespaces cl]
      in \<lparr>res_Checks = checks, res_OK = okLoop checks True\<rparr>)"

section \<open>Lemmas\<close>

lemma okLoop_iff: "okLoop cs b \<longleftrightarrow> b \<and> (\<forall>c \<in> set cs. chk_Status c < StatusFail)"
proof (induction cs b rule: okLoop.induct)
  case (2 c cs b)
  then show ?case by (cases "chk_Status c") (auto simp: less_Status_def)
qed simp

lemma Join_snoc: "xs \<noteq> [] \<Longrightarrow> Join (xs @ [y]) sep = Join xs sep @ sep @ y"
proof (induction xs)
  case (Cons x xs)
  then show ?case by (cases xs) simp_all
qed simp

lemma joinLoop_Join: "joinLoop (length pre) items (Join pre '', '') = Join (pre @ items) '', ''"
proof (induction items arbitrary: pre)
  case (Cons item items)
  have "(if length pre > 0 then Join pre '', '' @ '', '' else Join pre '', '') @ item = Join (pre @ [item]) '', ''"
    by (cases "pre = []") (simp_all add: Join_snoc)
  with Cons.IH[of "pre @ [item]"] show ?case by simp
qed simp

lemma joinIndex_Join:
  "i + n \<le> length items \<Longrightarrow> joinIndex n i items (Join (take i items) '', '') = Join (take (i + n) items) '', ''"
proof (induction n arbitrary: i)
  case (Suc n)
  then have t: "take (Suc i) items = take i items @ [items ! i]" by (simp add: take_Suc_conv_app_nth)
  have ne: "take i items \<noteq> []" if "i > 0" using that Suc.prems by auto
  have "(if i > 0 then Join (take i items) '', '' @ '', '' else Join (take i items) '', '') @ items ! i = Join (take (Suc i) items) '', ''"
    unfolding t using Join_snoc[OF ne] by (cases "i = 0") simp_all
  with Suc.IH[of "Suc i"] Suc.prems show ?case by simp
qed simp

section \<open>Properties\<close>

text \<open>The list of opted-in namespaces is printed in full, separated by commas, when there are at most
  five of them (in general: max), and otherwise as the first five and the number of the rest, so
  none is silently dropped.\<close>

theorem joinMax_exact:
  "joinMax items mx = Join (take mx items) '', '' @
     (if length items \<le> mx then '''' else '' (and '' @ fmt_nat (length items - mx) @ '' more)'')"
  using joinLoop_Join[of "[]" items] joinIndex_Join[of 0 mx items] by (simp add: joinMax_def)

text \<open>The verdict over the answers of the API server.\<close>

lemma Run_verdict:
  "map chk_Name (res_Checks (Run cl ns)) = [''kubeconfig'', ''crd'', ''controller'', ''agents'', ''namespaces'']
   \<and> (res_OK (Run cl ns) \<longleftrightarrow>
       is_ok (cl_Namespaces cl (Some 1))
     \<and> (if cl_DiscoveryClient cl
        then \<exists>kinds. cl_ServerResourcesForGroupVersion cl ''tote.dev/v1alpha1'' = Inr kinds \<and> ''SalvageRecord'' \<in> set kinds
        else \<exists>rs kinds. cl_ServerGroupsAndResources cl = Inr rs \<and> (''tote.dev/v1alpha1'', kinds) \<in> set rs \<and> ''SalvageRecord'' \<in> set kinds)
     \<and> chk_Status (checkController cl ns) = StatusOK
     \<and> (\<exists>dss. cl_DaemonSets cl ns ''app.kubernetes.io/name=tote,app.kubernetes.io/component=agent'' = Inr dss
          \<and> (dss = [] \<or> ds_DesiredNumberScheduled (hd dss) \<le> ds_NumberReady (hd dss)))
     \<and> (case cl_Namespaces cl None of Inl e \<Rightarrow> ekind e = KForbidden | Inr _ \<Rightarrow> True))"
proof -
  have loop: "resourceLoop rs \<longleftrightarrow> (\<exists>kinds. (''tote.dev/v1alpha1'', kinds) \<in> set rs \<and> ''SalvageRecord'' \<in> set kinds)" for rs
    by (induction rs rule: resourceLoop.induct) (auto simp: list_ex_iff)
  have kube: "chk_Status (checkKubeconfig cl) < StatusFail \<longleftrightarrow> is_ok (cl_Namespaces cl (Some 1))"
    by (simp add: checkKubeconfig_def mk_def less_Status_def split: sum.splits)
  have crd: "chk_Status (checkCRD cl) < StatusFail \<longleftrightarrow> (if cl_DiscoveryClient cl
        then \<exists>kinds. cl_ServerResourcesForGroupVersion cl ''tote.dev/v1alpha1'' = Inr kinds \<and> ''SalvageRecord'' \<in> set kinds
        else \<exists>rs kinds. cl_ServerGroupsAndResources cl = Inr rs \<and> (''tote.dev/v1alpha1'', kinds) \<in> set rs \<and> ''SalvageRecord'' \<in> set kinds)"
    by (auto simp: checkCRD_def checkCRDViaResources_def mk_def less_Status_def loop list_ex_iff split: sum.splits)
  have ctl: "chk_Status (checkController cl ns) < StatusFail \<longleftrightarrow> chk_Status (checkController cl ns) = StatusOK"
    by (auto simp: checkController_def controllerVerdict_def mk_def less_Status_def Let_def split: sum.splits list.splits)
  have ag: "chk_Status (checkAgents cl ns) < StatusFail \<longleftrightarrow>
      (\<exists>dss. cl_DaemonSets cl ns ''app.kubernetes.io/name=tote,app.kubernetes.io/component=agent'' = Inr dss
          \<and> (dss = [] \<or> ds_DesiredNumberScheduled (hd dss) \<le> ds_NumberReady (hd dss)))"
    by (auto simp: checkAgents_def mk_def less_Status_def Let_def split: sum.splits list.splits)
  have nms: "chk_Status (checkNamespaces cl) < StatusFail \<longleftrightarrow>
      (case cl_Namespaces cl None of Inl e \<Rightarrow> ekind e = KForbidden | Inr _ \<Rightarrow> True)"
    by (auto simp: checkNamespaces_def mk_def less_Status_def Let_def split: sum.splits)
  have names: "chk_Name (checkKubeconfig cl) = ''kubeconfig''" "chk_Name (checkCRD cl) = ''crd''"
    "chk_Name (checkController cl ns) = ''controller''" "chk_Name (checkAgents cl ns) = ''agents''"
    "chk_Name (checkNamespaces cl) = ''namespaces''"
    by (simp_all add: checkKubeconfig_def checkCRD_def checkCRDViaResources_def checkController_def controllerVerdict_def
        checkAgents_def checkNamespaces_def mk_def Let_def split: sum.splits list.splits)
  show ?thesis
    unfolding Run_def Let_def by (simp add: okLoop_iff kube crd ctl ag nms names)
qed

end
