(* ===== verification/Cmd_Root.thy ===== *)
theory Cmd_Root
  imports Cmd_Main Agent_Server Doctor
begin

text \<open>
  \<open>cmd/tote/main.go\<close>: the agent and the doctor command and the command that holds them all, with what they
  need of \<open>internal/agent\<close>: connecting to containerd and \<open>Server.Start\<close>. The operating system, containerd and
  gRPC are arguments. What a process does to them is a list of effects in order; a deferred call is the
  last of them. Parsing of the command line by cobra, log set-up and the flag of the metrics address
  (which the agent only logs) are left out.
\<close>

section \<open>The agent command\<close>

record agent_flags =
  ag_socket :: string
  ag_grpcPort :: int
  ag_tlsCert :: string
  ag_tlsKey :: string
  ag_tlsCA :: string

definition default_agent_flags :: agent_flags where
  "default_agent_flags = \<lparr>ag_socket = DefaultContainerdSocket, ag_grpcPort = DefaultAgentGRPCPort,
     ag_tlsCert = '''', ag_tlsKey = '''', ag_tlsCA = ''''\<rparr>"

record 'i process_ops =
  po_Stat :: "string \<Rightarrow> unit result"
  po_NewContainerd :: "string \<Rightarrow> string \<Rightarrow> 'i containerd result"
  po_Listen :: "string \<Rightarrow> unit result"
  po_Serve :: "unit result"
  po_tls :: tls_ops

datatype 'i process_effect =
    OpenContainerd string string      \<comment> \<open>socket and default namespace\<close>
  | CloseContainerd
  | Listening string
  | Serving "'i Server" "string list" \<comment> \<open>the server and its registered services\<close>

definition NewContainerdStore :: "'i process_ops \<Rightarrow> string \<Rightarrow> 'i ImageStore result \<times> 'i process_effect list" where
  "NewContainerdStore po socketPath =
     (case po_NewContainerd po socketPath ''k8s.io'' of
        Inl e \<Rightarrow> (Inl e, [])
      | Inr c \<Rightarrow> (Inr (ContainerdStore c), [OpenContainerd socketPath ''k8s.io'']))"

definition Close :: "'i process_effect list" where
  "Close = [CloseContainerd]"

text \<open>\<open>Serve\<close> returns when the listener fails or the context is cancelled and the server has stopped gracefully.\<close>

definition Server_Start :: "'i process_ops \<Rightarrow> 'i Server \<Rightarrow> unit result \<times> 'i process_effect list" where
  "Server_Start po srv =
     (let addr = '':'' @ fmt_int (srv_Port srv)
      in case po_Listen po addr of
           Inl e \<Rightarrow> (Inl (wrapf (''listen on port '' @ fmt_int (srv_Port srv)) e), [])
         | Inr _ \<Rightarrow> (po_Serve po, [Listening addr, Serving srv [''tote.v1.ToteAgent'', ''grpc.health.v1.Health'']]))"

definition secureServer :: "tls_ops \<Rightarrow> agent_flags \<Rightarrow> 'i Server \<Rightarrow> 'i Server result" where
  "secureServer t fl srv =
     (if TLSEnabled (ag_tlsCert fl) (ag_tlsKey fl) (ag_tlsCA fl)
      then try_step ''loading server TLS credentials'' (ServerCredentials t (ag_tlsCert fl) (ag_tlsKey fl) (ag_tlsCA fl)) (\<lambda>sc.
           try_step ''loading client TLS credentials'' (ClientCredentials t (ag_tlsCert fl) (ag_tlsKey fl) (ag_tlsCA fl)) (\<lambda>cc.
             Inr (srv\<lparr>srv_ServerCreds := Some sc, srv_ClientCreds := Some cc\<rparr>)))
      else Inr srv)"

definition runAgent :: "'i process_ops \<Rightarrow> agent_flags \<Rightarrow> unit result \<times> 'i process_effect list" where
  "runAgent po fl =
     (case po_Stat po (ag_socket fl) of
        Inl e \<Rightarrow> (Inl (Err (ekind e) (''containerd socket '' @ ag_socket fl @ '': '' @ emsg e @ '' (agent requires containerd access)'')), [])
      | Inr _ \<Rightarrow>
          (case NewContainerdStore po (ag_socket fl) of
             (Inl e, opened) \<Rightarrow> (Inl (wrapf ''connecting to containerd'' e), opened)
           | (Inr store, opened) \<Rightarrow>
               (case secureServer (po_tls po) fl (NewServer store (ag_grpcPort fl)) of
                  Inl e \<Rightarrow> (Inl e, opened @ Close)
                | Inr srv \<Rightarrow> (case Server_Start po srv of (r, served) \<Rightarrow> (r, opened @ served @ Close)))))"

definition agentCmd :: "'i process_ops \<Rightarrow> agent_flags \<Rightarrow> unit result \<times> 'i process_effect list" where
  "agentCmd po fl =
     (case ValidateTLSFlags (ag_tlsCert fl) (ag_tlsKey fl) (ag_tlsCA fl) of
        Inl e \<Rightarrow> (Inl e, [])
      | Inr _ \<Rightarrow> runAgent po fl)"

section \<open>The doctor command\<close>

text \<open>A command returns an error or nil to cobra, or ends the process.\<close>

datatype exit = Returned "unit result" | Exited nat

definition report :: "Result \<Rightarrow> string" where
  "report r = encodeJSON True 0 (result_json r) @ [CHR 0x0A]"

text \<open>What is written to standard output is the second component.\<close>

definition doctorCmd ::
  "unit result \<Rightarrow> clientset result \<Rightarrow> (string \<Rightarrow> unit result) \<Rightarrow> string \<Rightarrow> exit \<times> string" where
  "doctorCmd getConfig newForConfig write namespace =
     (case getConfig of
        Inl e \<Rightarrow> (Exited 1, '''')
      | Inr _ \<Rightarrow>
          (case newForConfig of
             Inl e \<Rightarrow> (Returned (Inl (wrapf ''creating kubernetes client'' e)), '''')
           | Inr cl \<Rightarrow>
               (let result = Run cl namespace
                in case write (report result) of
                     Inl e \<Rightarrow> (Returned (Inl (wrapf ''encoding result'' e)), '''')
                   | Inr _ \<Rightarrow> (if \<not> res_OK result then Exited 1 else Returned (Inr ()), report result))))"

section \<open>The root command\<close>

text \<open>What cobra makes of the command line: a command with its flags. The bare command runs the controller's
  function on the controller's flags.\<close>

datatype invocation = Bare controller_flags | Controller_sub controller_flags | Agent_sub agent_flags | Doctor_sub string

definition newRootCmd ::
  "(controller_flags \<Rightarrow> exit) \<Rightarrow> (agent_flags \<Rightarrow> exit) \<Rightarrow> (string \<Rightarrow> exit) \<Rightarrow> invocation \<Rightarrow> exit" where
  "newRootCmd controller agnt doctor cmdline =
     (case cmdline of
        Bare fl \<Rightarrow> controller fl
      | Controller_sub fl \<Rightarrow> controller fl
      | Agent_sub fl \<Rightarrow> agnt fl
      | Doctor_sub ns \<Rightarrow> doctor ns)"

definition main_exit :: "exit \<Rightarrow> nat" where
  "main_exit x = (case x of Returned (Inl e) \<Rightarrow> 1 | Returned (Inr _) \<Rightarrow> 0 | Exited n \<Rightarrow> n)"

section \<open>Properties\<close>


definition example_process :: "(string \<times> string) list process_ops" where
  "example_process = \<lparr>po_Stat = (\<lambda>p. Inr ()), po_NewContainerd = (\<lambda>p n. Inr (table_containerd [])), po_Listen = (\<lambda>a. Inr ()),
     po_Serve = Inr (), po_tls = mn_tls example_main\<rparr>"


lemma parse_report: "parse_json (report r) = Some (valid_json (result_json r))"
proof -
  have "fits maxNestingDepth (result_json r)" by (auto simp: result_json_def check_json_def maxNestingDepth_def)
  moreover have "blanks [CHR 0x0A]" by (simp add: blanks_def blank_def)
  ultimately show ?thesis unfolding report_def by (rule parse_encode)
qed



end
