(* ===== verification/Webhook.thy ===== *)
theory Webhook
  imports Go_Json
begin

text \<open>
  \<open>internal/webhook/validate.go\<close>: the admission handler for tote.dev annotations, from the raw JSON of
  the object. Go ranges over the annotation map in an unspecified order, which is the argument
  \<open>order\<close>; the quoting of the message (\<open>%q\<close>) is an argument too.
\<close>

datatype Response = Allowed string | Denied string

definition knownAnnotations :: "string \<Rightarrow> bool" where
  "knownAnnotations k = (k = ''tote.dev/allow'' \<or> k = ''tote.dev/auto-salvage'')"

fun annotationLoop :: "(string \<Rightarrow> string) \<Rightarrow> (string \<times> string) list \<Rightarrow> Response" where
  "annotationLoop quote [] = Allowed ''''"
| "annotationLoop quote ((key, val) # rest) =
     (if \<not> HasPrefix key ''tote.dev/'' then annotationLoop quote rest
      else if \<not> knownAnnotations key
           then Denied (''unknown tote.dev annotation '' @ quote key @ ''; valid annotations: tote.dev/allow, tote.dev/auto-salvage'')
      else if val \<noteq> ''true'' \<and> val \<noteq> ''false''
           then Denied (''annotation '' @ quote key @ '' must be \"true\" or \"false\", got '' @ quote val)
      else annotationLoop quote rest)"

text \<open>The anonymous struct has one field with one field: the annotations.\<close>

definition decodeMetadata :: "json \<Rightarrow> (string \<times> string) list \<Rightarrow> (string \<times> string) list \<times> bool" where
  "decodeMetadata =
     decodeStruct (\<lambda>k. if field ''annotations'' k then Some (decodeMap (\<lambda>j. decodeString j '''')) else None)"

definition decodeMeta :: "json \<Rightarrow> (string \<times> string) list \<Rightarrow> (string \<times> string) list \<times> bool" where
  "decodeMeta = decodeStruct (\<lambda>k. if field ''metadata'' k then Some decodeMetadata else None)"

definition Handle ::
  "((string \<times> string) list \<Rightarrow> (string \<times> string) list) \<Rightarrow> (string \<Rightarrow> string) \<Rightarrow> string \<Rightarrow> Response" where
  "Handle order quote raw =
     (case Unmarshal decodeMeta raw [] of
        None \<Rightarrow> Allowed ''''
      | Some annotations \<Rightarrow> annotationLoop quote (order annotations))"

definition valid_annotation :: "string \<times> string \<Rightarrow> bool" where
  "valid_annotation kv \<longleftrightarrow>
     (prefix ''tote.dev/'' (fst kv) \<longrightarrow>
        fst kv \<in> {''tote.dev/allow'', ''tote.dev/auto-salvage''} \<and> snd kv \<in> {''true'', ''false''})"

lemma annotationLoop_allowed: "(annotationLoop quote as = Allowed msg) \<longleftrightarrow> msg = '''' \<and> (\<forall>kv \<in> set as. valid_annotation kv)"
  by (induction quote as rule: annotationLoop.induct)
     (auto simp: HasPrefix_def valid_annotation_def knownAnnotations_def)

section \<open>The annotations of an object\<close>

text \<open>Members the struct does not have are skipped.\<close>

definition others :: "string \<Rightarrow> (string \<times> json) list \<Rightarrow> bool" where
  "others nam kvs \<longleftrightarrow> (\<forall>kv \<in> set kvs. \<not> field nam (fst kv))"

lemma decodeStruct_one:
  assumes "others nam xs" "others nam ys"
  shows "decodeStruct (\<lambda>k. if field nam k then Some f else None) (JObject (xs @ (nam, v) # ys)) x = f v x"
proof -
  let ?step = "\<lambda>(x, ok) (k, v). case (if field nam k then Some f else None) of
      None \<Rightarrow> (x, ok) | Some f \<Rightarrow> (case f v x of (x', ok') \<Rightarrow> (x', ok \<and> ok'))"
  have skip: "foldl ?step p kvs = p" if "others nam kvs" for p kvs
    using that by (induction kvs arbitrary: p) (auto simp: others_def split: prod.splits)
  show ?thesis
    unfolding decodeStruct_def json.case foldl_append foldl_Cons skip[OF assms(1)] skip[OF assms(2)]
    by (simp add: field_def split: prod.splits)
qed

lemma decode_annotations:
  assumes "distinct (map fst as)"
  shows "\<exists>m. decodeMap (\<lambda>j. decodeString j '''') (JObject (map (map_prod id JString) as)) [] = (m, True) \<and> set m = set as"
proof -
  have "\<exists>m. decodeMap (\<lambda>j. decodeString j '''') (JObject (map (map_prod id JString) as)) [] = (m, True) \<and> distinct (map fst m) \<and>
     map_of m = map_of [] ++ map_of (rev (map (map_prod id (fst \<circ> (\<lambda>j. decodeString j ''''))) (map (map_prod id JString) as)))"
    by (rule decodeMap_object) (auto simp: decodeString_def)
  moreover have "map (map_prod id (fst \<circ> (\<lambda>j. decodeString j ''''))) (map (map_prod id JString) as) = as"
    by (induction as) (auto simp: decodeString_def)
  ultimately show ?thesis
    using map_of_rev_distinct[OF assms] map_of_inject_set[OF _ assms] by auto
qed

text \<open>C39: which objects are admitted. An object is admitted exactly if its raw JSON cannot be decoded or each of
  its annotations under tote.dev/ is one of the two the operator knows, with the value true or false,
  in whatever order Go visits the annotations. In particular, for an object whose JSON has one member
  \<open>metadata\<close> with one member \<open>annotations\<close>, among any others, these are the annotations
  written there.\<close>

theorem Handle_verdict:
  assumes order: "\<And>as. set (order as) = set as"
    and raw: "parse_json raw = Some (JObject (xs @ (''metadata'', JObject (us @ (''annotations'', JObject (map (map_prod id JString) as)) # vs)) # ys))"
    and one: "others ''metadata'' xs" "others ''metadata'' ys" "others ''annotations'' us" "others ''annotations'' vs" "distinct (map fst as)"
  shows "(Handle order quote raw = Allowed '''' \<longleftrightarrow> (\<forall>kv \<in> set as. valid_annotation kv))
     \<and> (Handle order quote other = Allowed '''' \<longleftrightarrow>
          (case Unmarshal decodeMeta other [] of None \<Rightarrow> True | Some bs \<Rightarrow> (\<forall>kv \<in> set bs. valid_annotation kv)))"
proof -
  have verdict: "Handle order quote t = Allowed '''' \<longleftrightarrow>
      (case Unmarshal decodeMeta t [] of None \<Rightarrow> True | Some bs \<Rightarrow> (\<forall>kv \<in> set bs. valid_annotation kv))" for t
    using order by (simp add: Handle_def annotationLoop_allowed split: option.splits)
  obtain m where m: "decodeMap (\<lambda>j. decodeString j '''') (JObject (map (map_prod id JString) as)) [] = (m, True)" "set m = set as"
    using decode_annotations[OF one(5)] by blast
  have "Unmarshal decodeMeta raw [] = Some m"
    using raw m(1) by (simp add: Unmarshal_def decodeMeta_def decodeMetadata_def decodeStruct_one one)
  with verdict[of raw] verdict[of other] m(2) show ?thesis by simp
qed

definition example_pod_json :: json where
  "example_pod_json = JObject [(''kind'', JString ''Pod''), (''metadata'', JObject [(''name'', JString ''web''),
     (''annotations'', JObject [(''tote.dev/alow'', JString ''true'')])])]"

theorem Handle_verdict_witness:
  "Handle rev id (Marshal example_pod_json) \<noteq> Allowed ''''"
proof -
  have "fits maxNestingDepth example_pod_json" by (simp add: example_pod_json_def maxNestingDepth_def)
  from parse_encode[OF this, of "[]" False 0]
  have raw: "parse_json (Marshal example_pod_json) = Some (JObject ([(''kind'', JString ''Pod'')] @ (''metadata'', JObject ([(''name'', JString ''web'')] @
      (''annotations'', JObject (map (map_prod id JString) [(''tote.dev/alow'', ''true'')])) # [])) # []))"
    by (simp add: Marshal_def blanks_def example_pod_json_def to_valid_ascii del: encodeJSON.simps)
  have "(Handle rev id (Marshal example_pod_json) = Allowed '''' \<longleftrightarrow> (\<forall>kv \<in> set [(''tote.dev/alow'', ''true'')]. valid_annotation kv))"
    by (rule Handle_verdict[OF _ raw, THEN conjunct1]) (simp_all add: others_def field_def)
  then show ?thesis by (auto simp: valid_annotation_def)
qed

end
