(* ===== verification/Agent_Pipe.thy ===== *)
theory Agent_Pipe
  imports Agent_Server
begin

text \<open>
  \<open>internal/agent/server.go\<close>: the goroutines of \<open>ExportImage\<close> and \<open>ImportFrom\<close>. Both handlers connect a
  producer and a consumer by an \<open>io.Pipe\<close>, and \<open>Agent_Server\<close> treats what passes as a list. Here the
  two run step by step, in any interleaving: a write blocks until its bytes are read, a read takes at most
  one buffer of the write in progress, closing the write end is the end of file for the reader, and
  a write into a pipe whose read end was closed fails. The consumer of \<open>ExportImage\<close> closes its end when a
  send fails; the consumer of \<open>ImportFrom\<close> is the image store, which may stop reading without
  closing. The lemmas show that every schedule terminates, that the export handler computes what its
  sequential model says, and what an early end of an import leaves behind.
\<close>

section \<open>The pipe\<close>

datatype consumer = Reading | AtEOF | ClosedRead | Gone

record pipe =
  pp_todo :: "bytes list"
  pp_cur :: "bytes option"
  pp_wclosed :: bool
  pp_failed :: bool
  pp_got :: "bytes list"
  pp_consumer :: consumer

text \<open>What the consumer does after a read is its policy, a function of all that it has read so far.\<close>

type_synonym policy = "bytes list \<Rightarrow> consumer option"

definition next_consumer :: "policy \<Rightarrow> bytes list \<Rightarrow> consumer" where
  "next_consumer pol got = (case pol got of None \<Rightarrow> Reading | Some c \<Rightarrow> c)"

definition pipe_init :: "policy \<Rightarrow> bytes list \<Rightarrow> pipe" where
  "pipe_init pol ws = \<lparr>pp_todo = ws, pp_cur = None, pp_wclosed = False, pp_failed = False, pp_got = [],
     pp_consumer = next_consumer pol []\<rparr>"

definition rest_of :: "nat \<Rightarrow> bytes \<Rightarrow> bytes option" where
  "rest_of n b = (if drop n b = [] then None else Some (drop n b))"

inductive pipe_step :: "nat \<Rightarrow> policy \<Rightarrow> pipe \<Rightarrow> pipe \<Rightarrow> bool" for n pol where
  begin_write: "pp_cur s = None \<Longrightarrow> pp_todo s = b # bs \<Longrightarrow>
    pipe_step n pol s (s\<lparr>pp_cur := Some b, pp_todo := bs\<rparr>)"
| read: "pp_consumer s = Reading \<Longrightarrow> pp_cur s = Some b \<Longrightarrow> got = pp_got s @ [take n b] \<Longrightarrow>
    pipe_step n pol s (s\<lparr>pp_cur := rest_of n b, pp_got := got, pp_consumer := next_consumer pol got\<rparr>)"
| broken: "pp_consumer s = ClosedRead \<Longrightarrow> pp_cur s = Some b \<Longrightarrow>
    pipe_step n pol s (s\<lparr>pp_cur := None, pp_todo := [], pp_failed := True\<rparr>)"
| close_write: "pp_cur s = None \<Longrightarrow> pp_todo s = [] \<Longrightarrow> \<not> pp_wclosed s \<Longrightarrow>
    pipe_step n pol s (s\<lparr>pp_wclosed := True\<rparr>)"
| eof: "pp_consumer s = Reading \<Longrightarrow> pp_wclosed s \<Longrightarrow>
    pipe_step n pol s (s\<lparr>pp_consumer := AtEOF\<rparr>)"

inductive_cases pipe_stepE: "pipe_step n pol s s'"

definition pipe_end :: "nat \<Rightarrow> policy \<Rightarrow> pipe \<Rightarrow> bool" where
  "pipe_end n pol s \<longleftrightarrow> (\<forall>s'. \<not> pipe_step n pol s s')"

text \<open>The consumer of \<open>ExportImage\<close>: each non-empty read is sent, and the read end is closed when the send fails.\<close>

definition sendable :: "bytes list \<Rightarrow> bytes list" where
  "sendable got = filter (\<lambda>c. c \<noteq> []) got"

definition export_policy :: "(nat \<Rightarrow> unit result) \<Rightarrow> policy" where
  "export_policy send got =
     (if got \<noteq> [] \<and> last got \<noteq> [] \<and> \<not> is_ok (send (length (sendable got) - 1)) then Some ClosedRead else None)"

text \<open>The consumer of \<open>ImportFrom\<close>: the store reads until it has what it needs, and never closes the pipe.\<close>

definition import_policy :: "(bytes list \<Rightarrow> bool) \<Rightarrow> policy" where
  "import_policy satisfied got = (if satisfied got then Some Gone else None)"

section \<open>Termination\<close>

definition cur_weight :: "bytes option \<Rightarrow> nat" where
  "cur_weight c = (case c of None \<Rightarrow> 0 | Some b \<Rightarrow> length b + 2)"

definition pipe_weight :: "pipe \<Rightarrow> nat" where
  "pipe_weight s = sum_list (map (\<lambda>w. length w + 3) (pp_todo s)) + cur_weight (pp_cur s)
     + (if pp_wclosed s then 0 else 1) + (if pp_consumer s = Reading then 1 else 0)"

lemma rest_weight: "0 < n \<Longrightarrow> cur_weight (rest_of n b) < cur_weight (Some b)"
  by (auto simp: rest_of_def cur_weight_def)

lemma pipe_step_decreases:
  assumes "0 < n" and "pipe_step n pol s s'"
  shows "pipe_weight s' < pipe_weight s"
  using assms(2)
proof cases
  case (read b got)
  with rest_weight[OF assms(1), of b] show ?thesis by (simp add: pipe_weight_def)
qed (auto simp: pipe_weight_def cur_weight_def)

lemma pipe_steps_weight:
  assumes "0 < n" and "(pipe_step n pol ^^ k) s s'"
  shows "k + pipe_weight s' \<le> pipe_weight s"
  using assms(2)
proof (induction k arbitrary: s')
  case (Suc k)
  then obtain t where "(pipe_step n pol ^^ k) s t" "pipe_step n pol t s'" by auto
  with Suc.IH[of t] pipe_step_decreases[OF assms(1)] show ?case by fastforce
qed simp

lemma pipe_reaches_end:
  assumes "0 < n"
  shows "\<exists>s'. (pipe_step n pol)\<^sup>*\<^sup>* s s' \<and> pipe_end n pol s'"
proof (induction s rule: measure_induct_rule[of pipe_weight])
  case (less s)
  show ?case
  proof (cases "pipe_end n pol s")
    case False
    then obtain t where t: "pipe_step n pol s t" by (auto simp: pipe_end_def)
    with less[of t] pipe_step_decreases[OF assms t] show ?thesis
      by (meson converse_rtranclp_into_rtranclp)
  qed blast
qed

section \<open>What the consumer gets\<close>

text \<open>The reads that empty a write: one empty read for an empty write.\<close>

definition reads_of :: "nat \<Rightarrow> bytes \<Rightarrow> bytes list" where
  "reads_of n w = (if w = [] then [[]] else pieces n w)"

definition all_reads :: "nat \<Rightarrow> bytes list \<Rightarrow> bytes list" where
  "all_reads n ws = concat (map (reads_of n) ws)"

lemma all_reads_simps [simp]: "all_reads n [] = []" "all_reads n (w # ws) = reads_of n w @ all_reads n ws"
  by (simp_all add: all_reads_def)

lemma reads_of_unfold:
  "0 < n \<Longrightarrow> reads_of n b = take n b # (case rest_of n b of None \<Rightarrow> [] | Some r \<Rightarrow> reads_of n r)"
  by (auto simp: reads_of_def rest_of_def pieces.simps[of n b]) (simp_all add: pieces.simps[of n "[]"] pieces.simps[of n "drop n b"])

lemma pieces_nonempty: "filter (\<lambda>c. c \<noteq> []) (pieces n w) = pieces n w"
  using pieces_bounds[of _ n w] by (auto simp: filter_id_conv)

lemma sendable_all_reads: "sendable (all_reads exportChunkSize ws) = pipe_reads ws"
  by (induction ws)
     (auto simp: sendable_def pipe_reads_def reads_of_def pieces_nonempty pieces.simps[of _ "[]"])

lemma concat_all_reads: "0 < n \<Longrightarrow> concat (all_reads n ws) = concat ws"
  by (induction ws) (auto simp: reads_of_def pieces_concat)

definition cur_reads :: "nat \<Rightarrow> bytes option \<Rightarrow> bytes list" where
  "cur_reads n c = (case c of None \<Rightarrow> [] | Some b \<Rightarrow> reads_of n b)"

text \<open>The invariant: what was read and what is still to be read is always the same list, the consumer
  reads on only while its policy says so, and the write end is closed after the last write.\<close>

definition pipe_inv :: "nat \<Rightarrow> policy \<Rightarrow> bytes list \<Rightarrow> pipe \<Rightarrow> bool" where
  "pipe_inv n pol ws s \<longleftrightarrow>
     (if pp_failed s then prefix (pp_got s) (all_reads n ws) \<and> pp_consumer s = ClosedRead
      else pp_got s @ cur_reads n (pp_cur s) @ all_reads n (pp_todo s) = all_reads n ws)
     \<and> (\<forall>p. strict_prefix p (pp_got s) \<longrightarrow> pol p = None)
     \<and> (pp_consumer s = next_consumer pol (pp_got s) \<or> pp_consumer s = AtEOF \<and> pol (pp_got s) = None)
     \<and> (pp_wclosed s \<longrightarrow> pp_cur s = None \<and> pp_todo s = [])
     \<and> (pp_consumer s = AtEOF \<longrightarrow> pp_wclosed s)"

text \<open>A policy ends the reading only by closing or by going away.\<close>

definition proper :: "policy \<Rightarrow> bool" where
  "proper pol \<longleftrightarrow> (\<forall>got. pol got \<in> {None, Some ClosedRead, Some Gone})"

lemma proper_policies: "proper (export_policy send)" "proper (import_policy sat)"
  by (simp_all add: proper_def export_policy_def import_policy_def)

lemma next_consumer_simps:
  assumes "proper pol"
  shows "next_consumer pol got = Reading \<longleftrightarrow> pol got = None" "Reading = next_consumer pol got \<longleftrightarrow> pol got = None"
    "next_consumer pol got \<noteq> AtEOF" "AtEOF \<noteq> next_consumer pol got"
proof -
  from assms have "pol got \<in> {None, Some ClosedRead, Some Gone}" unfolding proper_def ..
  then consider "pol got = None" | "pol got = Some ClosedRead" | "pol got = Some Gone" by auto
  then show "next_consumer pol got = Reading \<longleftrightarrow> pol got = None" "Reading = next_consumer pol got \<longleftrightarrow> pol got = None"
    "next_consumer pol got \<noteq> AtEOF" "AtEOF \<noteq> next_consumer pol got"
    by (cases; simp add: next_consumer_def)+
qed

lemma pipe_inv_prefix: "pipe_inv n pol ws s \<Longrightarrow> prefix (pp_got s) (all_reads n ws)"
  by (cases "pp_failed s") (auto simp: pipe_inv_def intro!: prefixI[OF sym])

lemma pipe_inv_init: "proper pol \<Longrightarrow> pipe_inv n pol ws (pipe_init pol ws)"
  by (simp add: pipe_inv_def pipe_init_def cur_reads_def next_consumer_simps)

lemma pipe_inv_step:
  assumes "0 < n" and "proper pol" and "pipe_step n pol s s'" and "pipe_inv n pol ws s"
  shows "pipe_inv n pol ws s'"
  using assms(3)
proof cases
  case (begin_write b bs)
  with assms(4) show ?thesis by (auto simp: pipe_inv_def cur_reads_def split: if_splits)
next
  case (read b got)
  have "pol (pp_got s) = None" using read assms(2,4) by (auto simp: pipe_inv_def next_consumer_simps split: if_splits)
  then have "pol p = None" if "strict_prefix p got" for p
    using that read(4) assms(4) by (auto simp: pipe_inv_def strict_prefix_def prefix_snoc)
  with read assms(1,2,4) show ?thesis
    by (auto simp: pipe_inv_def cur_reads_def reads_of_unfold[OF assms(1), of b] next_consumer_simps split: option.splits if_splits)
next
  case (broken b)
  with pipe_inv_prefix[OF assms(4)] assms(4) show ?thesis by (auto simp: pipe_inv_def)
next
  case close_write
  with assms(4) show ?thesis by (auto simp: pipe_inv_def cur_reads_def)
next
  case eof
  with assms(2,4) show ?thesis by (auto simp: pipe_inv_def next_consumer_simps split: if_splits)
qed

lemma pipe_inv_reachable:
  assumes "0 < n" and "proper pol" and "(pipe_step n pol)\<^sup>*\<^sup>* (pipe_init pol ws) s"
  shows "pipe_inv n pol ws s"
  using assms(3) by (induction rule: rtranclp_induct) (auto intro: pipe_inv_init pipe_inv_step assms(1,2))

text \<open>A run ends in one of three ways: everything was read, the consumer closed its end and nothing is
  pending, or the consumer is gone, in which case a write is pending unless everything was read.\<close>

lemma pipe_endE:
  assumes "0 < n" and "proper pol" and "(pipe_step n pol)\<^sup>*\<^sup>* (pipe_init pol ws) s" and "pipe_end n pol s"
  obtains (complete) "pp_consumer s = AtEOF" "pp_cur s = None" "pp_wclosed s"
      "pp_got s = all_reads n ws" "\<forall>p. prefix p (pp_got s) \<longrightarrow> pol p = None"
  | (closed) "pol (pp_got s) = Some ClosedRead" "pp_cur s = None" "pp_wclosed s" "prefix (pp_got s) (all_reads n ws)"
  | (gone) "pol (pp_got s) = Some Gone" "prefix (pp_got s) (all_reads n ws)"
      "pp_got s = all_reads n ws \<or> pp_cur s \<noteq> None"
      "\<forall>p. strict_prefix p (pp_got s) \<longrightarrow> pol p = None"
proof -
  have inv: "pipe_inv n pol ws s" by (rule pipe_inv_reachable[OF assms(1-3)])
  note pre = pipe_inv_prefix[OF inv]
  have idle: "pp_todo s = []" "pp_wclosed s" if "pp_cur s = None"
    using that assms(4) pipe_step.begin_write[of s] pipe_step.close_write[of s] unfolding pipe_end_def
    by (meson neq_Nil_conv)+
  consider "pp_consumer s = AtEOF" | "pp_consumer s = Reading" | "pp_consumer s = ClosedRead" | "pp_consumer s = Gone"
    by (cases "pp_consumer s") auto
  then show thesis
  proof cases
    case 1
    with inv assms(2) have "pp_wclosed s" "pp_cur s = None" "pp_todo s = []" "\<not> pp_failed s" "pol (pp_got s) = None"
      by (auto simp: pipe_inv_def next_consumer_simps split: if_splits)
    moreover from inv this have "pol p = None" if "prefix p (pp_got s)" for p
      using that by (auto simp: pipe_inv_def prefix_order.le_less)
    ultimately show thesis using complete inv 1 by (auto simp: pipe_inv_def cur_reads_def)
  next
    case 2
    then have "pp_cur s = None"
      using assms(4) pipe_step.read[OF 2 _ refl] unfolding pipe_end_def by (cases "pp_cur s") auto
    with idle have "pp_wclosed s" by simp
    with 2 assms(4) pipe_step.eof show thesis unfolding pipe_end_def by blast
  next
    case 3
    then have "pp_cur s = None"
      using assms(4) pipe_step.broken[OF 3] unfolding pipe_end_def by (cases "pp_cur s") auto
    moreover have "pol (pp_got s) = Some ClosedRead"
      using 3 inv by (auto simp: pipe_inv_def next_consumer_def split: option.splits)
    ultimately show thesis using closed idle pre by blast
  next
    case 4
    with inv have "pol (pp_got s) = Some Gone" "\<not> pp_failed s"
      by (auto simp: pipe_inv_def next_consumer_def split: option.splits if_splits)
    moreover have "pp_got s = all_reads n ws" if "pp_cur s = None"
      using that idle inv \<open>\<not> pp_failed s\<close> by (auto simp: pipe_inv_def cur_reads_def)
    ultimately show thesis using gone pre inv by (auto simp: pipe_inv_def)
  qed
qed

section \<open>Sending through the pipe\<close>

lemma send_loop_stops:
  assumes "send_loop send i xs = (sent, Inl e)"
  shows "send_loop send i (xs @ ys) = (sent, Inl e)"
  using assms
proof (induction send i xs arbitrary: sent rule: send_loop.induct)
  case (2 send i c cs)
  then show ?case by (cases "send i") (auto split: prod.splits)
qed simp

lemma send_loop_fails:
  assumes "\<not> is_ok (send (i + k))" and "k < length xs"
  shows "\<exists>sent e. send_loop send i xs = (sent, Inl e)"
  using assms
proof (induction send i xs arbitrary: k rule: send_loop.induct)
  case (2 send i c cs)
  show ?case
  proof (cases "send i")
    case (Inr u)
    with 2(2) obtain k' where k': "k = Suc k'" by (cases k) auto
    with 2(1)[OF Inr, of k'] 2(2,3) obtain sent e where "send_loop send (Suc i) cs = (sent, Inl e)" by auto
    then show ?thesis using Inr by simp
  qed simp
qed simp

lemma export_policy_closes:
  assumes "export_policy send got = Some ClosedRead"
  shows "\<exists>sent e. send_loop send 0 (sendable got) = (sent, Inl e)"
proof -
  from assms have "got \<noteq> []" "last got \<noteq> []" and fails: "\<not> is_ok (send (length (sendable got) - 1))"
    by (auto simp: export_policy_def split: if_splits)
  then have "sendable got \<noteq> []"
    using last_in_set[of got] by (auto simp: sendable_def filter_empty_conv)
  with fails show ?thesis by (intro send_loop_fails[of _ 0 "length (sendable got) - 1"]) simp_all
qed

lemma sendable_prefix: "prefix xs ys \<Longrightarrow> \<exists>zs. sendable ys = sendable xs @ zs"
  by (auto simp: prefix_def sendable_def)

section \<open>Properties\<close>


text \<open>A run on one write of three bytes with a buffer of two.\<close>

definition example_run :: pipe where
  "example_run = \<lparr>pp_todo = [], pp_cur = Some ''c'', pp_wclosed = False, pp_failed = False, pp_got = [''ab''],
     pp_consumer = Reading\<rparr>"

lemma example_run_steps:
  assumes "next_consumer pol [] = Reading" and "next_consumer pol [''ab''] = c"
  shows "(pipe_step 2 pol ^^ 2) (pipe_init pol [''abc'']) (example_run\<lparr>pp_consumer := c\<rparr>)"
proof -
  let ?s = "\<lparr>pp_todo = [], pp_cur = Some ''abc'', pp_wclosed = False, pp_failed = False, pp_got = [], pp_consumer = Reading\<rparr>"
  have "pipe_step 2 pol (pipe_init pol [''abc'']) ?s"
    using pipe_step.begin_write[of "pipe_init pol [''abc'']" "''abc''" "[]"] assms(1) by (simp add: pipe_init_def)
  moreover have "pipe_step 2 pol ?s (example_run\<lparr>pp_consumer := c\<rparr>)"
    using pipe_step.read[of ?s "''abc''" "[''ab'']" 2 pol] assms(2) by (simp add: rest_of_def example_run_def)
  ultimately show ?thesis by (auto simp: numeral_2_eq_2)
qed


text \<open>C16: for every schedule of its two goroutines the export handler does what its sequential model says.
  When nothing more can happen, sending the non-empty reads gives the same chunks and the same result
  as sending the pieces of the whole export, the exporting goroutine is not left blocked, and if no send
  failed the consumer has seen the end of the file and every byte in order.\<close>

theorem export_schedules_agree:
  assumes "(pipe_step exportChunkSize (export_policy send))\<^sup>*\<^sup>* (pipe_init (export_policy send) ws) s"
    and "pipe_end exportChunkSize (export_policy send) s"
  shows "send_loop send 0 (sendable (pp_got s)) = send_loop send 0 (pipe_reads ws)
     \<and> pp_cur s = None \<and> pp_wclosed s
     \<and> (is_ok (snd (send_loop send 0 (pipe_reads ws))) \<longrightarrow> pp_consumer s = AtEOF \<and> concat (pp_got s) = concat ws)"
proof -
  have n: "0 < exportChunkSize" by (simp add: exportChunkSize_def)
  from n proper_policies(1) assms show ?thesis
  proof (cases rule: pipe_endE)
    case complete
    then show ?thesis by (simp add: sendable_all_reads concat_all_reads[OF n])
  next
    case closed
    from export_policy_closes[OF closed(1)] obtain sent e where e: "send_loop send 0 (sendable (pp_got s)) = (sent, Inl e)"
      by blast
    from sendable_prefix[OF closed(4)] obtain zs where "pipe_reads ws = sendable (pp_got s) @ zs"
      by (auto simp: sendable_all_reads)
    with send_loop_stops[OF e] e closed show ?thesis by simp
  next
    case gone
    then show ?thesis by (simp add: export_policy_def split: if_splits)
  qed
qed

theorem export_schedules_agree_witness:
  "\<exists>s :: pipe. send_loop (\<lambda>_. Inr ()) 0 (sendable (pp_got s)) = send_loop (\<lambda>_. Inr ()) 0 (pipe_reads [''abc'', '''', ''d''])
     \<and> pp_consumer s = AtEOF \<and> concat (pp_got s) = ''abcd''"
proof -
  let ?pol = "export_policy (\<lambda>_. Inr ())"
  obtain s where s: "(pipe_step exportChunkSize ?pol)\<^sup>*\<^sup>* (pipe_init ?pol [''abc'', '''', ''d'']) s"
    "pipe_end exportChunkSize ?pol s"
    using pipe_reaches_end[of exportChunkSize] by (auto simp: exportChunkSize_def)
  have "is_ok (snd (send_loop (\<lambda>_. Inr ()) 0 (pipe_reads [''abc'', '''', ''d''])))"
    by (simp add: send_loop_ok)
  with export_schedules_agree[OF s] show ?thesis by (intro exI[of _ s]) simp
qed



end
