(* ===== verification/Reconcile_Runs.thy ===== *)
theory Reconcile_Runs
  imports Controller
begin

text \<open>
  Reconciliations one after the other, as the manager runs them (controller-runtime reconciles one
  request at a time unless it is told otherwise, and \<open>SetupWithManager\<close> does not). What one
  reconciliation leaves behind for the next are the SalvageRecords in the API server: the contract of
  that part of the API is the locale \<open>record_api\<close>, and the lemmas show what \<open>hasSalvageRecord\<close> makes of it over a
  whole run.
\<close>

section \<open>Runs\<close>

fun reconciles :: "'e env_ops \<Rightarrow> 'e PodReconciler \<Rightarrow> (string \<times> string) list \<Rightarrow> ('e, ReconcileResult list) act" where
  "reconciles ops r [] = return []"
| "reconciles ops r ((ns, name) # reqs) = do {
     x \<leftarrow> Reconcile ops r ns name;
     xs \<leftarrow> reconciles ops r reqs;
     return (x # xs)
   }"

text \<open>The namespaces and digests of completed records.\<close>

definition done_keys :: "SalvageRecord list \<Rightarrow> (string \<times> string) list" where
  "done_keys rs = map (\<lambda>rc. (rec_Namespace rc, Digest (rec_Spec rc))) (filter (\<lambda>rc. Phase (rec_Status rc) = ''Completed'') rs)"

lemma done_keys_append [simp]: "done_keys (rs @ rs') = done_keys rs @ done_keys rs'"
  by (simp add: done_keys_def)

definition creates :: "effect list \<Rightarrow> SalvageRecord list" where
  "creates es = List.map_filter (\<lambda>x. case x of RecordCreate rc \<Rightarrow> Some rc | _ \<Rightarrow> None) es"

lemma creates_simps [simp]:
  "creates [] = []" "creates (xs @ ys) = creates xs @ creates ys" "creates (RecordCreate rc # es) = rc # creates es"
  "creates (Recorded ev # es) = creates es" "creates (Posted u n # es) = creates es"
  "creates (PodDelete a b # es) = creates es" "creates (RecordDelete a b # es) = creates es"
  "creates (AgentCall ep c # es) = creates es"
  by (simp_all add: creates_def List.map_filter_def)

lemma creates_acts: "creates (acts es) = creates es"
proof (induction es)
  case (Cons x es)
  then show ?case by (cases x) simp_all
qed simp

text \<open>The effects that move or record the image of a digest.\<close>

definition transfers :: "string \<Rightarrow> effect \<Rightarrow> bool" where
  "transfers d x = (case x of
      RecordCreate rc \<Rightarrow> Digest (rec_Spec rc) = d
    | AgentCall ep (CallPrepareExport q) \<Rightarrow> pe_Digest q = d
    | AgentCall ep (CallImportFrom q) \<Rightarrow> if_Digest q = d
    | AgentCall ep (CallPushImage q) \<Rightarrow> pi_Digest q = d
    | _ \<Rightarrow> False)"

lemma transfers_simps [simp]:
  "transfers d (RecordCreate rc) \<longleftrightarrow> Digest (rec_Spec rc) = d"
  "transfers d (AgentCall ep (CallPrepareExport q)) \<longleftrightarrow> pe_Digest q = d"
  "transfers d (AgentCall ep (CallImportFrom iq)) \<longleftrightarrow> if_Digest iq = d"
  "transfers d (AgentCall ep (CallPushImage pq)) \<longleftrightarrow> pi_Digest pq = d"
  "\<not> transfers d (AgentCall ep (CallResolveTag rq))" "\<not> transfers d (AgentCall ep (CallRemoveImage mq))"
  "\<not> transfers d (Recorded ev)" "\<not> transfers d (Posted u n)" "\<not> transfers d (PodDelete a b)" "\<not> transfers d (RecordDelete a b)"
  by (simp_all add: transfers_def)

lemma salvage_effect_transfers: "salvage_effect pod d sn x \<Longrightarrow> d' \<noteq> d \<Longrightarrow> \<not> transfers d' x"
proof (cases x)
  case (AgentCall ep c)
  then show "salvage_effect pod d sn x \<Longrightarrow> d' \<noteq> d \<Longrightarrow> \<not> transfers d' x" by (cases c) auto
qed auto

section \<open>The record API\<close>

text \<open>
  \<open>recs e\<close> are the SalvageRecords of the cluster. A successful create adds the record as it was given and a failed
  one adds nothing; the cached list with a namespace and an indexed digest returns exactly the
  records that the registered index function files under it; nothing else that the controller calls
  changes the records.
\<close>

locale record_api =
  fixes ops :: "'e env_ops"
    and recs :: "'e \<Rightarrow> SalvageRecord list"
  assumes list_indexed: "fst (list_SalvageRecords ops (Some (ns, d)) e) =
      Inr (filter (\<lambda>rc. rec_Namespace rc = ns \<and> d \<in> set (digestIndex rc)) (recs e))"
    and create_ok: "create_SalvageRecord ops rc e = (Inr u, e') \<Longrightarrow> recs e' = recs e @ [rc]"
    and create_err: "create_SalvageRecord ops rc e = (Inl x, e') \<Longrightarrow> recs e' = recs e"
    and clock_keeps: "recs (snd (time_Now ops e)) = recs e" "recs (snd (uuid_New ops e)) = recs e"
    and reads_keep: "recs (snd (get_Pod ops ns n e)) = recs e" "recs (snd (get_Namespace ops n e)) = recs e"
      "recs (snd (get_Owner ops k ns n e)) = recs e" "recs (snd (get_Secret ops ns n e)) = recs e"
      "recs (snd (list_Nodes ops e)) = recs e" "recs (snd (list_Pods ops ns l e)) = recs e"
      "recs (snd (list_SalvageRecords ops q e)) = recs e"
    and calls_keep: "recs (snd (delete_Pod ops pod e)) = recs e" "recs (snd (http_Do ops url b e)) = recs e"
      "recs (snd (rpc_PrepareExport ops ep pe e)) = recs e" "recs (snd (rpc_ImportFrom ops ep im e)) = recs e"
      "recs (snd (rpc_ResolveTag ops ep rt e)) = recs e" "recs (snd (rpc_RemoveImage ops ep rm e)) = recs e"
      "recs (snd (rpc_PushImage ops ep pq e)) = recs e"
begin

lemmas keep_rules = clock_keeps reads_keep calls_keep

end

text \<open>Every record that appears was created by a call in the history.\<close>

definition logged :: "('e \<Rightarrow> SalvageRecord list) \<Rightarrow> 'e world \<Rightarrow> 'e world \<Rightarrow> bool" where
  "logged recs w w' \<longleftrightarrow> (\<exists>es rs. trace w' = trace w @ es \<and> subseq rs (creates es) \<and> recs (env w') = recs (env w) @ rs)"

interpretation lg: effect_bound "logged recs" for recs
proof
  show "logged recs w w" for w :: "'a world"
    by (simp add: logged_def)
  show "logged recs u w" if "logged recs u v" "logged recs v w" for u v w :: "'a world"
  proof -
    from that obtain es rs fs ts where "trace v = trace u @ es" "subseq rs (creates es)" "recs (env v) = recs (env u) @ rs"
      "trace w = trace v @ fs" "subseq ts (creates fs)" "recs (env w) = recs (env v) @ ts" unfolding logged_def by blast
    then show ?thesis unfolding logged_def
      by (intro exI[of _ "es @ fs"] exI[of _ "rs @ ts"]) (simp add: list_emb_append_mono)
  qed
qed

lemma logged_prims:
  "(\<And>e. recs (snd (f e)) = recs e) \<Longrightarrow> rel_act (logged recs) (ext f)"
  "rel_act (logged recs) (emit x)" "rel_act (logged recs) (meter g)"
  "rel_act (logged recs) (on_sessions h)" "rel_act (logged recs) (on_semaphore k)"
proof -
  assume f: "\<And>e. recs (snd (f e)) = recs e"
  show "rel_act (logged recs) (ext f)"
    unfolding rel_act_def
  proof
    fix w :: "'a world"
    show "logged recs w (snd (run_state (ext f) w))"
      using f[of "env w"] by (cases "f (env w)") (simp add: logged_def)
  qed
next
  have "logged recs w (w\<lparr>trace := trace w @ [x]\<rparr>)" for w :: "'a world"
    unfolding logged_def by (intro exI[of _ "[x]"] exI[of _ "[]"]) simp
  then show "rel_act (logged recs) (emit x)" by (simp add: rel_act_def)
qed (simp_all add: rel_act_def logged_def split: prod.splits)

lemma subseq_single: "subseq rs [x] \<longleftrightarrow> rs = [] \<or> rs = [x]"
  by (cases rs) (auto simp: subseq_Cons2_iff)

section \<open>One salvage\<close>

context record_api
begin

lemma createSalvageRecord_logged: "rel_act (logged recs) (createSalvageRecord ops pod d img sn tn ph er)"
  unfolding rel_act_def
proof
  fix w :: "'e world"
  obtain now e1 where t: "time_Now ops (env w) = (now, e1)" by fastforce
  let ?rc = "salvageRecord now pod d img sn tn ph er"
  obtain x e2 where c: "create_SalvageRecord ops ?rc e1 = (x, e2)" by fastforce
  have "recs e1 = recs (env w)" using clock_keeps(1)[of "env w"] t by simp
  with create_ok[of ?rc e1 _ e2] create_err[of ?rc e1 _ e2] c obtain rs where
    "recs e2 = recs (env w) @ rs" "subseq rs [?rc]" by (cases x) auto
  with t c show "logged recs w (snd (run_state (createSalvageRecord ops pod d img sn tn ph er) w))"
    unfolding logged_def by (intro exI[of _ "[RecordCreate ?rc]"] exI[of _ rs]) (simp add: createSalvageRecord_def Let_def)
qed

lemma Notify_logged: "rel_act (logged recs) (Notify ops nt evt)"
  unfolding Notify_def by (intro lg.rel_rules logged_prims keep_rules)

lemma backup_logged: "rel_act (logged recs) (backup ops orch pod d img ep sn)"
  unfolding backup_def pushToBackupRegistry_def loadRegistryCredentials_def pushImage_def push_failure_def push_success_def
    emitter_defs
  by (intro lg.rel_rules logged_prims keep_rules Notify_logged)

lemma fail_salvage_logged: "rel_act (logged recs) (fail_salvage ops orch pod d reason)"
  unfolding fail_salvage_def emitter_defs by (intro lg.rel_rules logged_prims keep_rules Notify_logged)

lemma Salvage_logged: "rel_act (logged recs) (Salvage ops orch pod d img sn)"
  unfolding Salvage_def salvageLocked_def salvageSession_def salvageImport_def salvaged_def prepareExport_def importFrom_def
    EndpointForNode_def recreate_def deletePod_def EmitSalvaged_def Eventf_def
  by (intro lg.rel_rules logged_prims keep_rules Notify_logged backup_logged fail_salvage_logged createSalvageRecord_logged)

lemma salvage_calls_creates:
  assumes "salvage_calls ops orch pod d img sn r es"
  shows "creates es = [] \<or> (\<exists>rc. creates es = [rc] \<and> done_keys [rc] = [(pod_Namespace pod, d)])"
proof (cases r)
  case (Inl e)
  with assms have "es = [] \<or> (\<exists>tok src tgt. prefix es [prepare_call src tok d, import_call tgt tok d src])"
    by (auto simp: salvage_calls_def)
  then show ?thesis by (auto simp: prefix_Cons prepare_call_def import_call_def)
next
  case (Inr u)
  with assms obtain tok src tgt rc push where rc: "is_record_of pod d img sn rc" and push: "push_calls orch d img src push"
    and es: "es = prepare_call src tok d # import_call tgt tok d src # rc # push @ pod_deletes pod"
    by (auto simp: salvage_calls_def)
  have "creates push = []" using push by (auto simp: push_calls_def)
  moreover have "creates (pod_deletes pod) = []" by (simp add: pod_deletes_def)
  ultimately show ?thesis using rc es
    by (auto simp: is_record_of_def prepare_call_def import_call_def done_keys_def salvageRecord_def)
qed

lemma Salvage_records:
  assumes run: "run_state (Salvage ops orch pod d img sn) w = (r, w')"
  shows "\<exists>rs. recs (env w') = recs (env w) @ rs \<and> (rs = [] \<or> done_keys rs = [(pod_Namespace pod, d)])"
proof -
  from rel_actD[OF Salvage_logged run] obtain es rs where es: "trace w' = trace w @ es" "subseq rs (creates es)"
    and rs: "recs (env w') = recs (env w) @ rs" unfolding logged_def by blast
  from Salvage_acts[OF run] es(1) have "salvage_calls ops orch pod d img sn r (acts es)" by auto
  from salvage_calls_creates[OF this] have "creates es = [] \<or> (\<exists>rc. creates es = [rc] \<and> done_keys [rc] = [(pod_Namespace pod, d)])"
    by (simp add: creates_acts)
  with es(2) have "rs = [] \<or> done_keys rs = [(pod_Namespace pod, d)]"
    by (auto simp: subseq_single)
  with rs show ?thesis by blast
qed

lemma hasSalvageRecord_exact:
  "run_state (hasSalvageRecord ops ns d) w = (b, w') \<Longrightarrow>
   b = ((ns, d) \<in> set (done_keys (recs (env w)))) \<and> recs (env w') = recs (env w)"
  using list_indexed[of ns d "env w"] reads_keep(7)[of "Some (ns, d)" "env w"]
  by (auto simp: hasSalvageRecord_def list_ex_iff done_keys_def digestIndex_def split: prod.splits)

end

section \<open>One reconciliation\<close>

text \<open>
  No completed record is lost or doubled, and a digest that is done in each of the namespaces \<open>NS\<close> is not moved
  again.
\<close>

definition settled :: "string set \<Rightarrow> ('e \<Rightarrow> SalvageRecord list) \<Rightarrow> 'e world \<Rightarrow> 'e world \<Rightarrow> bool" where
  "settled NS recs w w' \<longleftrightarrow>
     (distinct (done_keys (recs (env w))) \<longrightarrow> distinct (done_keys (recs (env w'))))
     \<and> prefix (recs (env w)) (recs (env w'))
     \<and> (\<forall>d. (\<forall>ns \<in> NS. (ns, d) \<in> set (done_keys (recs (env w)))) \<longrightarrow> emits_only (\<lambda>x. \<not> transfers d x) w w')"

lemma done_keys_prefix: "prefix rs rs' \<Longrightarrow> set (done_keys rs) \<subseteq> set (done_keys rs')"
  by (auto simp: prefix_def)

interpretation sd: effect_bound "settled NS recs" for NS recs
proof
  show "settled NS recs w w" for w :: "'a world"
    by (simp add: settled_def em.refl)
  show "settled NS recs u w" if "settled NS recs u v" "settled NS recs v w" for u v w :: "'a world"
  proof -
    have "emits_only (\<lambda>x. \<not> transfers d x) u w" if "\<forall>ns \<in> NS. (ns, d) \<in> set (done_keys (recs (env u)))" for d
    proof (rule em.trans)
      show "emits_only (\<lambda>x. \<not> transfers d x) u v" using that \<open>settled NS recs u v\<close> by (simp add: settled_def)
      have "\<forall>ns \<in> NS. (ns, d) \<in> set (done_keys (recs (env v)))"
        using that done_keys_prefix \<open>settled NS recs u v\<close> unfolding settled_def by blast
      with \<open>settled NS recs v w\<close> show "emits_only (\<lambda>x. \<not> transfers d x) v w" by (simp add: settled_def)
    qed
    with that show ?thesis by (auto simp: settled_def)
  qed
qed

lemma settled_prims:
  "(\<And>e. recs (snd (f e)) = recs e) \<Longrightarrow> rel_act (settled NS recs) (ext f)"
  "(\<And>d. \<not> transfers d x) \<Longrightarrow> rel_act (settled NS recs) (emit x)"
  "rel_act (settled NS recs) (meter g)"
proof -
  assume f: "\<And>e. recs (snd (f e)) = recs e"
  show "rel_act (settled NS recs) (ext f)"
    unfolding rel_act_def
  proof
    fix w :: "'a world"
    show "settled NS recs w (snd (run_state (ext f) w))"
      using f[of "env w"] by (cases "f (env w)") (simp add: settled_def emits_only_def)
  qed
qed (simp_all add: rel_act_def settled_def emits_only_def)

context record_api
begin

lemma Emit_settled:
  "rel_act (settled NS recs) (EmitSalvageable pod img nodes)" "rel_act (settled NS recs) (EmitNotActionable pod img)"
  "rel_act (settled NS recs) (EmitCorruptImage pod img nodeName)"
  "rel_act (settled NS recs) (EmitResolvedButUncached pod img digest)"
  unfolding emitter_defs by (rule settled_prims, simp)+

lemma Notify_settled: "rel_act (settled NS recs) (Notify ops nt evt)"
  unfolding Notify_def by (intro sd.rel_rules settled_prims keep_rules) simp_all

lemma resolveLoop_settled: "rel_act (settled NS recs) (resolveLoop ops ar img ps)"
proof (induction ps)
  case (Cons p ps)
  then show ?case
    unfolding resolveLoop.simps resolveTagFromAgent_def by (intro sd.rel_rules settled_prims keep_rules) simp_all
qed (simp add: sd.rel_return)

lemma handleCorrupt_settled: "rel_act (settled NS recs) (handleCorrupt ops r pod f)"
  unfolding handleCorrupt_def RemoveImageOnNode_def EndpointForNode_def recreate_def deletePod_def
  by (intro sd.rel_rules settled_prims keep_rules Emit_settled) simp_all

lemma FindNodes_settled:
  "rel_act (settled NS recs) (FindNodes ops d)" "rel_act (settled NS recs) (FindNodesByTag ops img)"
  "rel_act (settled NS recs) (ResolveTagViaAgents ops ar img)"
  unfolding FindNodes_def FindNodesByTag_def ResolveTagViaAgents_def
  by (intro sd.rel_rules settled_prims keep_rules resolveLoop_settled)+

lemma resolveImage_settled:
  assumes "\<And>f img e. pr_TagResolver r = Some f \<Longrightarrow> recs (snd (f img e)) = recs e"
  shows "rel_act (settled NS recs) (resolveImage ops r pod img)"
  unfolding resolveImage_def resolveTagged_def askAgents_def askRegistry_def
  by (intro sd.rel_rules settled_prims keep_rules Emit_settled FindNodes_settled assms)

lemma Salvage_settled:
  assumes run: "run_state (Salvage ops orch pod d img sn) w = (s, w')"
    and ns: "pod_Namespace pod \<in> NS" and new: "(pod_Namespace pod, d) \<notin> set (done_keys (recs (env w)))"
  shows "settled NS recs w w'"
proof -
  have "emits_only (\<lambda>x. \<not> transfers d' x) w w'" if "\<forall>ns \<in> NS. (ns, d') \<in> set (done_keys (recs (env w)))" for d'
  proof -
    from that ns new have "d' \<noteq> d" by auto
    then show ?thesis
      using rel_actD[OF emits_only_mono[OF Salvage_effect, of pod d sn "\<lambda>x. \<not> transfers d' x"] run]
      by (simp add: salvage_effect_transfers)
  qed
  with Salvage_records[OF run] new show ?thesis by (auto simp: settled_def)
qed

lemma settled_quiet: "recs (env w1) = recs (env w) \<Longrightarrow> trace w1 = trace w \<Longrightarrow> settled NS recs w1 w' \<Longrightarrow> settled NS recs w w'"
  by (simp add: settled_def emits_only_def)

lemma salvageFrom_settled:
  assumes ns: "pod_Namespace pod \<in> NS"
  shows "rel_act (settled NS recs) (salvageFrom ops r pod img d nodes)"
  unfolding rel_act_def
proof
  fix w :: "'e world"
  show "settled NS recs w (snd (run_state (salvageFrom ops r pod img d nodes) w))"
  proof (cases "\<exists>orch. pr_Orchestrator r = Some orch \<and> pod_NodeName pod \<noteq> ''''")
    case False
    then show ?thesis by (auto simp: salvageFrom_def sd.refl split: option.splits)
  next
    case True
    then obtain orch where orch: "pr_Orchestrator r = Some orch" "pod_NodeName pod \<noteq> ''''" by blast
    let ?sn = "pickSource nodes (pod_NodeName pod)"
    obtain b w1 where b: "run_state (hasSalvageRecord ops (pod_Namespace pod) d) w = (b, w1)" by fastforce
    note h = hasSalvageRecord_exact[OF b]
    have t: "trace w1 = trace w" using b by (auto simp: hasSalvageRecord_def split: prod.splits)
    obtain s w2 where s: "run_state (Salvage ops orch pod d img ?sn) w1 = (s, w2)" by fastforce
    show ?thesis
    proof (cases "b \<or> ?sn = ''''")
      case True
      then have "snd (run_state (salvageFrom ops r pod img d nodes) w) = w1" using orch b by (auto simp: salvageFrom_def)
      then show ?thesis using settled_quiet[of w1 w NS w1] h t by (simp add: sd.refl)
    next
      case False
      then have "snd (run_state (salvageFrom ops r pod img d nodes) w) = w2" using orch b s by (simp add: salvageFrom_def)
      moreover have "settled NS recs w1 w2" using Salvage_settled[OF s ns] h False by simp
      ultimately show ?thesis using settled_quiet[of w1 w NS w2] h t by simp
    qed
  qed
qed

lemma failureLoop_settled:
  assumes "\<And>f img e. pr_TagResolver r = Some f \<Longrightarrow> recs (snd (f img e)) = recs e" and "pod_Namespace pod \<in> NS"
  shows "rel_act (settled NS recs) (failureLoop ops r pod fs)"
proof (induction fs)
  case (Cons f fs)
  then show ?case
    unfolding failureLoop.simps handleFailure_def handlePullFailure_def
    by (intro sd.rel_rules rel_control rel_resolved settled_prims Notify_settled handleCorrupt_settled
        resolveImage_settled Emit_settled salvageFrom_settled assms)
qed (simp add: sd.rel_return)

lemma parentLoop_settled: "rel_act (settled NS recs) (parentLoop ops ns refs)"
proof (induction refs)
  case (Cons ref refs)
  then show ?case unfolding parentLoop.simps by (intro sd.rel_rules settled_prims keep_rules)
qed (simp add: sd.rel_return)

lemma ownerLoop_settled: "rel_act (settled NS recs) (ownerLoop ops ns refs)"
proof (induction refs)
  case (Cons ref refs)
  then show ?case unfolding ownerLoop.simps by (intro sd.rel_rules settled_prims keep_rules parentLoop_settled)
qed (simp add: sd.rel_return)

lemma Reconcile_settled:
  assumes "\<And>f img e. pr_TagResolver r = Some f \<Longrightarrow> recs (snd (f img e)) = recs e"
    and named: "\<And>e e' pod. get_Pod ops ns name e = (Inr pod, e') \<Longrightarrow> pod_Namespace pod = ns" and "ns \<in> NS"
  shows "rel_act (settled NS recs) (Reconcile ops r ns name)"
proof -
  have "pod_Namespace pod \<in> NS" if "run_state (ext (get_Pod ops ns name)) u = (Inr pod, v)" for u v pod
    using that named \<open>ns \<in> NS\<close> by (auto split: prod.splits)
  then show ?thesis
    unfolding Reconcile_def namespaceOptedIn_def isAutoSalvageEnabled_def
    by (intro rel_if sd.rel_return sd.rel_bind_val[of _ _ "ext (get_Pod ops ns name)"] sd.rel_bind rel_sum
        settled_prims keep_rules ownerLoop_settled failureLoop_settled assms(1)) simp_all
qed

end

section \<open>An API server that keeps records\<close>

text \<open>The state of the outside is the list of records; consent, nodes and agents are those of the example cluster.\<close>

definition stored_ops :: "SalvageRecord list env_ops" where
  "stored_ops = failing_ops
     \<lparr>get_Pod := (\<lambda>ns n. Pair (if ns = ''prod'' then Inr failing_pod else Inl (Err KNotFound ''not found''))),
      get_Namespace := (\<lambda>n. Pair (Inr (blank_meta\<lparr>meta_Annotations := [AnnotationNamespaceAllow \<mapsto> ''true'']\<rparr>))),
      list_Nodes := Pair (Inr [example_node ''a'' CHR ''a'']),
      list_Pods := (\<lambda>ns l. Pair (Inr [agent_pod ''a'' ''10.0.0.1'', agent_pod ''b'' ''10.0.0.2''])),
      list_SalvageRecords := (\<lambda>q e. (Inr (case q of None \<Rightarrow> e
         | Some (ns, d) \<Rightarrow> filter (\<lambda>rc. rec_Namespace rc = ns \<and> d \<in> set (digestIndex rc)) e), e)),
      create_SalvageRecord := (\<lambda>rc e. (Inr (), e @ [rc])),
      rpc_PrepareExport := (\<lambda>ep req. Pair (Inr 3)),
      rpc_ImportFrom := (\<lambda>ep req. Pair (Inr \<lparr>ifr_Success = True, ifr_Error = ''''\<rparr>))\<rparr>"

interpretation stored: record_api stored_ops id
  by unfold_locales (auto simp: stored_ops_def failing_ops_def unavailable_def)

definition stored_reconciler :: "SalvageRecord list PodReconciler" where
  "stored_reconciler = \<lparr>pr_Config = New, pr_Orchestrator = Some example_orchestrator,
     pr_AgentResolver = Some (or_Resolver example_orchestrator), pr_TagResolver = None, pr_Notifier = None\<rparr>"

definition earlier_record :: SalvageRecord where
  "earlier_record = salvageRecord 0 failing_pod (example_digest CHR ''a'') ''app'' ''a'' ''b'' ''Completed'' ''''"

section \<open>Properties\<close>

text \<open>One salvage per namespace and digest, over any sequence of reconciliations. If the API server keeps the
  records it is given and the cache reflects them, then no completed record is ever doubled or lost,
  and a digest that has a completed record in each of the namespaces asked for is not prepared,
  imported, pushed or recorded again, whichever pods of these namespaces fail.\<close>

theorem salvaged_once:
  assumes api: "record_api ops recs"
    and tags: "\<And>f img e. pr_TagResolver r = Some f \<Longrightarrow> recs (snd (f img e)) = recs e"
    and named: "\<And>ns name e e' pod. get_Pod ops ns name e = (Inr pod, e') \<Longrightarrow> pod_Namespace pod = ns"
    and init: "distinct (done_keys (recs (env w)))"
    and run: "run_state (reconciles ops r reqs) w = (res, w')"
  shows "distinct (done_keys (recs (env w'))) \<and> prefix (recs (env w)) (recs (env w'))
     \<and> (\<forall>d. (\<forall>ns \<in> fst ` set reqs. (ns, d) \<in> set (done_keys (recs (env w)))) \<longrightarrow>
          (\<exists>es. trace w' = trace w @ es \<and> (\<forall>x \<in> set es. \<not> transfers d x)))"
proof -
  have "rel_act (settled NS recs) (reconciles ops r reqs)" if "fst ` set reqs \<subseteq> NS" for NS
    using that
  proof (induction reqs)
    case (Cons q reqs)
    obtain ns name where q: "q = (ns, name)" by fastforce
    have "rel_act (settled NS recs) (Reconcile ops r ns name)"
      by (rule record_api.Reconcile_settled[OF api]) (use Cons.prems q tags named in auto)
    with Cons show ?case unfolding q reconciles.simps by (intro sd.rel_rules) auto
  qed (simp add: sd.rel_return)
  from rel_actD[OF this[OF subset_refl] run] init show ?thesis
    by (auto simp: settled_def emits_only_def list_all_iff)
qed

theorem salvaged_once_witness:
  "let w = init_world [earlier_record];
       w' = snd (run_state (reconciles stored_ops stored_reconciler [(''prod'', ''web-1''), (''prod'', ''web-2'')]) w)
   in distinct (done_keys (env w')) \<and> (\<exists>es. trace w' = trace w @ es \<and> (\<forall>x \<in> set es. \<not> transfers (example_digest CHR ''a'') x))"
proof -
  let ?w = "init_world [earlier_record]"
  let ?reqs = "[(''prod'', ''web-1''), (''prod'', ''web-2'')]"
  obtain res w' where run: "run_state (reconciles stored_ops stored_reconciler ?reqs) ?w = (res, w')" by fastforce
  have named: "pod_Namespace pod = ns" if "get_Pod stored_ops ns name e = (Inr pod, e')" for ns name e e' pod
    using that by (auto simp: stored_ops_def split: if_splits)
  have key: "done_keys (id (env ?w)) = [(''prod'', example_digest CHR ''a'')]"
    by (simp add: init_world_def earlier_record_def done_keys_def salvageRecord_def)
  have "distinct (done_keys (id (env w'))) \<and> prefix (id (env ?w)) (id (env w'))
     \<and> (\<forall>d. (\<forall>ns \<in> fst ` set ?reqs. (ns, d) \<in> set (done_keys (id (env ?w)))) \<longrightarrow>
          (\<exists>es. trace w' = trace ?w @ es \<and> (\<forall>x \<in> set es. \<not> transfers d x)))"
    by (rule salvaged_once[OF stored.record_api_axioms _ named _ run]) (simp_all add: stored_reconciler_def key[simplified])
  then show ?thesis using run key by (simp add: Let_def)
qed

text \<open>C23: the record is all that stops a second salvage. As long as the listed records carry no completed
  phase, which is what the API server returns when it drops the status given at creation, every
  reconciliation of the failing pod starts another salvage: n reconciliations make n attempts.\<close>

theorem salvage_repeats_without_status:
  assumes "salvageable_case ops r orch ns name pod f items"
  shows "SalvageAttempts (metrics (snd (run_state (reconciles ops r (replicate n (ns, name))) w)))
     = SalvageAttempts (metrics w) + n"
proof (induction n arbitrary: w)
  case (Suc n)
  obtain x w1 where x: "run_state (Reconcile ops r ns name) w = (x, w1)" by fastforce
  with Reconcile_attempts[OF assms, of w] have "SalvageAttempts (metrics w1) = Suc (SalvageAttempts (metrics w))" by simp
  with Suc.IH[of w1] x show ?case by (cases "run_state (reconciles ops r (replicate n (ns, name))) w1") simp
qed simp

definition status_dropped :: "unit env_ops" where
  "status_dropped = salvage_ops\<lparr>list_SalvageRecords := (\<lambda>q. Pair (Inr
     [earlier_record\<lparr>rec_Status := \<lparr>Phase = '''', CompletedAt = '''', StatusError = ''''\<rparr>\<rparr>]))\<rparr>"

theorem salvage_repeats_without_status_witness:
  "SalvageAttempts (metrics (snd (run_state (reconciles status_dropped example_reconciler (replicate 5 (''prod'', ''web-1'')))
     (init_world ())))) = 5"
proof -
  have "salvageable_case status_dropped example_reconciler example_orchestrator ''prod'' ''web-1'' failing_pod pull_failure
     [example_node ''a'' CHR ''a'']"
    using salvage_ops_case by (simp add: salvageable_case_def status_dropped_def)
  from salvage_repeats_without_status[OF this, of 5 "init_world ()"] show ?thesis
    by (simp add: init_world_def NewCounters_def)
qed

end
