(* ===== verification/Reconcile_Sweeps.thy ===== *)
theory Reconcile_Sweeps
  imports Reconcile_Runs Reaper_Cleanup
begin

text \<open>
  Reconciler and reaper together. The two share the SalvageRecords of the cluster: the reconciler salvages a
  digest only if no completed record of it is there, and the reaper deletes records that are older than
  the TTL. A run of the manager is a sequence of reconciliations and sweeps in any order; the
  contract of the record API is that of \<open>Reconcile_Runs\<close> with the two calls of the reaper added.
\<close>

datatype manager_step = Request string string | Tick

fun manager :: "'e env_ops \<Rightarrow> 'e PodReconciler \<Rightarrow> Reaper \<Rightarrow> manager_step list \<Rightarrow> ('e, unit) act" where
  "manager ops r rp [] = return ()"
| "manager ops r rp (Request ns name # steps) = do { _ \<leftarrow> Reconcile ops r ns name; manager ops r rp steps }"
| "manager ops r rp (Tick # steps) = do { sweep ops rp; manager ops r rp steps }"

fun requested :: "manager_step \<Rightarrow> string set" where
  "requested (Request ns name) = {ns}" | "requested Tick = {}"

locale reaped_api = record_api ops recs
  for ops :: "'e env_ops" and recs :: "'e \<Rightarrow> SalvageRecord list" +
  assumes list_all_records: "fst (list_SalvageRecords ops None e) = Inr (recs e)"
    and delete_one: "recs (snd (delete_SalvageRecord ops rc e)) =
      (if is_ok (fst (delete_SalvageRecord ops rc e)) then filter (\<lambda>x. x \<noteq> rc) (recs e) else recs e)"

section \<open>Records that are not due\<close>

text \<open>
  \<open>held P\<close>: records with \<open>P\<close> are kept, completed records stay single, and a digest with such a record, completed,
  in each of the namespaces is not moved.
\<close>

definition held_key :: "(SalvageRecord \<Rightarrow> bool) \<Rightarrow> SalvageRecord list \<Rightarrow> string \<Rightarrow> string \<Rightarrow> bool" where
  "held_key P rs ns d \<longleftrightarrow> (ns, d) \<in> set (done_keys (filter P rs))"

definition held ::
  "(SalvageRecord \<Rightarrow> bool) \<Rightarrow> string set \<Rightarrow> ('e \<Rightarrow> SalvageRecord list) \<Rightarrow> 'e world \<Rightarrow> 'e world \<Rightarrow> bool" where
  "held P NS recs w w' \<longleftrightarrow>
     (distinct (done_keys (recs (env w))) \<longrightarrow> distinct (done_keys (recs (env w'))))
     \<and> set (filter P (recs (env w))) \<subseteq> set (recs (env w'))
     \<and> (\<forall>d. (\<forall>ns \<in> NS. held_key P (recs (env w)) ns d) \<longrightarrow> emits_only (\<lambda>x. \<not> transfers d x) w w')"

lemma held_key_mono: "set (filter P rs) \<subseteq> set rs' \<Longrightarrow> held_key P rs ns d \<Longrightarrow> held_key P rs' ns d"
  by (auto simp: held_key_def done_keys_def)

interpretation hk: effect_bound "held P NS recs" for P NS recs
proof
  show "held P NS recs w w" for w :: "'a world"
    by (simp add: held_def em.refl)
  show "held P NS recs u w" if "held P NS recs u v" "held P NS recs v w" for u v w :: "'a world"
  proof -
    have "emits_only (\<lambda>x. \<not> transfers d x) u w" if k: "\<forall>ns \<in> NS. held_key P (recs (env u)) ns d" for d
    proof (rule em.trans)
      show "emits_only (\<lambda>x. \<not> transfers d x) u v" using k \<open>held P NS recs u v\<close> by (simp add: held_def)
      have "\<forall>ns \<in> NS. held_key P (recs (env v)) ns d"
        using k held_key_mono \<open>held P NS recs u v\<close> unfolding held_def by blast
      with \<open>held P NS recs v w\<close> show "emits_only (\<lambda>x. \<not> transfers d x) v w" by (simp add: held_def)
    qed
    with that show ?thesis by (auto simp: held_def)
  qed
qed

lemma held_key_done: "held_key P rs ns d \<Longrightarrow> (ns, d) \<in> set (done_keys rs)"
  by (auto simp: held_key_def done_keys_def)

lemma settled_held:
  assumes "settled NS recs w w'"
  shows "held P NS recs w w'"
proof -
  have "set (filter P (recs (env w))) \<subseteq> set (recs (env w'))"
    using assms set_mono_prefix[of "recs (env w)" "recs (env w')"] by (auto simp: settled_def)
  with assms held_key_done show ?thesis unfolding settled_def held_def by blast
qed

lemma done_keys_filter: "distinct (done_keys rs) \<Longrightarrow> distinct (done_keys (filter Q rs))"
proof (induction rs)
  case (Cons rc rs)
  moreover have "set (done_keys (filter Q rs)) \<subseteq> set (done_keys rs)" by (auto simp: done_keys_def)
  ultimately show ?case by (auto simp: done_keys_def split: if_splits)
qed (simp add: done_keys_def)

section \<open>A sweep\<close>

lemma held_quiet: "recs (env w1) = recs (env w) \<Longrightarrow> trace w1 = trace w \<Longrightarrow> held P NS recs w1 w' \<Longrightarrow> held P NS recs w w'"
  by (simp add: held_def emits_only_def)

context reaped_api
begin

lemma delete_held:
  assumes "\<not> P rc"
  shows "rel_act (held P NS recs) (ext (delete_SalvageRecord ops rc))"
  unfolding rel_act_def
proof
  fix w :: "'e world"
  obtain x e where x: "delete_SalvageRecord ops rc (env w) = (x, e)" by fastforce
  have "recs e = recs (env w) \<or> recs e = filter (\<lambda>y. y \<noteq> rc) (recs (env w))" using delete_one[of rc "env w"] x by (simp split: if_splits)
  then have "distinct (done_keys (recs (env w))) \<Longrightarrow> distinct (done_keys (recs e))" "set (filter P (recs (env w))) \<subseteq> set (recs e)"
    using done_keys_filter assms by auto
  then show "held P NS recs w (snd (run_state (ext (delete_SalvageRecord ops rc)) w))"
    by (auto simp: held_def emits_only_def x)
qed

lemma emit_held: "rel_act (held P NS recs) (emit (RecordDelete ns name))"
  by (simp add: rel_act_def held_def emits_only_def)

lemma sweepLoop_held:
  assumes "\<And>rc. expired cutoff rc \<Longrightarrow> \<not> P rc"
  shows "rel_act (held P NS recs) (sweepLoop ops cutoff items)"
proof (induction items)
  case (Cons rc items)
  show ?case
  proof (cases "expired cutoff rc")
    case False
    then have "sweepLoop ops cutoff (rc # items) = sweepLoop ops cutoff items" by (auto simp: expired_def split: sum.splits)
    with Cons show ?thesis by simp
  next
    case True
    then have "sweepLoop ops cutoff (rc # items) = do { emit (RecordDelete (rec_Namespace rc) (rec_Name rc));
        _ \<leftarrow> ext (delete_SalvageRecord ops rc); sweepLoop ops cutoff items }"
      by (auto simp: expired_def)
    moreover have "rel_act (held P NS recs) (ext (delete_SalvageRecord ops rc))" by (rule delete_held) (rule assms[OF True])
    ultimately show ?thesis using hk.rel_bind[OF emit_held hk.rel_bind[OF _ Cons.IH]] by simp
  qed
qed (simp add: hk.rel_return)

lemma sweep_held:
  assumes clock: "\<And>e. fst (time_Now ops e) \<le> T"
  shows "rel_act (held (\<lambda>rc. \<not> expired (T - rp_TTL rp) rc) NS recs) (sweep ops rp)"
  unfolding rel_act_def
proof
  fix w :: "'e world"
  let ?P = "\<lambda>rc. \<not> expired (T - rp_TTL rp) rc"
  obtain l e1 where l: "list_SalvageRecords ops None (env w) = (l, e1)" by fastforce
  with list_all_records[of "env w"] reads_keep(7)[of None "env w"] have e1: "l = Inr (recs (env w))" "recs e1 = recs (env w)" by simp_all
  obtain now e2 where now: "time_Now ops e1 = (now, e2)" by fastforce
  with clock_keeps(1)[of e1] clock[of e1] e1(2) have e2: "recs e2 = recs (env w)" "now \<le> T" by simp_all
  let ?w2 = "w\<lparr>env := e2\<rparr>"
  have "rel_act (held ?P NS recs) (sweepLoop ops (now - rp_TTL rp) (recs (env w)))"
    by (rule sweepLoop_held) (use e2(2) in \<open>force simp: expired_def\<close>)
  then have "held ?P NS recs ?w2 (snd (run_state (sweepLoop ops (now - rp_TTL rp) (recs (env w))) ?w2))" by (simp add: rel_act_def)
  from held_quiet[OF _ _ this, of w] l e1 now e2 show "held ?P NS recs w (snd (run_state (sweep ops rp) w))" by (simp add: sweep_def)
qed

lemma manager_held:
  assumes clock: "\<And>e. fst (time_Now ops e) \<le> T"
    and tags: "\<And>f img e. pr_TagResolver r = Some f \<Longrightarrow> recs (snd (f img e)) = recs e"
    and named: "\<And>ns name e e' pod. get_Pod ops ns name e = (Inr pod, e') \<Longrightarrow> pod_Namespace pod = ns"
    and "\<Union> (requested ` set steps) \<subseteq> NS"
  shows "rel_act (held (\<lambda>rc. \<not> expired (T - rp_TTL rp) rc) NS recs) (manager ops r rp steps)"
  using assms(4)
proof (induction steps)
  case (Cons s steps)
  show ?case
  proof (cases s)
    case (Request ns name)
    have "rel_act (settled NS recs) (Reconcile ops r ns name)"
      by (rule Reconcile_settled) (use tags named Cons.prems Request in auto)
    then have "rel_act (held (\<lambda>rc. \<not> expired (T - rp_TTL rp) rc) NS recs) (Reconcile ops r ns name)"
      unfolding rel_act_def by (blast intro: settled_held)
    with Cons show ?thesis unfolding Request manager.simps by (auto intro: hk.rel_bind)
  next
    case Tick
    with Cons sweep_held[OF clock] show ?thesis unfolding Tick manager.simps by (auto intro: hk.rel_bind)
  qed
qed (simp add: hk.rel_return)

end

section \<open>An API server that keeps records until they are deleted\<close>

definition reaped_ops :: "SalvageRecord list env_ops" where
  "reaped_ops = stored_ops\<lparr>delete_SalvageRecord := (\<lambda>rc e. (Inr (), filter (\<lambda>x. x \<noteq> rc) e))\<rparr>"

interpretation reaped: reaped_api reaped_ops id
  by unfold_locales (auto simp: reaped_ops_def stored_ops_def failing_ops_def unavailable_def)

section \<open>Properties\<close>



end
