(* ===== verification/Reconcile_Bounds.thy ===== *)
theory Reconcile_Bounds
  imports Controller
begin

text \<open>
  What one reconciliation can cost and what its telemetry looks like: a bound on the calls on agents and on
  the cluster, the table of events and notifications, and the counters against the ratios that
  \<open>docs/operations-guide.md\<close> gives for them.
\<close>

section \<open>Counting calls\<close>

definition spends :: "nat \<Rightarrow> 'e world \<Rightarrow> 'e world \<Rightarrow> bool" where
  "spends n w w' \<longleftrightarrow> (\<exists>es. trace w' = trace w @ es \<and> length (acts es) \<le> n)"

interpretation sp: graded_bound spends
proof
  show "spends 0 w w" for w :: "'a world" by (simp add: spends_def)
  show "spends (j + k) u w" if "spends j u v" "spends k v w" for j k and u v w :: "'a world"
  proof -
    from that obtain es fs where "trace v = trace u @ es" "length (acts es) \<le> j" "trace w = trace v @ fs" "length (acts fs) \<le> k"
      unfolding spends_def by blast
    then show ?thesis unfolding spends_def by (intro exI[of _ "es @ fs"]) simp
  qed
  show "spends k u v" if "spends j u v" "j \<le> k" for j k and u v :: "'a world"
    using that unfolding spends_def by force
qed

lemma spends_prims:
  "rel_act (spends 0) (ext f)" "rel_act (spends 0) (meter g)" "rel_act (spends 0) (on_sessions h)"
  "rel_act (spends 0) (on_semaphore k)" "rel_act (spends 1) (emit x)" "is_telemetry x \<Longrightarrow> rel_act (spends 0) (emit x)"
  by (auto simp: rel_act_def spends_def split: prod.splits)

lemmas free_rules = sp.nothing.rel_rules spends_prims(1-4) spends_prims(6)

lemma telemetry_free:
  "rel_act (spends 0) (Notify ops nt evt)" "rel_act (spends 0) (Eventf pod ty reason action note)"
  unfolding Notify_def Eventf_def by (intro free_rules is_telemetry_simps)+

lemma Emit_free:
  "rel_act (spends 0) (EmitSalvageable pod img nodes)" "rel_act (spends 0) (EmitNotActionable pod img)"
  "rel_act (spends 0) (EmitCorruptImage pod img nodeName)" "rel_act (spends 0) (EmitResolvedButUncached pod img digest)"
  unfolding EmitSalvageable_def EmitNotActionable_def EmitCorruptImage_def EmitResolvedButUncached_def by (rule telemetry_free)+

lemma reads_free:
  "rel_act (spends 0) (FindNodes ops d)" "rel_act (spends 0) (FindNodesByTag ops img)"
  "rel_act (spends 0) (hasSalvageRecord ops ns d)" "rel_act (spends 0) (EndpointForNode ops rs n)"
  "rel_act (spends 0) (askRegistry ops r pod img found)"
  unfolding FindNodes_def FindNodesByTag_def hasSalvageRecord_def EndpointForNode_def askRegistry_def
  by (intro free_rules Emit_free)+

lemma recreate_cost: "rel_act (spends 1) (recreate ops pod)"
  unfolding recreate_def deletePod_def
  by (intro rel_if sp.cost_return sp.cost_bind[where j = 1 and k = 0] spends_prims) simp_all

lemma RemoveImageOnNode_cost: "rel_act (spends 1) (RemoveImageOnNode ops rs n img)"
  unfolding RemoveImageOnNode_def
  by (rule sp.cost_bind[OF reads_free(4), where k = 1])
     (intro rel_cases sp.cost_return sp.cost_bind[OF spends_prims(5), where k = 0] spends_prims(1), simp_all)

lemma handleCorrupt_cost: "rel_act (spends 2) (handleCorrupt ops r pod f)"
  unfolding handleCorrupt_def
  by (rule sp.cost_bind[OF spends_prims(2), where k = 2])
     (intro rel_cases sp.cost_return sp.cost_bind[OF Emit_free(3), where k = 2] sp.cost_bind[OF RemoveImageOnNode_cost, where k = 1]
        sp.cost_bind[OF recreate_cost, where k = 0], simp_all)

lemma resolveLoop_cost: "rel_act (spends (length ps)) (resolveLoop ops rs img ps)"
proof (induction ps)
  case (Cons p ps)
  have "rel_act (spends 1) (resolveTagFromAgent ops rs ep img)" for ep
    unfolding resolveTagFromAgent_def
    by (intro rel_cases sp.cost_return sp.cost_bind[OF spends_prims(5), where k = 0] spends_prims(1)) simp
  then show ?case
    unfolding resolveLoop.simps
    by (intro rel_if rel_sum sp.cost_return sp.cost_weaken[OF Cons] sp.cost_bind[where j = 1 and k = "length ps"] Cons) simp_all
qed (simp add: sp.cost_return)

lemma ResolveTagViaAgents_cost:
  assumes "\<And>e e' ps. list_Pods ops (rs_Namespace rs) agentLabels e = (Inr ps, e') \<Longrightarrow> length ps \<le> n"
  shows "rel_act (spends n) (ResolveTagViaAgents ops rs img)"
  unfolding ResolveTagViaAgents_def
proof (rule sp.cost_bind[OF spends_prims(1), where k = n])
  fix pods u v assume run: "run_state (ext (list_Pods ops (rs_Namespace rs) agentLabels)) u = (pods, v)"
  have "length ps \<le> n" if "pods = Inr ps" for ps
    using run that assms[of "env u" ps] by (auto split: prod.splits)
  then show "rel_act (spends n) (case pods of Inl e \<Rightarrow> return (Inl (wrapf ''listing agent pods'' e))
      | Inr items \<Rightarrow> resolveLoop ops rs img items \<bind> (\<lambda>found. return (Inr found)))"
    by (intro rel_sum sp.cost_return sp.cost_bind[OF resolveLoop_cost, where k = 0]) simp_all
qed simp

lemma resolveImage_cost:
  assumes "\<And>ar e e' ps. pr_AgentResolver r = Some ar \<Longrightarrow> list_Pods ops (rs_Namespace ar) agentLabels e = (Inr ps, e') \<Longrightarrow> length ps \<le> n"
  shows "rel_act (spends n) (resolveImage ops r pod img)"
proof -
  have ask: "rel_act (spends n) (askAgents ops r img found)" for found
    unfolding askAgents_def
    by (intro rel_cases sp.cost_return sp.cost_bind[where j = n and k = 0] ResolveTagViaAgents_cost assms) simp_all
  have rest: "rel_act (spends 0) (askRegistry ops r pod img found1 \<bind> (\<lambda>found2. case found2 of None \<Rightarrow> return Not_resolved
       | Some (digest, nodes) \<Rightarrow> (if digest = '''' then do { meter RecordNotActionable; EmitNotActionable pod img; return Not_resolved }
           else return (Digest_on digest nodes))))" for found1
    by (intro free_rules reads_free Emit_free)
  have "rel_act (spends n) (resolveTagged ops r pod img)"
    unfolding resolveTagged_def
    by (intro sp.cost_bind[OF reads_free(2), where k = n] rel_cases sp.cost_return sp.cost_bind[OF ask rest]) simp_all
  moreover have "rel_act (spends n) (FindNodes ops d \<bind> (\<lambda>nodes. return (g nodes)))" for d g
    by (intro sp.cost_bind[OF reads_free(1), where k = 0] sp.cost_return) simp
  ultimately show ?thesis unfolding resolveImage_def by (intro rel_cases)
qed

lemma salvage_calls_length: "salvage_calls ops orch pod d img sn r es \<Longrightarrow> length es \<le> 5"
  by (cases r) (auto simp: salvage_calls_def push_calls_def pod_deletes_def dest: prefix_length_le)

lemma Salvage_cost: "rel_act (spends 5) (Salvage ops orch pod d img sn)"
  unfolding rel_act_def
proof
  fix w :: "'a world"
  obtain r w' where run: "run_state (Salvage ops orch pod d img sn) w = (r, w')" by fastforce
  obtain es where es: "trace w' = trace w @ es"
    using rel_actD[OF Salvage_effect run] unfolding emits_only_def by blast
  with Salvage_acts[OF run] have "length (acts es) \<le> 5" by (auto dest: salvage_calls_length)
  with es run show "spends 5 w (snd (run_state (Salvage ops orch pod d img sn) w))" by (auto simp: spends_def)
qed

lemma salvageFrom_cost: "rel_act (spends 5) (salvageFrom ops r pod img d nodes)"
  unfolding salvageFrom_def
  by (intro rel_cases sp.cost_return sp.cost_bind[OF reads_free(3), where k = 5] sp.cost_bind[OF Salvage_cost, where k = 0]) simp_all

lemma handleFailure_cost:
  assumes "\<And>ar e e' ps. pr_AgentResolver r = Some ar \<Longrightarrow> list_Pods ops (rs_Namespace ar) agentLabels e = (Inr ps, e') \<Longrightarrow> length ps \<le> n"
  shows "rel_act (spends (n + 5)) (handleFailure ops r pod f)"
proof -
  have "rel_act (spends 5) (meter RecordSalvageable \<bind> (\<lambda>_. EmitSalvageable pod img nodes \<bind> (\<lambda>_. salvageFrom ops r pod img d nodes)))"
    for img nodes d
    by (intro sp.cost_bind[OF spends_prims(2), where k = 5] sp.cost_bind[OF Emit_free(1), where k = 5] salvageFrom_cost) simp_all
  then have "rel_act (spends (n + 5)) (handlePullFailure ops r pod img)" for img
    unfolding handlePullFailure_def
    by (intro sp.cost_bind[OF resolveImage_cost[OF assms], where k = 5] rel_resolved rel_if sp.cost_return) simp_all
  moreover have "rel_act (spends (n + 5)) (handleCorrupt ops r pod f)"
    by (rule sp.cost_weaken[OF handleCorrupt_cost]) simp
  ultimately show ?thesis
    unfolding handleFailure_def
    by (intro sp.cost_bind[OF spends_prims(2), where k = "n + 5"] sp.cost_bind[OF telemetry_free(1), where k = "n + 5"] rel_cases) simp_all
qed

lemma failureLoop_cost:
  assumes "\<And>ar e e' ps. pr_AgentResolver r = Some ar \<Longrightarrow> list_Pods ops (rs_Namespace ar) agentLabels e = (Inr ps, e') \<Longrightarrow> length ps \<le> n"
  shows "rel_act (spends (length fs * (n + 5))) (failureLoop ops r pod fs)"
proof (induction fs)
  case (Cons f fs)
  then show ?case
    unfolding failureLoop.simps
    by (intro sp.cost_bind[OF handleFailure_cost[OF assms], where k = "length fs * (n + 5)"] rel_control sp.cost_return) simp_all
qed (simp add: sp.cost_return)

section \<open>The table of events\<close>

text \<open>The table of events of \<open>docs/SKILL.md\<close> (reason, type, action) and the webhook types that are sent.\<close>

definition event_table :: "(string \<times> event_type \<times> string) list" where
  "event_table =
     [(''ImageSalvageable'', EventTypeWarning, ''Detected''), (''ImageNotActionable'', EventTypeWarning, ''Detected''),
      (''ImageSalvaged'', EventTypeWarning, ''Salvaged''), (''ImageSalvageFailed'', EventTypeWarning, ''Salvaging''),
      (''ImageCorrupt'', EventTypeWarning, ''Cleaning''), (''ImageResolvedUncached'', EventTypeWarning, ''Detected''),
      (''ImagePushed'', EventTypeNormal, ''Pushing''), (''ImagePushFailed'', EventTypeWarning, ''Pushing'')]"

definition webhook_types :: "string list" where
  "webhook_types = [''detected'', ''salvaged'', ''salvage_failed'', ''pushed'']"

definition typed_effect :: "effect \<Rightarrow> bool" where
  "typed_effect x = (case x of
       Recorded e \<Rightarrow> (re_Reason e, re_Type e, re_Action e) \<in> set event_table
     | Posted u n \<Rightarrow> ne_Type n \<in> set webhook_types
     | _ \<Rightarrow> True)"

lemma typed_calls:
  "typed_effect (AgentCall ep c)" "typed_effect (PodDelete a b)" "typed_effect (RecordCreate rc)"
  by (simp_all add: typed_effect_def)

lemma Notify_typed: "ne_Type evt \<in> set webhook_types \<Longrightarrow> rel_act (emits_only typed_effect) (Notify ops nt evt)"
  by (rule emits_only_mono[OF Notify_allowed]) (auto simp: allowed_post_def typed_effect_def)

lemma Emit_typed:
  "rel_act (emits_only typed_effect) (EmitSalvageable pod img nodes)" "rel_act (emits_only typed_effect) (EmitNotActionable pod img)"
  "rel_act (emits_only typed_effect) (EmitSalvaged pod img sn tn)" "rel_act (emits_only typed_effect) (EmitSalvageFailed pod img why)"
  "rel_act (emits_only typed_effect) (EmitCorruptImage pod img n)" "rel_act (emits_only typed_effect) (EmitPushed pod d t sn)"
  "rel_act (emits_only typed_effect) (EmitPushFailed pod d t why)" "rel_act (emits_only typed_effect) (EmitResolvedButUncached pod img d)"
  unfolding emitter_defs by (intro emits_only_emit, simp add: typed_effect_def event_table_def reason_defs action_defs)+

lemmas typed_rules = em.rel_rules rel_intros emits_only_emit typed_calls Emit_typed Notify_typed

lemma calls_typed:
  "rel_act (emits_only typed_effect) (RemoveImageOnNode ops rs n img)" "rel_act (emits_only typed_effect) (recreate ops pod)"
  unfolding RemoveImageOnNode_def EndpointForNode_def recreate_def deletePod_def by (intro typed_rules)+

lemma ResolveTagViaAgents_typed: "rel_act (emits_only typed_effect) (ResolveTagViaAgents ops rs img)"
proof -
  have "rel_act (emits_only typed_effect) (resolveLoop ops rs img ps)" for ps
  proof (induction ps)
    case (Cons p ps)
    then show ?case unfolding resolveLoop.simps resolveTagFromAgent_def by (intro typed_rules)
  qed (simp add: em.rel_return)
  then show ?thesis unfolding ResolveTagViaAgents_def by (intro typed_rules)
qed

lemma fail_salvage_typed: "rel_act (emits_only typed_effect) (fail_salvage ops orch pod d why)"
  unfolding fail_salvage_def by (intro typed_rules) (simp add: webhook_types_def)

lemma salvaged_typed: "rel_act (emits_only typed_effect) (salvaged ops orch pod d img sn tn ep start)"
  unfolding salvaged_def createSalvageRecord_def backup_def pushToBackupRegistry_def loadRegistryCredentials_def
    pushImage_def push_failure_def push_success_def
  by (intro typed_rules calls_typed) (simp_all add: webhook_types_def)

lemma Salvage_typed: "rel_act (emits_only typed_effect) (Salvage ops orch pod d img sn)"
  unfolding Salvage_def salvageLocked_def salvageSession_def salvageImport_def prepareExport_def importFrom_def EndpointForNode_def
  by (intro typed_rules fail_salvage_typed salvaged_typed)

lemma handleFailure_typed: "rel_act (emits_only typed_effect) (handleFailure ops r pod f)"
  unfolding handleFailure_def handleCorrupt_def handlePullFailure_def resolveImage_def resolveTagged_def askAgents_def
    askRegistry_def salvageFrom_def
  by (intro typed_rules rel_resolved calls_typed ResolveTagViaAgents_typed Salvage_typed) (simp add: webhook_types_def)

lemma failureLoop_typed: "rel_act (emits_only typed_effect) (failureLoop ops r pod fs)"
proof (induction fs)
  case (Cons f fs)
  then show ?case unfolding failureLoop.simps by (intro typed_rules rel_control handleFailure_typed)
qed (simp add: em.rel_return)

section \<open>A digest that no node holds\<close>

text \<open>Consent is given and the only failure of the pod is a failed pull of a digest-pinned image that is in
  no node's image list.\<close>

definition uncached_case ::
  "'e env_ops \<Rightarrow> 'e PodReconciler \<Rightarrow> string \<Rightarrow> string \<Rightarrow> Pod \<Rightarrow> Failure \<Rightarrow> Node list \<Rightarrow> bool" where
  "uncached_case ops r ns name pod f items \<longleftrightarrow>
     Enabled (pr_Config r) \<and> \<not> IsDenied (pr_Config r) ns
     \<and> (\<forall>e. fst (get_Pod ops ns name e) = Inr pod)
     \<and> (\<forall>e. \<exists>m. fst (get_Namespace ops (pod_Namespace pod) e) = Inr m
          \<and> go_lookup (meta_Annotations m) AnnotationNamespaceAllow = ''true'')
     \<and> autoSalvage (pod_Meta pod)
     \<and> Detect pod = [f] \<and> \<not> fail_CorruptImage f \<and> res_Actionable (Resolve (fail_Image f))
     \<and> (\<forall>e. fst (list_Nodes ops e) = Inr items)
     \<and> (\<forall>n \<in> set items. \<not> nodeHasDigest n (res_Digest (Resolve (fail_Image f))))"

lemma uncached_Reconcile:
  assumes "uncached_case ops r ns name pod f items"
  shows "\<exists>e1 e2. run_state (Reconcile ops r ns name) w =
     (let w1 = snd (run_state (Notify ops (pr_Notifier r)
         (empty_event\<lparr>ne_Type := ''detected'', ne_PodName := pod_Name pod, ne_Namespace := pod_Namespace pod,
            ne_ImageRef := fail_Image f\<rparr>)) (w\<lparr>env := e1, metrics := RecordDetected (metrics w)\<rparr>))
      in (reconciled, w1\<lparr>env := e2\<rparr>))"
proof -
  obtain e0 where p: "get_Pod ops ns name (env w) = (Inr pod, e0)"
    using assms unfolding uncached_case_def by (metis prod.collapse)
  obtain m e1 where m: "get_Namespace ops (pod_Namespace pod) e0 = (Inr m, e1)"
    "go_lookup (meta_Annotations m) AnnotationNamespaceAllow = ''true''"
    using assms unfolding uncached_case_def by (metis prod.collapse)
  let ?evt = "empty_event\<lparr>ne_Type := ''detected'', ne_PodName := pod_Name pod, ne_Namespace := pod_Namespace pod,
     ne_ImageRef := fail_Image f\<rparr>"
  obtain n w1 where w1: "run_state (Notify ops (pr_Notifier r) ?evt) (w\<lparr>env := e1, metrics := RecordDetected (metrics w)\<rparr>) = (n, w1)"
    by fastforce
  obtain e2 where e2: "list_Nodes ops (env w1) = (Inr items, e2)"
    using assms unfolding uncached_case_def by (metis prod.collapse)
  have "filter (\<lambda>n. nodeHasDigest n (res_Digest (Resolve (fail_Image f)))) items = []"
    using assms by (simp add: uncached_case_def)
  then have "run_state (Reconcile ops r ns name) w = (reconciled, w1\<lparr>env := e2\<rparr>)"
    using assms p m w1 e2
    by (simp add: uncached_case_def Reconcile_def namespaceOptedIn_def isAutoSalvageEnabled_def handleFailure_def
        handlePullFailure_def resolveImage_def FindNodes_def findNodes_loop_eq Let_def)
  with w1 show ?thesis by (metis snd_conv)
qed

section \<open>Properties\<close>

text \<open>C18: one reconciliation makes a bounded number of calls on agents and on the cluster: none without a
  readable pod, and otherwise at most \<open>n + 5\<close> for each waiting container of the pod, where \<open>n\<close> bounds the
  agent pods that a tag is resolved with (five being a prepared export, an import, a record, a push to the
  backup registry and a deletion of the pod).\<close>

theorem Reconcile_call_bound:
  assumes agents: "\<And>ar e e' ps. pr_AgentResolver r = Some ar \<Longrightarrow>
      list_Pods ops (rs_Namespace ar) agentLabels e = (Inr ps, e') \<Longrightarrow> length ps \<le> n"
    and run: "run_state (Reconcile ops r ns name) w = (res, w')"
  shows "\<exists>es. trace w' = trace w @ es \<and>
     (es = [] \<or> (\<exists>pod e'. get_Pod ops ns name (env w) = (Inr pod, e') \<and> length (acts es) \<le>
        (length (pod_ContainerStatuses pod) + length (pod_InitContainerStatuses pod)) * (n + 5)))"
  using run
proof (cases rule: Reconcile_cases)
  case (acting pod e1 m e2 w3)
  have "rel_act (spends (length (Detect pod) * (n + 5))) (failureLoop ops r pod (Detect pod))"
    by (rule failureLoop_cost) (rule agents)
  then obtain es where es: "trace w' = trace w3 @ es" "length (acts es) \<le> length (Detect pod) * (n + 5)"
    using rel_actD[OF _ acting(8)] unfolding spends_def by blast
  note es(2)
  also have "length (Detect pod) * (n + 5) \<le> (length (pod_ContainerStatuses pod) + length (pod_InitContainerStatuses pod)) * (n + 5)"
    by (rule mult_le_mono1) (rule Detect_length)
  finally show ?thesis using es(1) acting(3,7) by (auto simp: inside_def simp del: mult_le_cancel2)
qed (simp add: inside_def)

theorem Reconcile_call_bound_witness:
  "length (acts (trace (snd (run_state (Reconcile salvage_ops example_reconciler ''prod'' ''web-1'') (init_world ()))))) \<le> 7"
proof -
  have pod: "get_Pod salvage_ops ''prod'' ''web-1'' () = (Inr failing_pod, ())" by (simp add: salvage_ops_def)
  have "length (pod_ContainerStatuses failing_pod) + length (pod_InitContainerStatuses failing_pod) = 1"
    by (simp add: failing_pod_def owned_pod_def blank_pod_def)
  moreover have "length ps \<le> 2" if "list_Pods salvage_ops n agentLabels e = (Inr ps, e')" for n e ps e'
    using that by (auto simp: salvage_ops_def example_cluster_def)
  ultimately show ?thesis
    using Reconcile_call_bound[OF _ prod.collapse[symmetric], of example_reconciler salvage_ops 2 "''prod''" "''web-1''" "init_world ()"] pod
    by (auto simp: init_world_def)
qed



text \<open>C26: a failed pull of a digest-pinned image that no node holds is counted as detected and nothing else:
  it is neither salvageable nor not actionable nor corrupt, no event is recorded on the pod, no call is made,
  and the pod is not reconciled again. So the ratio of \<open>docs/operations-guide.md\<close> (detected = salvageable +
  not actionable + corrupt) fails after it.\<close>

theorem uncached_digest_is_silent:
  assumes "uncached_case ops r ns name pod f items"
    and "run_state (Reconcile ops r ns name) w = (res, w')"
  shows "res = reconciled \<and> metrics w' = RecordDetected (metrics w)
     \<and> (\<exists>es. trace w' = trace w @ es \<and> list_all is_posted es)"
proof -
  let ?evt = "empty_event\<lparr>ne_Type := ''detected'', ne_PodName := pod_Name pod, ne_Namespace := pod_Namespace pod,
     ne_ImageRef := fail_Image f\<rparr>"
  obtain e1 e2 where w': "res = reconciled"
    "w' = (snd (run_state (Notify ops (pr_Notifier r) ?evt) (w\<lparr>env := e1, metrics := RecordDetected (metrics w)\<rparr>)))\<lparr>env := e2\<rparr>"
    using uncached_Reconcile[OF assms(1), of w] assms(2) by (auto simp: Let_def)
  note quiet = Notify_rel(1,4)[of ops "pr_Notifier r" ?evt, unfolded rel_act_def, THEN spec,
      of "w\<lparr>env := e1, metrics := RecordDetected (metrics w)\<rparr>"]
  show ?thesis using w' quiet by (simp add: keeps_def emits_only_def)
qed

theorem uncached_digest_is_silent_witness:
  "DetectedFailures (metrics (snd (run_state (Reconcile (salvage_ops\<lparr>list_Nodes := Pair (Inr [])\<rparr>) example_reconciler ''prod'' ''web-1'')
      (init_world ())))) = 1"
proof -
  have "uncached_case (salvage_ops\<lparr>list_Nodes := Pair (Inr [])\<rparr>) example_reconciler ''prod'' ''web-1'' failing_pod pull_failure []"
    unfolding uncached_case_def
    by (simp add: salvage_ops_def example_reconciler_def pull_failure_def Resolve_example[simplified])
       (simp add: New_def IsDenied_def DefaultDeniedNamespaces_def)
  from uncached_digest_is_silent[OF this prod.collapse[symmetric], of "init_world ()"]
  show ?thesis by (simp add: init_world_def NewCounters_def record_metric_defs)
qed

end
