(* ===== verification/Api_Deepcopy.thy ===== *)
theory Api_Deepcopy
  imports Kube_Types
begin

text \<open>
  \<open>api/v1alpha1/zz_generated.deepcopy.go\<close> over an explicit memory, because what the functions promise is about
  aliasing: the copy shares no memory with the original. The memory is a list of cells, an address is a
  position in it and allocation appends. A pointer to a \<open>SalvageRecord\<close> is the address of a backing array and an
  index (\<open>new\<close> allocates an array of one element), so that \<open>&(*out)[i]\<close> is a pointer like any other.
  \<open>ObjectMeta\<close> and \<open>ListMeta\<close> belong to \<open>k8s.io/apimachinery\<close>: their representations, their zero values and
  their \<open>DeepCopyInto\<close> are the parameters \<open>meta_ops\<close>, and the cells they use have an arbitrary content. The
  result \<^const>\<open>None\<close> of an operation is a panic (a nil or dangling pointer, an index out of range).
\<close>

section \<open>The contract of a deep copy\<close>

definition agree :: "nat set \<Rightarrow> 'c list \<Rightarrow> 'c list \<Rightarrow> bool" where
  "agree A m m' \<longleftrightarrow> (\<forall>a \<in> A. a < length m \<and> a < length m' \<and> m' ! a = m ! a)"

lemma agree_prefix: "A \<subseteq> {..<length m} \<Longrightarrow> prefix m m' \<Longrightarrow> agree A m m'"
  by (auto simp: agree_def prefix_def nth_append)

lemma prefix_agree: "agree {..<length m} m m' \<Longrightarrow> length m \<le> length m' \<Longrightarrow> prefix m m'"
  by (rule prefixI[of _ _ "drop (length m) m'"], rule nth_equalityI) (auto simp: agree_def nth_append)

lemma agree_update: "A \<subseteq> {..<length m} \<Longrightarrow> a \<notin> A \<Longrightarrow> agree A m (m[a := c])"
  by (auto simp: agree_def intro!: nth_list_update_neq)

lemma agree_subset: "agree A m m' \<Longrightarrow> B \<subseteq> A \<Longrightarrow> agree B m m'"
  by (auto simp: agree_def)

lemma agree_trans: "agree A m m' \<Longrightarrow> agree A m' m'' \<Longrightarrow> agree A m m''"
  by (auto simp: agree_def)

text \<open>
  A value of type \<open>'a\<close> refers to cells: \<open>footprint m x\<close> are the addresses reachable from it, \<open>view m x\<close> is what
  a reader sees through it, and both depend on these cells only. A deep copy of a sound value does not panic, leaves
  every old cell alone, looks the same, and reaches only new cells.
\<close>

locale deep_copier =
  fixes sound :: "'c list \<Rightarrow> 'a \<Rightarrow> bool"
    and footprint :: "'c list \<Rightarrow> 'a \<Rightarrow> nat set"
    and view :: "'c list \<Rightarrow> 'a \<Rightarrow> 'v"
    and copy :: "'a \<Rightarrow> 'c list \<Rightarrow> ('a \<times> 'c list) option"
  assumes inside: "sound m x \<Longrightarrow> footprint m x \<subseteq> {..<length m}"
    and local: "sound m x \<Longrightarrow> agree (footprint m x) m m' \<Longrightarrow>
      sound m' x \<and> footprint m' x = footprint m x \<and> view m' x = view m x"
    and copies: "sound m x \<Longrightarrow> \<exists>y m'. copy x m = Some (y, m') \<and> prefix m m' \<and> sound m' y
      \<and> view m' y = view m x \<and> footprint m' y \<subseteq> {length m..<length m'}"
begin

text \<open>Whatever is later written through the copy, or anywhere outside the original, is not seen through the original;
  and the same the other way round.\<close>

lemma isolated:
  assumes "sound m x" and "copy x m = Some (y, m')"
  shows "view m' x = view m x"
    and "agree (- footprint m' y \<inter> {..<length m'}) m' m'' \<Longrightarrow> view m'' x = view m x"
    and "agree (- footprint m x \<inter> {..<length m'}) m' m'' \<Longrightarrow> view m'' y = view m x"
proof -
  from copies[OF assms(1)] assms(2) have c: "prefix m m'" "sound m' y" "view m' y = view m x"
    "footprint m' y \<subseteq> {length m..<length m'}" by auto
  have pre: "agree (footprint m x) m m'" by (rule agree_prefix[OF inside[OF assms(1)] c(1)])
  with local[OF assms(1)] show "view m' x = view m x" by blast
  have "length m \<le> length m'" using c(1) by (simp add: prefix_length_le)
  with inside[OF assms(1)] c(4) have sub: "footprint m x \<subseteq> - footprint m' y \<inter> {..<length m'}"
    "footprint m' y \<subseteq> - footprint m x \<inter> {..<length m'}" by fastforce+
  show "view m'' x = view m x" if "agree (- footprint m' y \<inter> {..<length m'}) m' m''"
    using local[OF assms(1) agree_trans[OF pre agree_subset[OF that sub(1)]]] by blast
  show "view m'' y = view m x" if "agree (- footprint m x \<inter> {..<length m'}) m' m''"
    using local[OF c(2) agree_subset[OF that sub(2)]] c(3) by simp
qed

end

section \<open>Objects\<close>

record TypeMeta =
  tm_Kind :: string
  tm_APIVersion :: string

record 'm SalvageRecordObj =
  obj_TypeMeta :: TypeMeta
  obj_ObjectMeta :: 'm
  obj_Spec :: SalvageRecordSpec
  obj_Status :: SalvageRecordStatus

text \<open>A slice of records: backing array, offset and length; \<^const>\<open>None\<close> is the nil slice.\<close>

record slice =
  sl_Array :: nat
  sl_Off :: nat
  sl_Len :: nat

record 'l SalvageRecordList =
  list_TypeMeta :: TypeMeta
  list_ListMeta :: 'l
  list_Items :: "slice option"

datatype ('m, 'l, 'c) cell =
    Records "'m SalvageRecordObj list"
  | RecordList "'l SalvageRecordList"
  | Other 'c

type_synonym ('m, 'l, 'c) mem = "('m, 'l, 'c) cell list"

type_synonym ptr = "nat \<times> nat"

record ('m, 'l, 'c) meta_ops =
  zero_ObjectMeta :: 'm
  zero_ListMeta :: 'l
  ObjectMeta_DeepCopyInto :: "'m \<Rightarrow> ('m, 'l, 'c) mem \<Rightarrow> ('m \<times> ('m, 'l, 'c) mem) option"
  ListMeta_DeepCopyInto :: "'l \<Rightarrow> ('m, 'l, 'c) mem \<Rightarrow> ('l \<times> ('m, 'l, 'c) mem) option"

section \<open>Memory access\<close>

definition records_at :: "('m, 'l, 'c) mem \<Rightarrow> nat \<Rightarrow> 'm SalvageRecordObj list" where
  "records_at m a = (if a < length m then (case m ! a of Records xs \<Rightarrow> xs | _ \<Rightarrow> []) else [])"

definition load :: "ptr \<Rightarrow> ('m, 'l, 'c) mem \<Rightarrow> 'm SalvageRecordObj option" where
  "load p m = (if snd p < length (records_at m (fst p)) then Some (records_at m (fst p) ! snd p) else None)"

definition store :: "ptr \<Rightarrow> 'm SalvageRecordObj \<Rightarrow> ('m, 'l, 'c) mem \<Rightarrow> ('m, 'l, 'c) mem option" where
  "store p x m = (if snd p < length (records_at m (fst p))
     then Some (m[fst p := Records ((records_at m (fst p))[snd p := x])]) else None)"

definition load_list :: "nat \<Rightarrow> ('m, 'l, 'c) mem \<Rightarrow> 'l SalvageRecordList option" where
  "load_list p m = (if p < length m then (case m ! p of RecordList l \<Rightarrow> Some l | _ \<Rightarrow> None) else None)"

definition store_list :: "nat \<Rightarrow> 'l SalvageRecordList \<Rightarrow> ('m, 'l, 'c) mem \<Rightarrow> ('m, 'l, 'c) mem option" where
  "store_list p l m = (case load_list p m of None \<Rightarrow> None | Some _ \<Rightarrow> Some (m[p := RecordList l]))"

definition zero_TypeMeta :: TypeMeta where
  "zero_TypeMeta = \<lparr>tm_Kind = '''', tm_APIVersion = ''''\<rparr>"

definition zero_record :: "('m, 'l, 'c) meta_ops \<Rightarrow> 'm SalvageRecordObj" where
  "zero_record ops = \<lparr>obj_TypeMeta = zero_TypeMeta, obj_ObjectMeta = zero_ObjectMeta ops,
     obj_Spec = \<lparr>PodName = '''', Digest = '''', ImageRef = '''', SourceNode = '''', TargetNode = ''''\<rparr>,
     obj_Status = \<lparr>Phase = '''', CompletedAt = '''', StatusError = ''''\<rparr>\<rparr>"

definition zero_list :: "('m, 'l, 'c) meta_ops \<Rightarrow> 'l SalvageRecordList" where
  "zero_list ops = \<lparr>list_TypeMeta = zero_TypeMeta, list_ListMeta = zero_ListMeta ops, list_Items = None\<rparr>"

section \<open>The generated functions\<close>

definition Record_DeepCopyInto :: "('m, 'l, 'c) meta_ops \<Rightarrow> ptr \<Rightarrow> ptr \<Rightarrow> ('m, 'l, 'c) mem \<Rightarrow> ('m, 'l, 'c) mem option" where
  "Record_DeepCopyInto ops inp out m = do {
     x \<leftarrow> load inp m;
     m \<leftarrow> store out x m;
     x \<leftarrow> load inp m;
     y \<leftarrow> load out m;
     m \<leftarrow> store out (y\<lparr>obj_TypeMeta := obj_TypeMeta x\<rparr>) m;
     x \<leftarrow> load inp m;
     (meta, m) \<leftarrow> ObjectMeta_DeepCopyInto ops (obj_ObjectMeta x) m;
     y \<leftarrow> load out m;
     m \<leftarrow> store out (y\<lparr>obj_ObjectMeta := meta\<rparr>) m;
     x \<leftarrow> load inp m;
     y \<leftarrow> load out m;
     m \<leftarrow> store out (y\<lparr>obj_Spec := obj_Spec x\<rparr>) m;
     x \<leftarrow> load inp m;
     y \<leftarrow> load out m;
     store out (y\<lparr>obj_Status := obj_Status x\<rparr>) m
   }"

definition Record_DeepCopy ::
  "('m, 'l, 'c) meta_ops \<Rightarrow> ptr option \<Rightarrow> ('m, 'l, 'c) mem \<Rightarrow> (ptr option \<times> ('m, 'l, 'c) mem) option" where
  "Record_DeepCopy ops inp m =
     (case inp of
        None \<Rightarrow> Some (None, m)
      | Some p \<Rightarrow> do {
          let out = (length m, 0);
          m \<leftarrow> Record_DeepCopyInto ops p out (m @ [Records [zero_record ops]]);
          Some (Some out, m)
        })"

text \<open>The loop over the indices; the slice headers that the code reads through its local pointers do not change in it.\<close>

fun copyItems :: "('m, 'l, 'c) meta_ops \<Rightarrow> slice \<Rightarrow> slice \<Rightarrow> nat list \<Rightarrow> ('m, 'l, 'c) mem \<Rightarrow> ('m, 'l, 'c) mem option" where
  "copyItems ops src dst [] m = Some m"
| "copyItems ops src dst (i # is) m =
     (if i < sl_Len src \<and> i < sl_Len dst then do {
        m \<leftarrow> Record_DeepCopyInto ops (sl_Array src, sl_Off src + i) (sl_Array dst, sl_Off dst + i) m;
        copyItems ops src dst is m
      } else None)"

definition List_DeepCopyInto :: "('m, 'l, 'c) meta_ops \<Rightarrow> nat \<Rightarrow> nat \<Rightarrow> ('m, 'l, 'c) mem \<Rightarrow> ('m, 'l, 'c) mem option" where
  "List_DeepCopyInto ops inp out m = do {
     x \<leftarrow> load_list inp m;
     m \<leftarrow> store_list out x m;
     x \<leftarrow> load_list inp m;
     y \<leftarrow> load_list out m;
     m \<leftarrow> store_list out (y\<lparr>list_TypeMeta := list_TypeMeta x\<rparr>) m;
     x \<leftarrow> load_list inp m;
     (meta, m) \<leftarrow> ListMeta_DeepCopyInto ops (list_ListMeta x) m;
     y \<leftarrow> load_list out m;
     m \<leftarrow> store_list out (y\<lparr>list_ListMeta := meta\<rparr>) m;
     x \<leftarrow> load_list inp m;
     case list_Items x of
       None \<Rightarrow> Some m
     | Some src \<Rightarrow> do {
         let dst = \<lparr>sl_Array = length m, sl_Off = 0, sl_Len = sl_Len src\<rparr>;
         y \<leftarrow> load_list out m;
         m \<leftarrow> store_list out (y\<lparr>list_Items := Some dst\<rparr>) (m @ [Records (replicate (sl_Len src) (zero_record ops))]);
         copyItems ops src dst [0..<sl_Len src] m
       }
   }"

definition List_DeepCopy ::
  "('m, 'l, 'c) meta_ops \<Rightarrow> nat option \<Rightarrow> ('m, 'l, 'c) mem \<Rightarrow> (nat option \<times> ('m, 'l, 'c) mem) option" where
  "List_DeepCopy ops inp m =
     (case inp of
        None \<Rightarrow> Some (None, m)
      | Some p \<Rightarrow> do {
          let out = length m;
          m \<leftarrow> List_DeepCopyInto ops p out (m @ [RecordList (zero_list ops)]);
          Some (Some out, m)
        })"

text \<open>\<open>runtime.Object\<close>: an interface value holding one of the two pointers; \<^const>\<open>None\<close> is the nil interface.\<close>

datatype runtime_Object = RecordObject ptr | ListObject nat

definition Record_DeepCopyObject ::
  "('m, 'l, 'c) meta_ops \<Rightarrow> ptr option \<Rightarrow> ('m, 'l, 'c) mem \<Rightarrow> (runtime_Object option \<times> ('m, 'l, 'c) mem) option" where
  "Record_DeepCopyObject ops inp m = do {
     (c, m) \<leftarrow> Record_DeepCopy ops inp m;
     case c of Some q \<Rightarrow> Some (Some (RecordObject q), m) | None \<Rightarrow> Some (None, m)
   }"

definition List_DeepCopyObject ::
  "('m, 'l, 'c) meta_ops \<Rightarrow> nat option \<Rightarrow> ('m, 'l, 'c) mem \<Rightarrow> (runtime_Object option \<times> ('m, 'l, 'c) mem) option" where
  "List_DeepCopyObject ops inp m = do {
     (c, m) \<leftarrow> List_DeepCopy ops inp m;
     case c of Some q \<Rightarrow> Some (Some (ListObject q), m) | None \<Rightarrow> Some (None, m)
   }"

section \<open>What a pointer shows\<close>

definition obj_view :: "(('m, 'l, 'c) mem \<Rightarrow> 'm \<Rightarrow> 'v) \<Rightarrow> ('m, 'l, 'c) mem \<Rightarrow> 'm SalvageRecordObj \<Rightarrow> 'v SalvageRecordObj" where
  "obj_view viewM m x = \<lparr>obj_TypeMeta = obj_TypeMeta x, obj_ObjectMeta = viewM m (obj_ObjectMeta x),
     obj_Spec = obj_Spec x, obj_Status = obj_Status x\<rparr>"

definition record_sound :: "(('m, 'l, 'c) mem \<Rightarrow> 'm \<Rightarrow> bool) \<Rightarrow> ('m, 'l, 'c) mem \<Rightarrow> ptr option \<Rightarrow> bool" where
  "record_sound soundM m p = (case p of None \<Rightarrow> True | Some q \<Rightarrow>
     (case load q m of None \<Rightarrow> False | Some x \<Rightarrow> soundM m (obj_ObjectMeta x)))"

definition record_footprint :: "(('m, 'l, 'c) mem \<Rightarrow> 'm \<Rightarrow> nat set) \<Rightarrow> ('m, 'l, 'c) mem \<Rightarrow> ptr option \<Rightarrow> nat set" where
  "record_footprint fpM m p = (case p of None \<Rightarrow> {} | Some q \<Rightarrow>
     (case load q m of None \<Rightarrow> {} | Some x \<Rightarrow> insert (fst q) (fpM m (obj_ObjectMeta x))))"

definition record_view :: "(('m, 'l, 'c) mem \<Rightarrow> 'm \<Rightarrow> 'v) \<Rightarrow> ('m, 'l, 'c) mem \<Rightarrow> ptr option \<Rightarrow> 'v SalvageRecordObj option option" where
  "record_view viewM m p = map_option (\<lambda>q. map_option (obj_view viewM m) (load q m)) p"

lemma records_at_update [simp]:
  "a < length m \<Longrightarrow> records_at (m[a := Records xs]) b = (if b = a then xs else records_at m b)"
  by (simp add: records_at_def)

lemma records_at_inside: "i < length (records_at m a) \<Longrightarrow> a < length m"
  by (simp add: records_at_def split: if_splits)

lemma records_at_prefix: "prefix m m' \<Longrightarrow> a < length m \<Longrightarrow> records_at m' a = records_at m a"
  by (auto simp: records_at_def prefix_def nth_append)

lemma records_at_agree: "agree A m m' \<Longrightarrow> a \<in> A \<Longrightarrow> records_at m' a = records_at m a"
  by (auto simp: records_at_def agree_def)

lemma load_agree: "agree A m m' \<Longrightarrow> fst p \<in> A \<Longrightarrow> load p m' = load p m"
  by (simp add: load_def records_at_agree)

lemma load_inside: "load p m = Some x \<Longrightarrow> fst p < length m"
  by (auto simp: load_def records_at_inside split: if_splits)

text \<open>The assignments of \<open>DeepCopyInto\<close> together: the record is copied with the copied metadata.\<close>

lemma Record_DeepCopyInto_run:
  assumes x: "load inp m = Some x" and z: "load out m = Some z" and ne: "fst inp \<noteq> fst out"
    and copy: "ObjectMeta_DeepCopyInto ops (obj_ObjectMeta x) (m[fst out := Records ((records_at m (fst out))[snd out := x])]) = Some (meta, m2)"
    and pre: "prefix (m[fst out := Records ((records_at m (fst out))[snd out := x])]) m2"
  shows "Record_DeepCopyInto ops inp out m =
     Some (m2[fst out := Records ((records_at m (fst out))[snd out := x\<lparr>obj_ObjectMeta := meta\<rparr>])])"
proof -
  let ?m1 = "m[fst out := Records ((records_at m (fst out))[snd out := x])]"
  note ins = load_inside[OF x] load_inside[OF z]
  have i: "snd inp < length (records_at m (fst inp))" "records_at m (fst inp) ! snd inp = x"
    "snd out < length (records_at m (fst out))"
    using x z by (auto simp: load_def split: if_splits)
  have len: "length m \<le> length m2" using prefix_length_le[OF pre] by simp
  have at: "records_at m2 (fst inp) = records_at m (fst inp)"
    "records_at m2 (fst out) = (records_at m (fst out))[snd out := x]"
    using records_at_prefix[OF pre, of "fst inp"] records_at_prefix[OF pre, of "fst out"] ins ne by auto
  show ?thesis
    using ins i ne copy len at by (simp add: Record_DeepCopyInto_def load_def store_def)
qed

section \<open>Records, over any deep copy of ObjectMeta\<close>

locale object_meta = M: deep_copier soundM fpM viewM "ObjectMeta_DeepCopyInto ops"
  for ops :: "('m, 'l, 'c) meta_ops"
    and soundM :: "('m, 'l, 'c) mem \<Rightarrow> 'm \<Rightarrow> bool"
    and fpM :: "('m, 'l, 'c) mem \<Rightarrow> 'm \<Rightarrow> nat set"
    and viewM :: "('m, 'l, 'c) mem \<Rightarrow> 'm \<Rightarrow> 'v"
begin

lemma obj_local:
  assumes "soundM m (obj_ObjectMeta x)" and "agree (fpM m (obj_ObjectMeta x)) m m'"
  shows "soundM m' (obj_ObjectMeta x)" and "fpM m' (obj_ObjectMeta x) = fpM m (obj_ObjectMeta x)"
    and "obj_view viewM m' x = obj_view viewM m x"
  using M.local[OF assms] by (simp_all add: obj_view_def)

text \<open>One record copied into an existing one, in another cell that the source does not reach.\<close>

lemma copies_into:
  assumes x: "load inp m = Some x" and z: "load out m = Some z" and ne: "fst inp \<noteq> fst out"
    and s: "soundM m (obj_ObjectMeta x)" and apart: "fst out \<notin> fpM m (obj_ObjectMeta x)"
  obtains m' y where "Record_DeepCopyInto ops inp out m = Some m'" and "length m \<le> length m'"
    and "\<forall>a < length m. a \<noteq> fst out \<longrightarrow> m' ! a = m ! a"
    and "m' ! fst out = Records ((records_at m (fst out))[snd out := y])"
    and "soundM m' (obj_ObjectMeta y)" and "obj_view viewM m' y = obj_view viewM m x"
    and "fpM m' (obj_ObjectMeta y) \<subseteq> {length m..<length m'}"
proof -
  let ?m1 = "m[fst out := Records ((records_at m (fst out))[snd out := x])]"
  have "agree (fpM m (obj_ObjectMeta x)) m ?m1"
    by (rule agree_update[OF M.inside[OF s] apart])
  note l = obj_local[OF s this]
  from M.copies[OF l(1)] obtain meta m2 where c: "ObjectMeta_DeepCopyInto ops (obj_ObjectMeta x) ?m1 = Some (meta, m2)"
    "prefix ?m1 m2" "soundM m2 meta" "viewM m2 meta = viewM ?m1 (obj_ObjectMeta x)" "fpM m2 meta \<subseteq> {length m..<length m2}"
    by auto
  let ?y = "x\<lparr>obj_ObjectMeta := meta\<rparr>"
  let ?m' = "m2[fst out := Records ((records_at m (fst out))[snd out := ?y])]"
  note run = Record_DeepCopyInto_run[OF x z ne c(1,2)]
  have len: "length m \<le> length m2" "fst out < length m" using prefix_length_le[OF c(2)] load_inside[OF z] by auto
  have "agree (fpM m2 meta) m2 ?m'" using c(5) len by (fastforce simp: agree_def)
  note fin = M.local[OF c(3) this]
  have old: "\<forall>a < length m. a \<noteq> fst out \<longrightarrow> ?m' ! a = m ! a"
    using c(2) by (auto simp: prefix_def nth_append)
  have "viewM ?m1 (obj_ObjectMeta x) = viewM m (obj_ObjectMeta x)" using l(3) by (simp add: obj_view_def)
  then have "obj_view viewM ?m' ?y = obj_view viewM m x" using fin c(4) by (simp add: obj_view_def)
  with run len fin c(5) old show thesis by (intro that[of ?m' ?y]) auto
qed

lemma record_copies:
  assumes "record_sound soundM m p"
  shows "\<exists>q m'. Record_DeepCopy ops p m = Some (q, m') \<and> prefix m m' \<and> record_sound soundM m' q
     \<and> record_view viewM m' q = record_view viewM m p \<and> record_footprint fpM m' q \<subseteq> {length m..<length m'}"
proof (cases p)
  case (Some r)
  with assms obtain x where x: "load r m = Some x" and s: "soundM m (obj_ObjectMeta x)"
    by (auto simp: record_sound_def split: option.splits)
  let ?m = "m @ [Records [zero_record ops]]"
  have pre: "agree {..<length m} m ?m" by (simp add: agree_def nth_append)
  have x': "load r ?m = Some x" using load_agree[OF pre, of r] load_inside[OF x] x by simp
  have z: "load (length m, 0) ?m = Some (zero_record ops)" by (simp add: load_def records_at_def)
  note l = obj_local[OF s agree_subset[OF pre M.inside[OF s]]]
  have apart: "fst r \<noteq> fst (length m, 0::nat)" "fst (length m, 0::nat) \<notin> fpM ?m (obj_ObjectMeta x)"
    using load_inside[OF x] M.inside[OF s] l(2) by auto
  obtain m' y where c: "Record_DeepCopyInto ops r (length m, 0) ?m = Some m'" "length ?m \<le> length m'"
    "\<forall>a < length ?m. a \<noteq> length m \<longrightarrow> m' ! a = ?m ! a" "m' ! length m = Records [y]"
    "soundM m' (obj_ObjectMeta y)" "obj_view viewM m' y = obj_view viewM ?m x" "fpM m' (obj_ObjectMeta y) \<subseteq> {length ?m..<length m'}"
    by (rule copies_into[OF x' z apart(1) l(1) apart(2)]) (simp add: records_at_def)
  have "prefix m m'" using c(2,3) by (intro prefix_agree) (auto simp: agree_def nth_append)
  moreover have "load (length m, 0) m' = Some y" using c(2,4) by (simp add: load_def records_at_def)
  ultimately show ?thesis
    using Some x c l by (auto simp: Record_DeepCopy_def record_sound_def record_view_def record_footprint_def)
qed (simp add: Record_DeepCopy_def record_sound_def record_view_def record_footprint_def)

end

sublocale object_meta \<subseteq> rec: deep_copier "record_sound soundM" "record_footprint fpM" "record_view viewM" "Record_DeepCopy ops"
proof
  show "record_footprint fpM m x \<subseteq> {..<length m}" if "record_sound soundM m x" for m x
    using that M.inside load_inside by (fastforce simp: record_sound_def record_footprint_def split: option.splits)
  show "record_sound soundM m' x \<and> record_footprint fpM m' x = record_footprint fpM m x \<and> record_view viewM m' x = record_view viewM m x"
    if s: "record_sound soundM m x" and "agree (record_footprint fpM m x) m m'" for m x m'
  proof (cases x)
    case (Some p)
    with s obtain o1 where o1: "load p m = Some o1" "soundM m (obj_ObjectMeta o1)"
      by (auto simp: record_sound_def split: option.splits)
    with Some that have a: "agree (insert (fst p) (fpM m (obj_ObjectMeta o1))) m m'" by (simp add: record_footprint_def)
    with o1 load_agree[OF a, of p] obj_local[OF o1(2) agree_subset[OF a]] Some show ?thesis
      by (auto simp: record_sound_def record_footprint_def record_view_def)
  qed (simp add: record_sound_def record_footprint_def record_view_def)
  show "\<exists>y m'. Record_DeepCopy ops x m = Some (y, m') \<and> prefix m m' \<and> record_sound soundM m' y
     \<and> record_view viewM m' y = record_view viewM m x \<and> record_footprint fpM m' y \<subseteq> {length m..<length m'}"
    if "record_sound soundM m x" for m x
    using that by (rule record_copies)
qed

section \<open>Lists of records\<close>

definition items :: "('m, 'l, 'c) mem \<Rightarrow> slice \<Rightarrow> 'm SalvageRecordObj list" where
  "items m sl = take (sl_Len sl) (drop (sl_Off sl) (records_at m (sl_Array sl)))"

definition slice_in :: "('m, 'l, 'c) mem \<Rightarrow> slice \<Rightarrow> bool" where
  "slice_in m sl \<longleftrightarrow> sl_Array sl < length m \<and> sl_Off sl + sl_Len sl \<le> length (records_at m (sl_Array sl))"

lemma items_length [simp]: "slice_in m sl \<Longrightarrow> length (items m sl) = sl_Len sl"
  by (auto simp: items_def slice_in_def)

lemma items_nth: "slice_in m sl \<Longrightarrow> i < sl_Len sl \<Longrightarrow> load (sl_Array sl, sl_Off sl + i) m = Some (items m sl ! i)"
  by (simp add: items_def slice_in_def load_def)

lemma items_agree:
  assumes "agree A m m'" and "sl_Array sl \<in> A"
  shows "items m' sl = items m sl" and "slice_in m' sl = slice_in m sl"
  using assms records_at_agree[OF assms] by (auto simp: items_def slice_in_def agree_def)

text \<open>A slice \<open>src\<close> of sound records that do not reach the array of \<open>dst\<close>, a slice of the same length; and the
  state in which the elements of \<open>dst\<close> with an index in \<open>I\<close> have become copies and the others are as before.\<close>

definition copyable ::
  "(('m, 'l, 'c) mem \<Rightarrow> 'm \<Rightarrow> bool) \<Rightarrow> (('m, 'l, 'c) mem \<Rightarrow> 'm \<Rightarrow> nat set) \<Rightarrow> ('m, 'l, 'c) mem \<Rightarrow> slice \<Rightarrow> slice \<Rightarrow> bool" where
  "copyable soundM fpM m src dst \<longleftrightarrow> slice_in m src \<and> slice_in m dst \<and> sl_Len dst = sl_Len src \<and> sl_Array src \<noteq> sl_Array dst
     \<and> (\<forall>x \<in> set (items m src). soundM m (obj_ObjectMeta x) \<and> sl_Array dst \<notin> fpM m (obj_ObjectMeta x))"

context object_meta
begin

definition copied :: "slice \<Rightarrow> slice \<Rightarrow> nat set \<Rightarrow> ('m, 'l, 'c) mem \<Rightarrow> ('m, 'l, 'c) mem \<Rightarrow> bool" where
  "copied src dst I m m' \<longleftrightarrow> length m \<le> length m' \<and> (\<forall>a < length m. a \<noteq> sl_Array dst \<longrightarrow> m' ! a = m ! a) \<and> slice_in m' dst
     \<and> (\<forall>i < sl_Len src. if i \<in> I then soundM m' (obj_ObjectMeta (items m' dst ! i))
          \<and> obj_view viewM m' (items m' dst ! i) = obj_view viewM m (items m src ! i)
          \<and> fpM m' (obj_ObjectMeta (items m' dst ! i)) \<subseteq> {length m..<length m'}
        else items m' dst ! i = items m dst ! i)"

lemma copied_agree: "copied src dst I m m' \<Longrightarrow> A \<subseteq> {..<length m} \<Longrightarrow> sl_Array dst \<notin> A \<Longrightarrow> agree A m m'"
  by (auto simp: copied_def agree_def)

lemma copied_source:
  assumes ok: "copyable soundM fpM m src dst" and c: "copied src dst I m m'"
  shows "copyable soundM fpM m' src dst" and "items m' src = items m src"
    and "i < sl_Len src \<Longrightarrow> obj_view viewM m' (items m src ! i) = obj_view viewM m (items m src ! i)"
proof -
  have x: "soundM m' (obj_ObjectMeta x) \<and> sl_Array dst \<notin> fpM m' (obj_ObjectMeta x) \<and> obj_view viewM m' x = obj_view viewM m x"
    if "x \<in> set (items m src)" for x
  proof -
    from ok that have s: "soundM m (obj_ObjectMeta x)" "sl_Array dst \<notin> fpM m (obj_ObjectMeta x)" by (auto simp: copyable_def)
    with obj_local[OF s(1) copied_agree[OF c M.inside[OF s(1)] s(2)]] show ?thesis by simp
  qed
  have ag: "agree {sl_Array src} m m'"
    by (rule copied_agree[OF c]) (use ok in \<open>auto simp: copyable_def slice_in_def\<close>)
  show eq: "items m' src = items m src" using items_agree[OF ag] by simp
  show "copyable soundM fpM m' src dst"
    using ok c x items_agree[OF ag] by (auto simp: copyable_def copied_def)
  show "obj_view viewM m' (items m src ! i) = obj_view viewM m (items m src ! i)" if "i < sl_Len src"
    using x[of "items m src ! i"] that ok by (auto simp: copyable_def)
qed

lemma copied_step:
  assumes ok: "copyable soundM fpM m src dst" and k: "k < sl_Len src"
  obtains m1 where "Record_DeepCopyInto ops (sl_Array src, sl_Off src + k) (sl_Array dst, sl_Off dst + k) m = Some m1"
    and "copied src dst {k} m m1"
proof -
  let ?b = "sl_Array dst" and ?x = "items m src ! k"
  from ok have d: "slice_in m src" "slice_in m dst" "sl_Len dst = sl_Len src" "sl_Array src \<noteq> ?b" by (auto simp: copyable_def)
  with ok k have s: "soundM m (obj_ObjectMeta ?x)" "?b \<notin> fpM m (obj_ObjectMeta ?x)" by (auto simp: copyable_def)
  from d k have kd: "k < sl_Len dst" by simp
  have ne: "fst (sl_Array src, sl_Off src + k) \<noteq> fst (?b, sl_Off dst + k)" using d(4) by simp
  obtain m1 y where c: "Record_DeepCopyInto ops (sl_Array src, sl_Off src + k) (?b, sl_Off dst + k) m = Some m1" "length m \<le> length m1"
    "\<forall>a < length m. a \<noteq> ?b \<longrightarrow> m1 ! a = m ! a" "m1 ! ?b = Records ((records_at m ?b)[sl_Off dst + k := y])"
    "soundM m1 (obj_ObjectMeta y)" "obj_view viewM m1 y = obj_view viewM m ?x" "fpM m1 (obj_ObjectMeta y) \<subseteq> {length m..<length m1}"
    using copies_into[OF items_nth[OF d(1) k] items_nth[OF d(2) kd] ne s(1)] s(2) by auto
  have b: "?b < length m" using d(2) by (simp add: slice_in_def)
  with c(2,4) have "records_at m1 ?b = (records_at m ?b)[sl_Off dst + k := y]" by (simp add: records_at_def)
  then have "slice_in m1 dst" "items m1 dst = (items m dst)[k := y]"
    using d(2) b c(2) kd by (auto simp: slice_in_def items_def drop_update_swap take_update_swap)
  with c d k have "copied src dst {k} m m1" by (simp add: copied_def)
  with c(1) show thesis by (rule that)
qed

lemma copied_trans:
  assumes ok: "copyable soundM fpM m src dst" and c: "copied src dst {k} m m1" and d: "copied src dst {Suc k..} m1 m'"
  shows "copied src dst {k..} m m'"
proof -
  note src = copied_source[OF ok c]
  have "soundM m' (obj_ObjectMeta (items m' dst ! i)) \<and> obj_view viewM m' (items m' dst ! i) = obj_view viewM m (items m src ! i)
      \<and> fpM m' (obj_ObjectMeta (items m' dst ! i)) \<subseteq> {length m..<length m'}" if i: "i < sl_Len src" "k \<le> i" for i
  proof (cases "i = k")
    case True
    let ?y = "items m1 dst ! k"
    from i True have k: "k < sl_Len src" by simp
    from c k have y: "soundM m1 (obj_ObjectMeta ?y)" "obj_view viewM m1 ?y = obj_view viewM m (items m src ! k)"
      "fpM m1 (obj_ObjectMeta ?y) \<subseteq> {length m..<length m1}" by (auto simp: copied_def)
    have "sl_Array dst < length m" using ok by (simp add: copyable_def slice_in_def)
    with y(3) have "agree (fpM m1 (obj_ObjectMeta ?y)) m1 m'" by (intro copied_agree[OF d]) auto
    from obj_local[OF y(1) this] y k True d show ?thesis by (auto simp: copied_def)
  next
    case False
    with i d have "soundM m' (obj_ObjectMeta (items m' dst ! i)) \<and> obj_view viewM m' (items m' dst ! i) = obj_view viewM m1 (items m1 src ! i)
        \<and> fpM m' (obj_ObjectMeta (items m' dst ! i)) \<subseteq> {length m1..<length m'}" by (simp add: copied_def)
    moreover have "length m \<le> length m1" using c by (simp add: copied_def)
    ultimately show ?thesis using src(2) src(3)[OF i(1)] by fastforce
  qed
  moreover have "items m' dst ! i = items m dst ! i" if "i < sl_Len src" "i < k" for i
    using c d that by (auto simp: copied_def)
  ultimately show ?thesis using c d by (auto simp: copied_def)
qed

lemma copyItems_ok:
  assumes "copyable soundM fpM m src dst" and "k \<le> sl_Len src"
  shows "\<exists>m'. copyItems ops src dst [k..<sl_Len src] m = Some m' \<and> copied src dst {k..} m m'"
  using assms
proof (induction "sl_Len src - k" arbitrary: k m)
  case 0
  then show ?case by (simp add: copied_def copyable_def)
next
  case (Suc n)
  then have k: "k < sl_Len src" by simp
  obtain m1 where m1: "Record_DeepCopyInto ops (sl_Array src, sl_Off src + k) (sl_Array dst, sl_Off dst + k) m = Some m1"
    "copied src dst {k} m m1" by (rule copied_step[OF Suc.prems(1) k])
  have "n = sl_Len src - Suc k" "Suc k \<le> sl_Len src" using Suc.hyps(2) k by simp_all
  from Suc.hyps(1)[OF this(1) copied_source(1)[OF Suc.prems(1) m1(2)] this(2)]
  obtain m' where "copyItems ops src dst [Suc k..<sl_Len src] m1 = Some m'" "copied src dst {Suc k..} m1 m'" by auto
  with k m1 Suc.prems(1) copied_trans[OF Suc.prems(1) m1(2)] show ?case by (auto simp: upt_conv_Cons copyable_def)
qed

end

definition list_sound ::
  "(('m, 'l, 'c) mem \<Rightarrow> 'm \<Rightarrow> bool) \<Rightarrow> (('m, 'l, 'c) mem \<Rightarrow> 'l \<Rightarrow> bool) \<Rightarrow> ('m, 'l, 'c) mem \<Rightarrow> nat option \<Rightarrow> bool" where
  "list_sound soundM soundL m p = (case p of None \<Rightarrow> True | Some q \<Rightarrow>
     (case load_list q m of None \<Rightarrow> False | Some x \<Rightarrow> soundL m (list_ListMeta x) \<and>
        (case list_Items x of None \<Rightarrow> True | Some sl \<Rightarrow>
           slice_in m sl \<and> (\<forall>y \<in> set (items m sl). soundM m (obj_ObjectMeta y)))))"

definition list_footprint ::
  "(('m, 'l, 'c) mem \<Rightarrow> 'm \<Rightarrow> nat set) \<Rightarrow> (('m, 'l, 'c) mem \<Rightarrow> 'l \<Rightarrow> nat set) \<Rightarrow> ('m, 'l, 'c) mem \<Rightarrow> nat option \<Rightarrow> nat set" where
  "list_footprint fpM fpL m p = (case p of None \<Rightarrow> {} | Some q \<Rightarrow>
     (case load_list q m of None \<Rightarrow> {} | Some x \<Rightarrow> insert q (fpL m (list_ListMeta x) \<union>
        (case list_Items x of None \<Rightarrow> {} | Some sl \<Rightarrow>
           insert (sl_Array sl) (\<Union>y \<in> set (items m sl). fpM m (obj_ObjectMeta y))))))"

definition list_view ::
  "(('m, 'l, 'c) mem \<Rightarrow> 'm \<Rightarrow> 'v) \<Rightarrow> (('m, 'l, 'c) mem \<Rightarrow> 'l \<Rightarrow> 'u) \<Rightarrow> ('m, 'l, 'c) mem \<Rightarrow> nat option
     \<Rightarrow> (TypeMeta \<times> 'u \<times> 'v SalvageRecordObj list option) option option" where
  "list_view viewM viewL m p = map_option (\<lambda>q. map_option (\<lambda>x. (list_TypeMeta x, viewL m (list_ListMeta x),
     map_option (\<lambda>sl. map (obj_view viewM m) (items m sl)) (list_Items x))) (load_list q m)) p"

lemmas list_obj_defs = list_sound_def list_footprint_def list_view_def

lemma load_list_update [simp]:
  "p < length m \<Longrightarrow> load_list p (m[p := RecordList l]) = Some l" "q \<noteq> p \<Longrightarrow> load_list q (m[p := c]) = load_list q m"
  by (simp_all add: load_list_def)

lemma load_list_append [simp]: "p < length m \<Longrightarrow> load_list p (m @ m') = load_list p m"
  by (simp add: load_list_def nth_append)

lemma load_list_inside: "load_list p m = Some x \<Longrightarrow> p < length m"
  by (simp add: load_list_def split: if_splits)

lemma load_list_agree: "agree A m m' \<Longrightarrow> p \<in> A \<Longrightarrow> load_list p m' = load_list p m"
  by (auto simp: load_list_def agree_def)

text \<open>The assignments of \<open>DeepCopyInto\<close> for a list together, up to the loop.\<close>

definition loop_part :: "('m, 'l, 'c) meta_ops \<Rightarrow> nat \<Rightarrow> 'l SalvageRecordList \<Rightarrow> ('m, 'l, 'c) mem \<Rightarrow> ('m, 'l, 'c) mem option" where
  "loop_part ops out y m = (case list_Items y of None \<Rightarrow> Some m | Some src \<Rightarrow>
     (let dst = \<lparr>sl_Array = length m, sl_Off = 0, sl_Len = sl_Len src\<rparr>
      in copyItems ops src dst [0..<sl_Len src]
           ((m @ [Records (replicate (sl_Len src) (zero_record ops))])[out := RecordList (y\<lparr>list_Items := Some dst\<rparr>)])))"

lemma List_DeepCopyInto_run:
  assumes x: "load_list inp m = Some x" and z: "load_list out m = Some z" and ne: "inp \<noteq> out"
    and copy: "ListMeta_DeepCopyInto ops (list_ListMeta x) (m[out := RecordList x]) = Some (meta, m2)"
    and pre: "prefix (m[out := RecordList x]) m2"
  shows "List_DeepCopyInto ops inp out m = loop_part ops out (x\<lparr>list_ListMeta := meta\<rparr>) (m2[out := RecordList (x\<lparr>list_ListMeta := meta\<rparr>)])"
proof -
  note ins = load_list_inside[OF x] load_list_inside[OF z]
  obtain t where t: "m2 = m[out := RecordList x] @ t" using pre by (auto simp: prefix_def)
  show ?thesis
    using assms(1-4) ins
    by (simp add: List_DeepCopyInto_def store_list_def loop_part_def Let_def t split: option.splits)
qed

locale list_meta = object_meta ops soundM fpM viewM + L: deep_copier soundL fpL viewL "ListMeta_DeepCopyInto ops"
  for ops :: "('m, 'l, 'c) meta_ops" and soundM fpM viewM
    and soundL :: "('m, 'l, 'c) mem \<Rightarrow> 'l \<Rightarrow> bool"
    and fpL :: "('m, 'l, 'c) mem \<Rightarrow> 'l \<Rightarrow> nat set"
    and viewL :: "('m, 'l, 'c) mem \<Rightarrow> 'l \<Rightarrow> 'u"
begin

text \<open>After the assignments of the header: the new list has its own metadata and still the slice of the old one.\<close>

lemma header_copied:
  assumes x: "load_list p m = Some x" and s: "soundL m (list_ListMeta x)"
  obtains meta h where "List_DeepCopyInto ops p (length m) (m @ [RecordList (zero_list ops)]) = loop_part ops (length m) (x\<lparr>list_ListMeta := meta\<rparr>) h"
    and "length m < length h" and "agree {..<length m} m h" and "load_list (length m) h = Some (x\<lparr>list_ListMeta := meta\<rparr>)"
    and "soundL h meta" and "viewL h meta = viewL m (list_ListMeta x)" and "fpL h meta \<subseteq> {Suc (length m)..<length h}"
proof -
  let ?m = "m @ [RecordList (zero_list ops)]" and ?m1 = "m @ [RecordList x]"
  have ag: "agree {..<length m} m ?m1" by (simp add: agree_def nth_append)
  note l = L.local[OF s agree_subset[OF ag L.inside[OF s]]]
  from L.copies[of ?m1 "list_ListMeta x"] l obtain meta m2 where
    c: "ListMeta_DeepCopyInto ops (list_ListMeta x) ?m1 = Some (meta, m2)" "prefix ?m1 m2" "soundL m2 meta"
      "viewL m2 meta = viewL m (list_ListMeta x)" "fpL m2 meta \<subseteq> {Suc (length m)..<length m2}" by auto
  let ?h = "m2[length m := RecordList (x\<lparr>list_ListMeta := meta\<rparr>)]"
  obtain t where t: "m2 = m @ [RecordList x] @ t" using c(2) by (auto simp: prefix_def)
  have "List_DeepCopyInto ops p (length m) ?m = loop_part ops (length m) (x\<lparr>list_ListMeta := meta\<rparr>) ?h"
    by (rule List_DeepCopyInto_run[where x = x and z = "zero_list ops"])
       (use x load_list_inside[OF x] c(1,2) in \<open>auto simp: load_list_def nth_append\<close>)
  moreover have "agree (fpL m2 meta) m2 ?h" by (rule agree_update) (use c(5) in auto)
  note L.local[OF c(3) this]
  moreover have "agree {..<length m} m ?h" by (simp add: agree_def t nth_append)
  moreover have "length m < length ?h" by (simp add: t)
  ultimately show thesis using c(4,5) by (intro that[of meta ?h]) simp_all
qed

lemma loop_copied:
  assumes len: "n < length h" and y: "load_list n h = Some y" and sl: "list_Items y = Some src"
    and ok: "slice_in h src" "sl_Array src \<noteq> n" "\<And>e. e \<in> set (items h src) \<Longrightarrow> soundM h (obj_ObjectMeta e) \<and> n \<notin> fpM h (obj_ObjectMeta e)"
  obtains h' dst where "loop_part ops n y h = Some h'" and "length h < length h'" and "agree ({..<length h} - {n}) h h'"
    and "load_list n h' = Some (y\<lparr>list_Items := Some dst\<rparr>)" and "sl_Array dst = length h" and "slice_in h' dst"
    and "\<And>e. e \<in> set (items h' dst) \<Longrightarrow> soundM h' (obj_ObjectMeta e) \<and> fpM h' (obj_ObjectMeta e) \<subseteq> {length h..<length h'}"
    and "map (obj_view viewM h') (items h' dst) = map (obj_view viewM h) (items h src)"
proof -
  let ?dst = "\<lparr>sl_Array = length h, sl_Off = 0, sl_Len = sl_Len src\<rparr>"
  let ?y = "RecordList (y\<lparr>list_Items := Some ?dst\<rparr>)"
  let ?g = "(h @ [Records (replicate (sl_Len src) (zero_record ops))])[n := ?y]"
  have ag: "agree ({..<length h} - {n}) h ?g" by (auto simp: agree_def nth_append)
  note src = items_agree[OF ag, of src]
  have e: "soundM ?g (obj_ObjectMeta e) \<and> length h \<notin> fpM ?g (obj_ObjectMeta e) \<and> obj_view viewM ?g e = obj_view viewM h e"
    if "e \<in> set (items h src)" for e
  proof -
    from ok(3)[OF that] have s: "soundM h (obj_ObjectMeta e)" "n \<notin> fpM h (obj_ObjectMeta e)" by auto
    have "agree (fpM h (obj_ObjectMeta e)) h ?g" by (rule agree_subset[OF ag]) (use M.inside[OF s(1)] s(2) in auto)
    from obj_local[OF s(1) this] M.inside[OF s(1)] show ?thesis by auto
  qed
  have sa: "sl_Array src < length h" using ok(1) by (simp add: slice_in_def)
  with ok(1,2) src have s: "slice_in ?g src" "items ?g src = items h src" by auto
  have "records_at ?g (length h) = replicate (sl_Len src) (zero_record ops)" using len by (simp add: records_at_def)
  then have "slice_in ?g ?dst" by (simp add: slice_in_def)
  with s sa e have "copyable soundM fpM ?g src ?dst" by (simp add: copyable_def)
  from copyItems_ok[OF this, of 0] obtain h' where h': "copyItems ops src ?dst [0..<sl_Len src] ?g = Some h'"
    and c: "copied src ?dst {0..} ?g h'" by auto
  have items: "i < sl_Len src \<Longrightarrow> soundM h' (obj_ObjectMeta (items h' ?dst ! i)) \<and> obj_view viewM h' (items h' ?dst ! i) = obj_view viewM ?g (items h src ! i)
      \<and> fpM h' (obj_ObjectMeta (items h' ?dst ! i)) \<subseteq> {Suc (length h)..<length h'}" for i
    using c s(2) by (simp add: copied_def)
  have l: "slice_in h' ?dst" "length (items h' ?dst) = sl_Len src" "length (items h src) = sl_Len src" "length h < length h'"
    using c ok(1) items_length[of h' ?dst] by (auto simp: copied_def)
  have "agree ({..<length h} - {n}) ?g h'" by (rule copied_agree[OF c]) auto
  note agree_trans[OF ag this]
  moreover have "load_list n h' = Some (y\<lparr>list_Items := Some ?dst\<rparr>)"
    using load_list_agree[OF copied_agree[OF c, of "{n}"], of n] len by auto
  moreover have "map (obj_view viewM h') (items h' ?dst) = map (obj_view viewM h) (items h src)"
    using items e l by (intro nth_equalityI) auto
  moreover have "soundM h' (obj_ObjectMeta e) \<and> fpM h' (obj_ObjectMeta e) \<subseteq> {length h..<length h'}" if "e \<in> set (items h' ?dst)" for e
    using that items l(2) by (fastforce simp: in_set_conv_nth)
  ultimately show thesis
    using l h' sl by (intro that[of h' ?dst]) (simp_all add: loop_part_def Let_def)
qed

lemma list_copies:
  assumes "list_sound soundM soundL m p"
  shows "\<exists>q m'. List_DeepCopy ops p m = Some (q, m') \<and> prefix m m' \<and> list_sound soundM soundL m' q
     \<and> list_view viewM viewL m' q = list_view viewM viewL m p \<and> list_footprint fpM fpL m' q \<subseteq> {length m..<length m'}"
proof (cases p)
  case (Some r)
  with assms obtain x where x: "load_list r m = Some x" and s: "soundL m (list_ListMeta x)"
    by (auto simp: list_sound_def split: option.splits)
  obtain meta h where h: "List_DeepCopyInto ops r (length m) (m @ [RecordList (zero_list ops)]) = loop_part ops (length m) (x\<lparr>list_ListMeta := meta\<rparr>) h"
    "length m < length h" "agree {..<length m} m h" "load_list (length m) h = Some (x\<lparr>list_ListMeta := meta\<rparr>)"
    "soundL h meta" "viewL h meta = viewL m (list_ListMeta x)" "fpL h meta \<subseteq> {Suc (length m)..<length h}"
    by (rule header_copied[OF x s])
  show ?thesis
  proof (cases "list_Items x")
    case None
    with h(1) have run: "List_DeepCopy ops p m = Some (Some (length m), h)" using Some by (simp add: List_DeepCopy_def loop_part_def)
    have "prefix m h" by (rule prefix_agree[OF h(3)]) (use h(2) in simp)
    with run h x Some None show ?thesis by (auto simp: list_obj_defs)
  next
    case src: (Some src)
    with assms x Some have it: "slice_in m src" "\<And>e. e \<in> set (items m src) \<Longrightarrow> soundM m (obj_ObjectMeta e)"
      by (auto simp: list_sound_def)
    then have sa: "sl_Array src < length m" by (simp add: slice_in_def)
    with it items_agree[OF h(3), of src] have ih: "slice_in h src" "items h src = items m src" by auto
    have e: "soundM h (obj_ObjectMeta e) \<and> length m \<notin> fpM h (obj_ObjectMeta e) \<and> obj_view viewM h e = obj_view viewM m e"
      if "e \<in> set (items m src)" for e
      using obj_local[OF it(2)[OF that] agree_subset[OF h(3) M.inside[OF it(2)[OF that]]]] M.inside[OF it(2)[OF that]] by auto
    obtain h' dst where h': "loop_part ops (length m) (x\<lparr>list_ListMeta := meta\<rparr>) h = Some h'" "length h < length h'"
      "agree ({..<length h} - {length m}) h h'" "load_list (length m) h' = Some (x\<lparr>list_ListMeta := meta, list_Items := Some dst\<rparr>)"
      "sl_Array dst = length h" "slice_in h' dst"
      "\<And>e. e \<in> set (items h' dst) \<Longrightarrow> soundM h' (obj_ObjectMeta e) \<and> fpM h' (obj_ObjectMeta e) \<subseteq> {length h..<length h'}"
      "map (obj_view viewM h') (items h' dst) = map (obj_view viewM h) (items h src)"
      by (rule loop_copied[OF h(2,4), of src]) (use src ih sa e in auto)
    have "agree (fpL h meta) h h'" by (rule agree_subset[OF h'(3)]) (use h(7) in auto)
    note l = L.local[OF h(5) this]
    have "agree {..<length m} m h'"
      by (rule agree_trans[OF h(3)], rule agree_subset[OF h'(3)]) (use h(2) in auto)
    then have "prefix m h'" by (rule prefix_agree) (use h(2) h'(2) in simp)
    moreover have "List_DeepCopy ops p m = Some (Some (length m), h')" using Some h(1) h'(1) by (simp add: List_DeepCopy_def)
    moreover have "list_sound soundM soundL h' (Some (length m))" using l h' by (simp add: list_sound_def)
    moreover have "list_view viewM viewL h' (Some (length m)) = list_view viewM viewL m p"
      using l h(6) h'(4,8) x Some src ih(2) e by (simp add: list_view_def)
    moreover have "list_footprint fpM fpL h' (Some (length m)) \<subseteq> {length m..<length h'}"
      using l h(2,7) h'(2,4,5) h'(7) by (fastforce simp: list_footprint_def)
    ultimately show ?thesis by blast
  qed
qed (simp add: List_DeepCopy_def list_obj_defs)

lemma list_local:
  assumes "list_sound soundM soundL m (Some p)" and "agree (list_footprint fpM fpL m (Some p)) m m'"
  shows "list_sound soundM soundL m' (Some p) \<and> list_footprint fpM fpL m' (Some p) = list_footprint fpM fpL m (Some p)
     \<and> list_view viewM viewL m' (Some p) = list_view viewM viewL m (Some p)"
proof -
  from assms(1) obtain x where x: "load_list p m = Some x" "soundL m (list_ListMeta x)"
    by (auto simp: list_sound_def split: option.splits)
  with assms(2) have lp: "load_list p m' = Some x" by (subst load_list_agree[OF assms(2)]) (auto simp: list_footprint_def)
  have "agree (fpL m (list_ListMeta x)) m m'" by (rule agree_subset[OF assms(2)]) (auto simp: list_footprint_def x)
  note l = L.local[OF x(2) this]
  show ?thesis
  proof (cases "list_Items x")
    case None
    with x lp l show ?thesis by (simp add: list_obj_defs)
  next
    case (Some sl)
    have it: "items m' sl = items m sl" "slice_in m' sl = slice_in m sl"
      by (rule items_agree[OF assms(2)]; simp add: list_footprint_def x Some)+
    have e: "soundM m' (obj_ObjectMeta e) \<and> fpM m' (obj_ObjectMeta e) = fpM m (obj_ObjectMeta e) \<and> obj_view viewM m' e = obj_view viewM m e"
      if "e \<in> set (items m sl)" for e
    proof -
      have s: "soundM m (obj_ObjectMeta e)" using assms(1) x Some that by (simp add: list_sound_def)
      have "agree (fpM m (obj_ObjectMeta e)) m m'"
        by (rule agree_subset[OF assms(2)]) (use x Some that in \<open>auto simp: list_footprint_def\<close>)
      from obj_local[OF s this] show ?thesis by blast
    qed
    with x lp l it Some assms(1) show ?thesis by (simp add: list_obj_defs)
  qed
qed

end

sublocale list_meta \<subseteq> lists: deep_copier "list_sound soundM soundL" "list_footprint fpM fpL" "list_view viewM viewL" "List_DeepCopy ops"
proof
  show "list_footprint fpM fpL m x \<subseteq> {..<length m}" if "list_sound soundM soundL m x" for m x
  proof -
    have "fpM m (obj_ObjectMeta e) \<subseteq> {..<length m}" if "soundM m (obj_ObjectMeta e)" for e using M.inside[OF that] .
    with that L.inside load_list_inside show ?thesis
      by (fastforce simp: list_sound_def list_footprint_def slice_in_def split: option.splits)
  qed
  show "list_sound soundM soundL m' x \<and> list_footprint fpM fpL m' x = list_footprint fpM fpL m x
     \<and> list_view viewM viewL m' x = list_view viewM viewL m x"
    if "list_sound soundM soundL m x" "agree (list_footprint fpM fpL m x) m m'" for m x m'
  proof (cases x)
    case (Some p)
    show ?thesis using that unfolding Some by (rule list_local)
  qed (simp add: list_obj_defs)
  show "\<exists>y m'. List_DeepCopy ops x m = Some (y, m') \<and> prefix m m' \<and> list_sound soundM soundL m' y
     \<and> list_view viewM viewL m' y = list_view viewM viewL m x \<and> list_footprint fpM fpL m' y \<subseteq> {length m..<length m'}"
    if "list_sound soundM soundL m x" for m x
    using that by (rule list_copies)
qed

context object_meta
begin

lemma record_deep_copier: "deep_copier (record_sound soundM) (record_footprint fpM) (record_view viewM) (Record_DeepCopy ops)"
  by (rule rec.deep_copier_axioms)

end

context list_meta
begin

lemma list_deep_copier: "deep_copier (list_sound soundM soundL) (list_footprint fpM fpL) (list_view viewM viewL) (List_DeepCopy ops)"
  by (rule lists.deep_copier_axioms)

end

section \<open>Metadata with one reference\<close>

text \<open>
  Metadata reduced to its plain fields and one reference: an \<open>ObjectMeta\<close> with its annotations map, a \<open>ListMeta\<close>
  with its pointer to the remaining item count. Copying allocates a cell with the same content.
\<close>

type_synonym 'b tagged = "'b \<times> nat option"

definition other_at :: "('m, 'l, 'c) mem \<Rightarrow> nat \<Rightarrow> 'c option" where
  "other_at m a = (if a < length m then (case m ! a of Other c \<Rightarrow> Some c | _ \<Rightarrow> None) else None)"

definition tagged_copy :: "'b tagged \<Rightarrow> ('m, 'l, 'c) mem \<Rightarrow> ('b tagged \<times> ('m, 'l, 'c) mem) option" where
  "tagged_copy x m = (case snd x of
       None \<Rightarrow> Some (x, m)
     | Some a \<Rightarrow> (case other_at m a of None \<Rightarrow> None | Some c \<Rightarrow> Some ((fst x, Some (length m)), m @ [Other c])))"

definition tagged_sound :: "('m, 'l, 'c) mem \<Rightarrow> 'b tagged \<Rightarrow> bool" where
  "tagged_sound m x = (case snd x of None \<Rightarrow> True | Some a \<Rightarrow> other_at m a \<noteq> None)"

definition tagged_footprint :: "('m, 'l, 'c) mem \<Rightarrow> 'b tagged \<Rightarrow> nat set" where
  "tagged_footprint m x = set_option (snd x)"

definition tagged_view :: "('m, 'l, 'c) mem \<Rightarrow> 'b tagged \<Rightarrow> 'b \<times> 'c option option" where
  "tagged_view m x = (fst x, map_option (other_at m) (snd x))"

lemmas tagged_defs = tagged_copy_def tagged_sound_def tagged_footprint_def tagged_view_def

lemma tagged_inside: "tagged_sound m x \<Longrightarrow> tagged_footprint m x \<subseteq> {..<length m}"
  by (auto simp: tagged_defs other_at_def split: option.splits if_splits)

lemma tagged_local:
  "tagged_sound m x \<Longrightarrow> agree (tagged_footprint m x) m m' \<Longrightarrow>
   tagged_sound m' x \<and> tagged_footprint m' x = tagged_footprint m x \<and> tagged_view m' x = tagged_view m x"
  by (auto simp: tagged_defs other_at_def agree_def split: option.splits)

lemma tagged_copies:
  "tagged_sound m x \<Longrightarrow> \<exists>y m'. tagged_copy x m = Some (y, m') \<and> prefix m m' \<and> tagged_sound m' y
     \<and> tagged_view m' y = tagged_view m x \<and> tagged_footprint m' y \<subseteq> {length m..<length m'}"
  by (cases x, cases "snd x") (auto simp: tagged_defs, auto simp: other_at_def)

interpretation tagged: deep_copier tagged_sound tagged_footprint tagged_view tagged_copy
  by unfold_locales (erule tagged_inside, erule (1) tagged_local, erule tagged_copies)

definition example_meta_ops :: "((string \<times> string) tagged, string tagged, 'c) meta_ops" where
  "example_meta_ops = \<lparr>zero_ObjectMeta = (('''', ''''), None), zero_ListMeta = ('''', None),
     ObjectMeta_DeepCopyInto = tagged_copy, ListMeta_DeepCopyInto = tagged_copy\<rparr>"

interpretation example: list_meta example_meta_ops tagged_sound tagged_footprint tagged_view tagged_sound tagged_footprint tagged_view
  by (simp add: list_meta_def object_meta_def example_meta_ops_def tagged.deep_copier_axioms)

text \<open>A list (cell 3) with two records (cell 2), the first of which has annotations (cell 0).\<close>

definition example_obj :: "string \<Rightarrow> nat option \<Rightarrow> (string \<times> string) tagged SalvageRecordObj" where
  "example_obj name ref = (zero_record (example_meta_ops :: (_, _, unit) meta_ops))\<lparr>obj_ObjectMeta := ((name, ''prod''), ref)\<rparr>"

definition example_mem :: "((string \<times> string) tagged, string tagged, (string \<times> string) list) mem" where
  "example_mem = [Other [(''team'', ''web'')], Other [], Records [example_obj ''a'' (Some 0), example_obj ''b'' None],
     RecordList \<lparr>list_TypeMeta = zero_TypeMeta, list_ListMeta = (''7'', Some 1),
       list_Items = Some \<lparr>sl_Array = 2, sl_Off = 0, sl_Len = 2\<rparr>\<rparr>]"

section \<open>Properties\<close>

text \<open>C19: \<open>DeepCopyObject\<close> of a record list returns a list that reads the same (type and list metadata, a nil
  slice for a nil slice, every record with its metadata), changes no cell that existed, and shares no memory with
  the original: whatever is later written to cells of the copy is not seen through the original, and whatever is
  written to cells of the original is not seen through the copy. It relies on the deep copies of \<open>ObjectMeta\<close> and
  \<open>ListMeta\<close> only. (Of a nil pointer it is a nil interface.)\<close>

theorem List_DeepCopyObject_isolated:
  assumes lm: "list_meta ops soundM fpM viewM soundL fpL viewL" and s: "list_sound soundM soundL m (Some p)"
  shows "List_DeepCopyObject ops None m = Some (None, m) \<and>
     (\<exists>q m'. List_DeepCopyObject ops (Some p) m = Some (Some (ListObject q), m') \<and> prefix m m'
       \<and> list_view viewM viewL m' (Some q) = list_view viewM viewL m (Some p)
       \<and> list_footprint fpM fpL m (Some p) \<inter> list_footprint fpM fpL m' (Some q) = {}
       \<and> (\<forall>m''. agree (- list_footprint fpM fpL m' (Some q) \<inter> {..<length m'}) m' m'' \<longrightarrow>
            list_view viewM viewL m'' (Some p) = list_view viewM viewL m (Some p))
       \<and> (\<forall>m''. agree (- list_footprint fpM fpL m (Some p) \<inter> {..<length m'}) m' m'' \<longrightarrow>
            list_view viewM viewL m'' (Some q) = list_view viewM viewL m (Some p)))"
proof -
  note d = list_meta.list_deep_copier[OF lm]
  from deep_copier.copies[OF d s] obtain q m' where q: "List_DeepCopy ops (Some p) m = Some (q, m')" "prefix m m'"
    "list_view viewM viewL m' q = list_view viewM viewL m (Some p)" "list_footprint fpM fpL m' q \<subseteq> {length m..<length m'}" by blast
  obtain r where r: "q = Some r" using q(1) by (auto simp: List_DeepCopy_def Let_def split: bind_splits)
  have "list_footprint fpM fpL m (Some p) \<inter> list_footprint fpM fpL m' (Some r) = {}"
    using deep_copier.inside[OF d s] q(4) r by fastforce
  with q r deep_copier.isolated(2,3)[OF d s q(1)] show ?thesis
    by (intro conjI exI[of _ r] exI[of _ m']) (auto simp: List_DeepCopyObject_def List_DeepCopy_def)
qed

lemma example_list_sound: "list_sound tagged_sound tagged_sound example_mem (Some 3)"
  by (simp add: list_sound_def example_mem_def load_list_def slice_in_def items_def records_at_def example_obj_def
      tagged_sound_def other_at_def)

theorem List_DeepCopyObject_isolated_witness:
  "\<exists>q m'. List_DeepCopyObject example_meta_ops (Some 3) example_mem = Some (Some (ListObject q), m') \<and> prefix example_mem m'"
  using List_DeepCopyObject_isolated[OF example.list_meta_axioms example_list_sound] by blast

text \<open>The same for a single record: \<open>DeepCopy\<close> gives a record that reads the same, in memory of its own, so that
  later writes to either are not seen through the other.\<close>

theorem Record_DeepCopy_isolated:
  assumes om: "object_meta ops soundM fpM viewM" and s: "record_sound soundM m p"
  shows "\<exists>q m'. Record_DeepCopy ops p m = Some (q, m') \<and> prefix m m' \<and> (q = None \<longleftrightarrow> p = None)
     \<and> record_view viewM m' q = record_view viewM m p
     \<and> record_footprint fpM m p \<inter> record_footprint fpM m' q = {}
     \<and> (\<forall>m''. agree (- record_footprint fpM m' q \<inter> {..<length m'}) m' m'' \<longrightarrow> record_view viewM m'' p = record_view viewM m p)
     \<and> (\<forall>m''. agree (- record_footprint fpM m p \<inter> {..<length m'}) m' m'' \<longrightarrow> record_view viewM m'' q = record_view viewM m p)"
proof -
  note d = object_meta.record_deep_copier[OF om]
  from deep_copier.copies[OF d s] obtain q m' where q: "Record_DeepCopy ops p m = Some (q, m')" "prefix m m'"
    "record_view viewM m' q = record_view viewM m p" "record_footprint fpM m' q \<subseteq> {length m..<length m'}" by blast
  have "q = None \<longleftrightarrow> p = None" using q(1) by (auto simp: Record_DeepCopy_def Let_def split: bind_splits option.splits)
  moreover have "record_footprint fpM m p \<inter> record_footprint fpM m' q = {}"
    using deep_copier.inside[OF d s] q(4) by fastforce
  ultimately show ?thesis using q deep_copier.isolated(2,3)[OF d s q(1)] by blast
qed

theorem Record_DeepCopy_isolated_witness:
  "\<exists>q m'. Record_DeepCopy example_meta_ops (Some (2, 0)) example_mem = Some (Some q, m') \<and> prefix example_mem m'"
proof -
  have "record_sound tagged_sound example_mem (Some (2, 0))"
    by (simp add: record_sound_def example_mem_def load_def records_at_def example_obj_def tagged_sound_def other_at_def)
  from Record_DeepCopy_isolated[OF example.object_meta_axioms this] show ?thesis by fastforce
qed

end
